theory Spec2Isabelle
  imports Main
begin

section \<open>Data model\<close>

text \<open>
  The backend stores its documents in collections of a document database. Numbers of the
  source are JavaScript numbers; the quantities modelled here (experience points, levels,
  streak lengths, counts) are whole numbers and are modelled as unbounded integers. A
  calendar day, which the source writes as a \<open>YYYY-MM-DD\<close> string, is the number of the
  day, so that the day before day \<open>d\<close> is \<open>d - 1\<close>. A timestamp (\<open>new Date()\<close>) is a natural
  number read from the clock of the environment.
\<close>

type_synonym uid = string
type_synonym hid = string
type_synonym day = int
type_synonym time = nat

text \<open>User document (models/User.js): the fields the services read and write.\<close>

record user =
  xp :: "int option"
  level :: "int option"
  fcmToken :: "string option"
  lastActivity :: "time option"
  updatedAt :: "time option"

text \<open>Habit document (models/Habit.js).\<close>

record frequency =
  ftype :: string
  days :: "int list option"
  dates :: "int list option"

record habit =
  h_userId :: uid
  name :: string
  h_frequency :: frequency
  status :: string
  archived :: bool
  paused :: bool
  streak :: "int option"
  longestStreak :: int
  totalCompletions :: int
  completedDates :: "day list option"
  h_updatedAt :: time
  lastCheckIn :: "time option"

text \<open>Check-in document (models/CheckIn.js).\<close>

record checkin =
  c_habitId :: hid
  c_userId :: uid
  c_date :: day
  completed :: bool
  completionPercentage :: int
  c_notes :: "string option"
  photoUrl :: "string option"
  mood :: "string option"
  c_createdAt :: time

text \<open>Achievement document (models/Achievement.js). The free-form metadata object is a
  record of the keys the services use, each present or absent. The icons are emoji in the
  source.\<close>

datatype icon = Trophy | Star | Fire | Sparkles | Target

record metadata =
  m_streak :: "int option"
  m_completions :: "int option"
  m_level :: "int option"
  m_habitId :: "hid option"

record achievement =
  a_userId :: uid
  a_type :: string
  title :: string
  description :: string
  a_icon :: icon
  xpReward :: int
  unlockedAt :: time
  a_metadata :: "metadata option"

record achievementData =
  ad_type :: string
  ad_title :: string
  ad_description :: string
  ad_icon :: "icon option"
  ad_xpReward :: int
  ad_metadata :: "metadata option"

text \<open>Notification document (models/Notification.js).\<close>

record notificationPayload =
  achievementId :: "nat option"
  d_level :: "int option"

record notification =
  n_userId :: uid
  n_type :: string
  n_title :: string
  message :: string
  n_data :: "notificationPayload option"
  read :: bool
  n_createdAt :: time

text \<open>A push message handed to the messaging service (services/fcmService.js).\<close>

record push =
  p_token :: string
  p_title :: string
  p_body :: string
  p_type :: string
  p_previousStreak :: "string option"

text \<open>
  Every call to the database or to the messaging service happens at one place of the
  source; the places are named here. A call may be rejected by the service, and the
  source's \<open>try/catch\<close> blocks decide what happens then.
\<close>

datatype db_call =
    HabitGet | FcmUserGet | FcmSend | HabitUpdate | ActivityUserGet | ActivityUserUpdate
  | HabitReGet
  | CheckinHabitGet | CheckinAdd | CheckinUserUpdate
  | XpUserGet | XpUserUpdate | LevelAchievementAdd | LevelNotificationAdd
  | StreakAchievementQuery | CompletionCheckinQuery | CompletionAchievementQuery
  | AchievementAdd | AchievementNotificationAdd

text \<open>The errors thrown: a rejected call, a missing user document, and an error of
  \<open>updateStreak\<close>.\<close>

datatype error = DbError db_call | UserNotFound | StreakError

text \<open>What the trace records: a call, an error thrown by the code modelled here, a console
  line, and the calls of \<open>updateStreak\<close> and \<open>sendStreakEndAlert\<close> with their arguments.\<close>

datatype event =
    Db db_call | Thrown error | Console string
  | UpdateStreakCall hid uid day | StreakEndAlertCall uid string int

text \<open>
  The store: the collections, the messages pushed, and the trace of events in the order
  they happened. A document added to a collection gets its position
  in the collection as identifier.
\<close>

record store =
  users :: "uid \<rightharpoonup> user"
  habits :: "hid \<rightharpoonup> habit"
  checkins :: "checkin list"
  achievements :: "achievement list"
  notifications :: "notification list"
  pushes :: "push list"
  trace :: "event list"

record xp_values =
  LEVEL_UP :: int
  STREAK_7 :: int
  STREAK_30 :: int
  STREAK_100 :: int

record streakResult =
  currentStreak :: "int option"
  updated :: bool

text \<open>
  The environment of a request: the constants of config/constants.js and the two
  functions of services/streakService.js, which are not part of the sources at hand and
  are parameters of the model; the clock; and which calls the services reject, which may
  depend on the place of the call and on everything that happened before.

  The clock gives the time \<open>now\<close>, the day \<open>today\<close> and the day \<open>yesterday\<close> as the handler
  of routes/habits.js computes it: \<open>new Date()\<close> stepped one day back in the local time of
  the server (\<open>setDate(getDate() - 1)\<close>) and written as a UTC date. On a server whose local
  time has no clock change between the two instants this is \<open>today - 1\<close>. Across a
  clock change one local day is 23 or 25 hours, and the UTC date of the earlier instant
  can be \<open>today\<close> or \<open>today - 2\<close>: in the zone America/New_York at 2024-11-04T00:30Z
  the handler reads today as 2024-11-04 and yesterday as 2024-11-02.
\<close>

record env =
  LEVEL_XP_REQUIREMENTS :: "int list"
  STREAK_MILESTONES :: "int list"
  XP_VALUES :: xp_values
  updateStreak :: "hid \<Rightarrow> uid \<Rightarrow> day \<Rightarrow> store \<Rightarrow> (error + streakResult) \<times> store"
  isDateValidForHabit :: "habit \<Rightarrow> day \<Rightarrow> bool"
  now :: time
  today :: day
  yesterday :: day
  db_fails :: "db_call \<Rightarrow> store \<Rightarrow> bool"

section \<open>Helpers\<close>

definition called :: "db_call \<Rightarrow> store \<Rightarrow> store" where
  "called c s = s\<lparr>trace := trace s @ [Db c]\<rparr>"

definition thrown :: "error \<Rightarrow> store \<Rightarrow> store" where
  "thrown e s = s\<lparr>trace := trace s @ [Thrown e]\<rparr>"

definition console :: "string \<Rightarrow> store \<Rightarrow> store" where
  "console line s = s\<lparr>trace := trace s @ [Console line]\<rparr>"

definition invoked :: "event \<Rightarrow> store \<Rightarrow> store" where
  "invoked e s = s\<lparr>trace := trace s @ [e]\<rparr>"

text \<open>Decimal rendering of a number inside a template string.\<close>

fun digits :: "nat \<Rightarrow> string" where
  "digits n = (if n < 10 then [''0123456789'' ! n]
               else digits (n div 10) @ [''0123456789'' ! (n mod 10)])"

definition toString :: "int \<Rightarrow> string" where
  "toString i = (if i < 0 then CHR ''-'' # digits (nat (- i)) else digits (nat i))"

section \<open>models/Achievement.js, models/Notification.js\<close>

definition createAchievementData :: "time \<Rightarrow> uid \<Rightarrow> achievementData \<Rightarrow> achievement" where
  "createAchievementData t userId d =
     \<lparr>a_userId = userId, a_type = ad_type d, title = ad_title d,
      description = ad_description d,
      a_icon = (case ad_icon d of None \<Rightarrow> Trophy | Some i \<Rightarrow> i),
      xpReward = (if ad_xpReward d = 0 then 10 else ad_xpReward d),
      unlockedAt = t, a_metadata = ad_metadata d\<rparr>"

definition createNotificationData ::
  "time \<Rightarrow> uid \<Rightarrow> string \<Rightarrow> string \<Rightarrow> string \<Rightarrow> notificationPayload option \<Rightarrow> notification" where
  "createNotificationData t userId ty ti msg d =
     \<lparr>n_userId = userId, n_type = ty, n_title = ti, message = msg, n_data = d,
      read = False, n_createdAt = t\<rparr>"

section \<open>services/achievementService.js: experience points and levels\<close>

text \<open>
  The loop of \<open>addXP\<close> over the table of thresholds, from the last index down to 0:
  \<open>levelLoop reqs newXP n cur\<close> has the indices below \<open>n\<close> left to visit and returns
  \<open>cur\<close>, the value \<open>newLevel\<close> was initialised with, when none of them matches.
\<close>

fun levelLoop :: "int list \<Rightarrow> int \<Rightarrow> nat \<Rightarrow> int \<Rightarrow> int" where
  "levelLoop reqs newXP 0 cur = cur"
| "levelLoop reqs newXP (Suc i) cur =
     (if newXP \<ge> reqs ! i then int i + 1 else levelLoop reqs newXP i cur)"

record xpResult =
  r_xp :: int
  r_level :: int
  levelUp :: bool

definition currentXP :: "user \<Rightarrow> int" where
  "currentXP u = (case xp u of None \<Rightarrow> 0 | Some x \<Rightarrow> x)"

definition currentLevel :: "user \<Rightarrow> int" where
  "currentLevel u = (case level u of None \<Rightarrow> 1 | Some l \<Rightarrow> if l = 0 then 1 else l)"

definition levelAchievement :: "env \<Rightarrow> uid \<Rightarrow> int \<Rightarrow> achievement" where
  "levelAchievement env userId newLevel =
     createAchievementData (now env) userId
       \<lparr>ad_type = ''level'', ad_title = ''Level '' @ toString newLevel @ ''!'',
        ad_description = ''You've reached level '' @ toString newLevel @ ''!'',
        ad_icon = Some Star, ad_xpReward = LEVEL_UP (XP_VALUES env),
        ad_metadata = Some \<lparr>m_streak = None, m_completions = None, m_level = Some newLevel,
                              m_habitId = None\<rparr>\<rparr>"

text \<open>The notification of a level-up refers to \<open>achievement.id\<close>, which the achievement data
  does not have: the field is absent. Whether the database accepts the document is part
  of \<open>db_fails\<close>.\<close>

definition levelNotification :: "env \<Rightarrow> uid \<Rightarrow> int \<Rightarrow> notification" where
  "levelNotification env userId newLevel =
     createNotificationData (now env) userId ''achievement'' ''Level Up!''
       (''Congratulations! You've reached level '' @ toString newLevel @ ''!'')
       (Some \<lparr>achievementId = None, d_level = Some newLevel\<rparr>)"

text \<open>How many levels of the table lie above the level of the user.\<close>

definition levelsLeft :: "env \<Rightarrow> uid \<Rightarrow> store \<Rightarrow> nat" where
  "levelsLeft env userId s =
     nat (int (length (LEVEL_XP_REQUIREMENTS env)) -
          (case users s userId of None \<Rightarrow> 0 | Some u \<Rightarrow> currentLevel u))"

lemma levelLoop_range:
  "levelLoop reqs x n cur = cur \<or>
   (1 \<le> levelLoop reqs x n cur \<and> levelLoop reqs x n cur \<le> int n)"
  by (induction n) auto

lemma levelUp_decreases:
  assumes "users s userId = Some u"
    and "currentLevel u < levelLoop reqs x (length reqs) (currentLevel u)"
    and "LEVEL_XP_REQUIREMENTS env = reqs"
  shows "levelsLeft env userId
           (s'\<lparr>users := (users s')(userId \<mapsto>
               u\<lparr>xp := a, level := Some (levelLoop reqs x (length reqs) (currentLevel u)),
                 updatedAt := b\<rparr>)\<rparr>)
         < levelsLeft env userId s"
  using assms levelLoop_range[of reqs x "length reqs" "currentLevel u"]
  by (auto simp: levelsLeft_def currentLevel_def)

text \<open>
  \<open>addXP\<close> reads the user, adds the amount, walks the table, writes \<open>xp\<close> and \<open>level\<close>
  and calls \<open>handleLevelUp\<close> when the level rose; it logs and rethrows every error.
  \<open>handleLevelUp\<close> stores a level achievement and a notification and awards the
  level-up bonus through \<open>addXP\<close> again; it logs and swallows every error.
\<close>

function addXP :: "env \<Rightarrow> uid \<Rightarrow> int \<Rightarrow> store \<Rightarrow> (error + xpResult) \<times> store"
  and handleLevelUp :: "env \<Rightarrow> uid \<Rightarrow> int \<Rightarrow> store \<Rightarrow> store" where
  "addXP env userId amount s =
     (let s1 = called XpUserGet s in
      if db_fails env XpUserGet s
      then (Inl (DbError XpUserGet),
            console ''Error adding XP:'' (thrown (DbError XpUserGet) s1))
      else case users s1 userId of
        None \<Rightarrow> (Inl UserNotFound, console ''Error adding XP:'' (thrown UserNotFound s1))
      | Some user \<Rightarrow>
          (let newXP = currentXP user + amount;
               newLevel = levelLoop (LEVEL_XP_REQUIREMENTS env) newXP
                            (length (LEVEL_XP_REQUIREMENTS env)) (currentLevel user);
               s2 = called XpUserUpdate s1
           in if db_fails env XpUserUpdate s1
              then (Inl (DbError XpUserUpdate),
                    console ''Error adding XP:'' (thrown (DbError XpUserUpdate) s2))
              else
                (let s3 = s2\<lparr>users := (users s2)(userId \<mapsto>
                            user\<lparr>xp := Some newXP, level := Some newLevel,
                                 updatedAt := Some (now env)\<rparr>)\<rparr>
                 in (Inr \<lparr>r_xp = newXP, r_level = newLevel,
                          levelUp = (newLevel > currentLevel user)\<rparr>,
                     if newLevel > currentLevel user
                     then handleLevelUp env userId newLevel s3 else s3))))"
| "handleLevelUp env userId newLevel s =
     (let s1 = called LevelAchievementAdd s in
      if db_fails env LevelAchievementAdd s
      then console ''Error handling level up:'' (thrown (DbError LevelAchievementAdd) s1)
      else
        (let s2 = s1\<lparr>achievements := achievements s1 @ [levelAchievement env userId newLevel]\<rparr>;
             s3 = called LevelNotificationAdd s2
         in if db_fails env LevelNotificationAdd s2
            then console ''Error handling level up:''
                   (thrown (DbError LevelNotificationAdd) s3)
            else
              (let s4 = s3\<lparr>notifications :=
                          notifications s3 @ [levelNotification env userId newLevel]\<rparr>
               in case addXP env userId (LEVEL_UP (XP_VALUES env)) s4 of
                    (Inl e, s5) \<Rightarrow> console ''Error handling level up:'' s5
                  | (Inr r, s5) \<Rightarrow> s5)))"
  by pat_completeness auto

text \<open>Every level-up strictly raises the stored level, and no level exceeds the length of
  the table: the number of levels left decreases along the recursion.\<close>

termination
  apply (relation "measure (\<lambda>x. case x of
     Inl (env, userId, amount, s) \<Rightarrow> 2 * levelsLeft env userId s + 1
   | Inr (env, userId, newLevel, s) \<Rightarrow> 2 * levelsLeft env userId s + 2)")
    apply simp
  subgoal for env userId amount s x x2 xa xb xc xd
    using levelUp_decreases[where s=s and userId=userId and u=x2
        and reqs="LEVEL_XP_REQUIREMENTS env" and x=xa and env=env and s'=xc
        and a="Some xa" and b="Some (now env)"]
    by (simp add: called_def)
  subgoal
    by (simp add: called_def levelsLeft_def)
  done

section \<open>services/achievementService.js: achievements\<close>

record achievementContext =
  ctx_type :: string
  ctx_habitId :: hid
  ctx_streak :: "int option"

definition metaStreak :: "achievement \<Rightarrow> int option" where
  "metaStreak a = (case a_metadata a of None \<Rightarrow> None | Some m \<Rightarrow> m_streak m)"

definition metaCompletions :: "achievement \<Rightarrow> int option" where
  "metaCompletions a = (case a_metadata a of None \<Rightarrow> None | Some m \<Rightarrow> m_completions m)"

definition metaHabitId :: "achievement \<Rightarrow> hid option" where
  "metaHabitId a = (case a_metadata a of None \<Rightarrow> None | Some m \<Rightarrow> m_habitId m)"

text \<open>The query of \<open>checkStreakAchievements\<close>: the streak achievements of the user with
  this value of \<open>metadata.streak\<close>.\<close>

definition existingStreak :: "uid \<Rightarrow> int \<Rightarrow> achievement list \<Rightarrow> achievement list" where
  "existingStreak userId n as =
     filter (\<lambda>a. a_userId a = userId \<and> a_type a = ''streak'' \<and> metaStreak a = Some n) as"

definition streakAchievement :: "env \<Rightarrow> uid \<Rightarrow> int \<Rightarrow> hid \<Rightarrow> achievement" where
  "streakAchievement env userId n habitId =
     createAchievementData (now env) userId
       \<lparr>ad_type = ''streak'', ad_title = toString n @ '' Day Streak!'',
        ad_description = ''Amazing! You've maintained a '' @ toString n @ ''-day streak!'',
        ad_icon = Some (if n \<ge> 100 then Fire else if n \<ge> 30 then Star else Sparkles),
        ad_xpReward = (if n \<ge> 100 then STREAK_100 (XP_VALUES env)
                       else if n \<ge> 30 then STREAK_30 (XP_VALUES env)
                       else STREAK_7 (XP_VALUES env)),
        ad_metadata = Some \<lparr>m_streak = Some n, m_completions = None, m_level = None,
                              m_habitId = Some habitId\<rparr>\<rparr>"

definition checkStreakAchievements ::
  "env \<Rightarrow> uid \<Rightarrow> int \<Rightarrow> hid \<Rightarrow> store \<Rightarrow> (error + achievement list) \<times> store" where
  "checkStreakAchievements env userId n habitId s =
     (let s1 = called StreakAchievementQuery s in
      if db_fails env StreakAchievementQuery s
      then (Inl (DbError StreakAchievementQuery), thrown (DbError StreakAchievementQuery) s1)
      else if existingStreak userId n (achievements s1) \<noteq> [] then (Inr [], s1)
      else if n \<in> set (STREAK_MILESTONES env)
        then (Inr [streakAchievement env userId n habitId], s1)
        else (Inr [], s1))"

definition existingCompletion ::
  "uid \<Rightarrow> int \<Rightarrow> hid \<Rightarrow> achievement list \<Rightarrow> achievement list" where
  "existingCompletion userId milestone habitId as =
     filter (\<lambda>a. a_userId a = userId \<and> a_type a = ''completion'' \<and>
                 metaCompletions a = Some milestone \<and> metaHabitId a = Some habitId) as"

definition completionAchievement :: "env \<Rightarrow> uid \<Rightarrow> int \<Rightarrow> hid \<Rightarrow> achievement" where
  "completionAchievement env userId milestone habitId =
     createAchievementData (now env) userId
       \<lparr>ad_type = ''completion'', ad_title = toString milestone @ '' Completions!'',
        ad_description = ''You've completed this habit '' @ toString milestone @ '' times!'',
        ad_icon = Some Target,
        ad_xpReward = (if milestone \<ge> 100 then 100 else if milestone \<ge> 50 then 50 else 25),
        ad_metadata = Some \<lparr>m_streak = None, m_completions = Some milestone, m_level = None,
                              m_habitId = Some habitId\<rparr>\<rparr>"

text \<open>The loop of \<open>checkCompletionAchievements\<close> over the milestones, with the list of
  achievements collected so far.\<close>

fun completionLoop ::
  "env \<Rightarrow> uid \<Rightarrow> hid \<Rightarrow> int \<Rightarrow> int list \<Rightarrow> achievement list \<Rightarrow> store
   \<Rightarrow> (error + achievement list) \<times> store" where
  "completionLoop env userId habitId cnt [] acc s = (Inr acc, s)"
| "completionLoop env userId habitId cnt (milestone # ms) acc s =
     (if cnt = milestone then
        (let s1 = called CompletionAchievementQuery s in
         if db_fails env CompletionAchievementQuery s
         then (Inl (DbError CompletionAchievementQuery),
               thrown (DbError CompletionAchievementQuery) s1)
         else if existingCompletion userId milestone habitId (achievements s1) = []
           then completionLoop env userId habitId cnt ms
                  (acc @ [completionAchievement env userId milestone habitId]) s1
           else completionLoop env userId habitId cnt ms acc s1)
      else completionLoop env userId habitId cnt ms acc s)"

definition milestones :: "int list" where
  "milestones = [10, 25, 50, 100, 250, 500]"

definition totalCompletionsOf :: "uid \<Rightarrow> hid \<Rightarrow> checkin list \<Rightarrow> int" where
  "totalCompletionsOf userId habitId cs =
     int (length (filter (\<lambda>c. c_userId c = userId \<and> c_habitId c = habitId \<and> completed c) cs))"

definition checkCompletionAchievements ::
  "env \<Rightarrow> uid \<Rightarrow> hid \<Rightarrow> store \<Rightarrow> (error + achievement list) \<times> store" where
  "checkCompletionAchievements env userId habitId s =
     (let s1 = called CompletionCheckinQuery s in
      if db_fails env CompletionCheckinQuery s
      then (Inl (DbError CompletionCheckinQuery), thrown (DbError CompletionCheckinQuery) s1)
      else completionLoop env userId habitId (totalCompletionsOf userId habitId (checkins s1))
             milestones [] s1)"

text \<open>The loop of \<open>checkAchievements\<close> that stores each achievement, stores a notification
  for it and awards its experience points.\<close>

fun saveAchievements ::
  "env \<Rightarrow> uid \<Rightarrow> achievement list \<Rightarrow> store \<Rightarrow> (error + unit) \<times> store" where
  "saveAchievements env userId [] s = (Inr (), s)"
| "saveAchievements env userId (a # as) s =
     (let s1 = called AchievementAdd s in
      if db_fails env AchievementAdd s
      then (Inl (DbError AchievementAdd), thrown (DbError AchievementAdd) s1)
      else
        (let ref = length (achievements s1);
             s2 = s1\<lparr>achievements := achievements s1 @ [a]\<rparr>;
             s3 = called AchievementNotificationAdd s2
         in if db_fails env AchievementNotificationAdd s2
            then (Inl (DbError AchievementNotificationAdd),
                  thrown (DbError AchievementNotificationAdd) s3)
            else
              (let s4 = s3\<lparr>notifications := notifications s3 @
                          [createNotificationData (now env) userId ''achievement'' (title a)
                             (description a)
                             (Some \<lparr>achievementId = Some ref, d_level = None\<rparr>)]\<rparr>
               in case addXP env userId (xpReward a) s4 of
                    (Inl e, s5) \<Rightarrow> (Inl e, s5)
                  | (Inr r, s5) \<Rightarrow> saveAchievements env userId as s5)))"

definition checkAchievements :: "env \<Rightarrow> uid \<Rightarrow> achievementContext \<Rightarrow> store \<Rightarrow> achievement list \<times> store" where
  "checkAchievements env userId ctx s =
     (case (if ctx_type ctx = ''check_in'' \<and> ctx_streak ctx \<noteq> None \<and> ctx_streak ctx \<noteq> Some 0
            then checkStreakAchievements env userId (the (ctx_streak ctx)) (ctx_habitId ctx) s
            else (Inr [], s)) of
        (Inl e, s1) \<Rightarrow> ([], console ''Error checking achievements:'' s1)
      | (Inr streakAchievements, s1) \<Rightarrow>
          (case (if ctx_type ctx = ''check_in''
                 then checkCompletionAchievements env userId (ctx_habitId ctx) s1
                 else (Inr [], s1)) of
             (Inl e, s2) \<Rightarrow> ([], console ''Error checking achievements:'' s2)
           | (Inr completionAchievements, s2) \<Rightarrow>
               (case saveAchievements env userId
                       (streakAchievements @ completionAchievements) s2 of
                  (Inl e, s3) \<Rightarrow> ([], console ''Error checking achievements:'' s3)
                | (Inr u, s3) \<Rightarrow> (streakAchievements @ completionAchievements, s3))))"

section \<open>services/fcmService.js\<close>

text \<open>\<open>sendNotification\<close> looks the device token of the user up and hands the message to
  the messaging service; it catches every error and reports success or failure.\<close>

definition sendNotification ::
  "env \<Rightarrow> uid \<Rightarrow> string \<Rightarrow> string \<Rightarrow> string \<Rightarrow> string option \<Rightarrow> store \<Rightarrow> bool \<times> store" where
  "sendNotification env userId ti body ty prev s =
     (let s1 = called FcmUserGet s in
      if db_fails env FcmUserGet s
      then (False, console ''FCM Error:'' (thrown (DbError FcmUserGet) s1))
      else case users s1 userId of
        None \<Rightarrow> (False, console ''FCM Error:'' (thrown UserNotFound s1))
      | Some u \<Rightarrow>
          (if fcmToken u = None \<or> fcmToken u = Some []
           then (False, console (''No FCM token for user '' @ userId) s1)
           else
             (let s2 = called FcmSend s1 in
              if db_fails env FcmSend s1
              then (False, console ''FCM Error:'' (thrown (DbError FcmSend) s2))
              else (True, console ''Notification sent:''
                      (s2\<lparr>pushes := pushes s2 @
                          [\<lparr>p_token = the (fcmToken u), p_title = ti, p_body = body,
                            p_type = ty, p_previousStreak = prev\<rparr>]\<rparr>)))))"

definition sendStreakEndAlert :: "env \<Rightarrow> uid \<Rightarrow> string \<Rightarrow> int \<Rightarrow> store \<Rightarrow> bool \<times> store" where
  "sendStreakEndAlert env userId habitName previousStreak s =
     sendNotification env userId ''Don't Give Up!''
       (''Your '' @ toString previousStreak @ ''-day streak with '' @ habitName @
        '' ended. You can start a new one today!'')
       ''streak_end'' (Some (toString previousStreak)) s"

section \<open>routes/habits.js: check in to a habit\<close>

datatype response =
    Rejected nat string
  | HabitCheckedIn habit int
  | CheckInCreated nat checkin streakResult

text \<open>
  The handler of \<open>POST /:id/checkIn\<close>. The day of the check-in is \<open>today\<close> of the clock
  and the day it looks for among the completed dates is \<open>yesterday\<close> of the clock. An
  error thrown anywhere outside the inner \<open>try\<close> is answered with status 500.
\<close>

definition checkIn :: "env \<Rightarrow> uid \<Rightarrow> hid \<Rightarrow> store \<Rightarrow> response \<times> store" where
  "checkIn env userId habitId s =
     (let s1 = called HabitGet s in
      if db_fails env HabitGet s
      then (Rejected 500 ''Failed to check in'',
            console ''Check-in error:'' (thrown (DbError HabitGet) s1))
      else case habits s1 habitId of
        None \<Rightarrow> (Rejected 404 ''Habit not found'', s1)
      | Some habit \<Rightarrow>
          if h_userId habit \<noteq> userId then (Rejected 403 ''Unauthorized access'', s1)
          else if archived habit \<or> paused habit
            then (Rejected 400 ''Cannot check in to archived or paused habit'', s1)
          else
            (let dates = (case completedDates habit of None \<Rightarrow> [] | Some ds \<Rightarrow> ds);
                 previousStreak = (case streak habit of None \<Rightarrow> 0 | Some n \<Rightarrow> n)
             in if today env \<in> set dates then (Rejected 400 ''Already checked in today'', s1)
                else
                  (let yesterdayStr = yesterday env;
                       newStreak = (if dates \<noteq> [] \<and> yesterdayStr \<in> set dates
                                    then previousStreak + 1 else 1);
                       s2 = (if dates \<noteq> [] \<and> yesterdayStr \<notin> set dates \<and>
                                previousStreak > 0
                             then snd (sendStreakEndAlert env userId (name habit) previousStreak
                                         (invoked (StreakEndAlertCall userId (name habit)
                                                     previousStreak) s1))
                             else s1);
                       s3 = called HabitUpdate s2
                   in if db_fails env HabitUpdate s2
                      then (Rejected 500 ''Failed to check in'',
                            console ''Check-in error:'' (thrown (DbError HabitUpdate) s3))
                      else
                        (let s4 = s3\<lparr>habits := (habits s3)(habitId \<mapsto>
                                    habit\<lparr>completedDates := Some (dates @ [today env]),
                                          streak := Some newStreak,
                                          h_updatedAt := now env,
                                          lastCheckIn := Some (now env)\<rparr>)\<rparr>;
                             s5 = called ActivityUserGet s4;
                             s6 = (if db_fails env ActivityUserGet s4
                                   then console ''Failed to update user lastActivity:''
                                          (thrown (DbError ActivityUserGet) s5)
                                   else case users s5 userId of
                                     None \<Rightarrow> s5
                                   | Some u \<Rightarrow>
                                       if db_fails env ActivityUserUpdate s5
                                       then console ''Failed to update user lastActivity:''
                                              (thrown (DbError ActivityUserUpdate)
                                                 (called ActivityUserUpdate s5))
                                       else (called ActivityUserUpdate s5)
                                              \<lparr>users := (users s5)(userId \<mapsto>
                                                 u\<lparr>lastActivity := Some (now env)\<rparr>)\<rparr>);
                             s7 = called HabitReGet s6
                         in if db_fails env HabitReGet s6
                            then (Rejected 500 ''Failed to check in'',
                                  console ''Check-in error:'' (thrown (DbError HabitReGet) s7))
                            else case habits s7 habitId of
                              None \<Rightarrow> (Rejected 500 ''Failed to check in'',
                                        console ''Check-in error:'' s7)
                            | Some h \<Rightarrow> (HabitCheckedIn h newStreak, s7)))))"

section \<open>models/CheckIn.js, routes/checkins.js: create a check-in\<close>

text \<open>A field of a request body: absent, or a JSON value.\<close>

datatype jsval = JUndefined | JNull | JBool bool | JNum int | JStr string | JObj

fun truthy :: "jsval \<Rightarrow> bool" where
  "truthy JUndefined = False"
| "truthy JNull = False"
| "truthy (JBool b) = b"
| "truthy (JNum n) = (n \<noteq> 0)"
| "truthy (JStr s) = (s \<noteq> [])"
| "truthy JObj = True"

definition notFalse :: "jsval \<Rightarrow> bool" where
  "notFalse v = (v \<noteq> JBool False)"

definition orNull :: "string option \<Rightarrow> string option" where
  "orNull v = (if v = Some [] then None else v)"

record checkInData =
  cd_date :: "day option"
  cd_completed :: jsval
  cd_completionPercentage :: "int option"
  cd_notes :: "string option"
  cd_photoUrl :: "string option"
  cd_mood :: "string option"

definition createCheckInData :: "env \<Rightarrow> hid \<Rightarrow> uid \<Rightarrow> checkInData \<Rightarrow> checkin" where
  "createCheckInData env habitId userId d =
     \<lparr>c_habitId = habitId, c_userId = userId,
      c_date = (case cd_date d of None \<Rightarrow> today env | Some x \<Rightarrow> x),
      completed = notFalse (cd_completed d),
      completionPercentage =
        (if cd_completionPercentage d = None \<or> cd_completionPercentage d = Some 0
         then (if notFalse (cd_completed d) then 100 else 0)
         else the (cd_completionPercentage d)),
      c_notes = orNull (cd_notes d), photoUrl = orNull (cd_photoUrl d),
      mood = orNull (cd_mood d), c_createdAt = now env\<rparr>"

record checkInRequest =
  rq_uid :: uid
  rq_habitId :: hid
  rq_date :: "day option"
  rq_completed :: jsval
  rq_completionPercentage :: "int option"
  rq_notes :: "string option"
  rq_photoUrl :: "string option"
  rq_mood :: "string option"

text \<open>
  The \<open>try\<close> block of the handler that awards the experience points of a check-in and
  checks the achievements: an error of \<open>addXP\<close> is logged as non-fatal and
  \<open>checkAchievements\<close> is skipped.
\<close>

definition awardCheckIn :: "env \<Rightarrow> uid \<Rightarrow> hid \<Rightarrow> streakResult \<Rightarrow> store \<Rightarrow> store" where
  "awardCheckIn env userId habitId r s =
     (case addXP env userId 10 s of
        (Inl e, s1) \<Rightarrow> console ''Achievement error (non-fatal):'' s1
      | (Inr x, s1) \<Rightarrow>
          snd (checkAchievements env userId
                 \<lparr>ctx_type = ''check_in'', ctx_habitId = habitId,
                  ctx_streak = currentStreak r\<rparr> s1))"

text \<open>
  The handler of \<open>POST /\<close>. The day of the request is the date of the body, or the clock,
  written as a day in local time. The database rejects the update of a document that
  does not exist, so the last update fails for a user without a document.
\<close>

definition createCheckIn :: "env \<Rightarrow> checkInRequest \<Rightarrow> store \<Rightarrow> response \<times> store" where
  "createCheckIn env req s =
     (let s1 = called CheckinHabitGet s in
      if db_fails env CheckinHabitGet s
      then (Rejected 500 ''Failed to create check-in'',
            console ''Create check-in error:'' (thrown (DbError CheckinHabitGet) s1))
      else case habits s1 (rq_habitId req) of
        None \<Rightarrow> (Rejected 404 ''Habit not found'', s1)
      | Some habit \<Rightarrow>
          if h_userId habit \<noteq> rq_uid req then (Rejected 403 ''Unauthorized'', s1)
          else if status habit \<noteq> ''active'' then (Rejected 400 ''Habit is not active'', s1)
          else
            (let checkInDate = (case rq_date req of None \<Rightarrow> today env | Some d \<Rightarrow> d) in
             if \<not> isDateValidForHabit env habit checkInDate
             then (Rejected 400 ''Check-in date is not valid for this habit frequency'', s1)
             else if (case completedDates habit of None \<Rightarrow> False
                      | Some ds \<Rightarrow> checkInDate \<in> set ds) \<and> truthy (rq_completed req)
             then (Rejected 400 ''Already checked in for this date'', s1)
             else
               (let checkInData = createCheckInData env (rq_habitId req) (rq_uid req)
                      \<lparr>cd_date = Some checkInDate,
                       cd_completed = JBool (notFalse (rq_completed req)),
                       cd_completionPercentage =
                         (if rq_completionPercentage req = None \<or>
                             rq_completionPercentage req = Some 0
                          then Some (if notFalse (rq_completed req) then 100 else 0)
                          else rq_completionPercentage req),
                       cd_notes = rq_notes req, cd_photoUrl = rq_photoUrl req,
                       cd_mood = rq_mood req\<rparr>;
                    s2 = called CheckinAdd s1
                in if db_fails env CheckinAdd s1
                   then (Rejected 500 ''Failed to create check-in'',
                         console ''Create check-in error:''
                           (thrown (DbError CheckinAdd) s2))
                   else
                     (let checkInId = length (checkins s2);
                          s3 = s2\<lparr>checkins := checkins s2 @ [checkInData]\<rparr>
                      in case (if notFalse (rq_completed req)
                               then (case updateStreak env (rq_habitId req) (rq_uid req)
                                            checkInDate
                                            (s3\<lparr>trace := trace s3 @
                                               [UpdateStreakCall (rq_habitId req) (rq_uid req)
                                                  checkInDate]\<rparr>) of
                                       (Inl e, s4) \<Rightarrow> (Inl e, s4)
                                     | (Inr r, s4) \<Rightarrow>
                                         (Inr (Some r),
                                          awardCheckIn env (rq_uid req) (rq_habitId req) r s4))
                               else (Inr None, s3)) of
                           (Inl e, s5) \<Rightarrow>
                             (Rejected 500 ''Failed to create check-in'',
                              console ''Create check-in error:'' s5)
                         | (Inr streakResult, s5) \<Rightarrow>
                             (let s6 = called CheckinUserUpdate s5 in
                              if db_fails env CheckinUserUpdate s5 \<or>
                                 users s6 (rq_uid req) = None
                              then (Rejected 500 ''Failed to create check-in'',
                                    console ''Create check-in error:''
                                      (thrown (DbError CheckinUserUpdate) s6))
                              else
                                (CheckInCreated checkInId checkInData
                                   (case streakResult of
                                      Some r \<Rightarrow> r
                                    | None \<Rightarrow> \<lparr>currentStreak = streak habit,
                                                 updated = False\<rparr>),
                                 s6\<lparr>users := (users s6)(rq_uid req \<mapsto>
                                      (the (users s6 (rq_uid req)))
                                        \<lparr>lastActivity := Some (now env)\<rparr>)\<rparr>))))))"

text \<open>The user document that \<open>addXP\<close> writes.\<close>

definition userAfterXP :: "env \<Rightarrow> user \<Rightarrow> int \<Rightarrow> user" where
  "userAfterXP env u amount = u\<lparr>xp := Some (currentXP u + amount),
      level := Some (levelLoop (LEVEL_XP_REQUIREMENTS env) (currentXP u + amount)
                      (length (LEVEL_XP_REQUIREMENTS env)) (currentLevel u)),
      updatedAt := Some (now env)\<rparr>"

section \<open>Observations used in the properties\<close>

text \<open>How often \<open>handleLevelUp\<close> has run: each run starts by storing the level
  achievement.\<close>

definition levelUps :: "store \<Rightarrow> nat" where
  "levelUps s = length (filter (\<lambda>e. e = Db LevelAchievementAdd) (trace s))"

text \<open>The stored level of a user is consistent with the table when it does not exceed the
  level of some threshold that the stored experience points reach.\<close>

definition levelConsistent :: "env \<Rightarrow> user \<Rightarrow> bool" where
  "levelConsistent env u =
     (\<exists>i<length (LEVEL_XP_REQUIREMENTS env).
        LEVEL_XP_REQUIREMENTS env ! i \<le> currentXP u \<and> currentLevel u \<le> int i + 1)"

text \<open>A client that calls \<open>addXP\<close> with one amount after the other.\<close>

fun addXPs :: "env \<Rightarrow> uid \<Rightarrow> int list \<Rightarrow> store \<Rightarrow> store" where
  "addXPs env userId [] s = s"
| "addXPs env userId (a # as) s = addXPs env userId as (snd (addXP env userId a s))"

text \<open>Between two stores the user kept or gained experience points and, when the level was
  consistent, kept or gained levels.\<close>

definition userGrew :: "env \<Rightarrow> uid \<Rightarrow> store \<Rightarrow> store \<Rightarrow> bool" where
  "userGrew env userId s s' =
     (\<forall>u. users s userId = Some u \<longrightarrow>
        (\<exists>u'. users s' userId = Some u' \<and> currentXP u \<le> currentXP u' \<and>
           (levelConsistent env u \<longrightarrow>
              levelConsistent env u' \<and> currentLevel u \<le> currentLevel u')))"

text \<open>No reward of the constants is negative.\<close>

definition rewardsNonNegative :: "env \<Rightarrow> bool" where
  "rewardsNonNegative env =
     (0 \<le> LEVEL_UP (XP_VALUES env) \<and> 0 \<le> STREAK_7 (XP_VALUES env) \<and>
      0 \<le> STREAK_30 (XP_VALUES env) \<and> 0 \<le> STREAK_100 (XP_VALUES env))"

text \<open>No call is rejected.\<close>

definition noFaults :: "env \<Rightarrow> bool" where
  "noFaults env = (\<forall>c s. \<not> db_fails env c s)"

text \<open>What \<open>addXP\<close> leaves in place: the check-ins, the habits, the messages pushed, the
  existence of the user, and the achievements up to new level achievements.\<close>

definition xpFrame :: "uid \<Rightarrow> store \<Rightarrow> store \<Rightarrow> bool" where
  "xpFrame userId s s' =
     (checkins s' = checkins s \<and> habits s' = habits s \<and> pushes s' = pushes s \<and>
      (users s userId \<noteq> None \<longrightarrow> users s' userId \<noteq> None) \<and>
      (\<exists>extra. achievements s' = achievements s @ extra \<and> (\<forall>a\<in>set extra. a_type a = ''level'')))"

text \<open>
  The unlock rules in the words of the specification. A streak achievement is due when
  the check-in carries a streak that is a milestone and the user has no streak
  achievement with this value yet. A completion achievement is due when the number of
  completed check-ins of the user for the habit is exactly one of 10, 25, 50, 100, 250,
  500 and the user has no completion achievement for this number and habit yet.
\<close>

definition expectedStreak :: "env \<Rightarrow> uid \<Rightarrow> achievementContext \<Rightarrow> store \<Rightarrow> achievement list" where
  "expectedStreak env userId ctx s =
     (case ctx_streak ctx of
        None \<Rightarrow> []
      | Some n \<Rightarrow>
          if ctx_type ctx = ''check_in'' \<and> n \<noteq> 0 \<and> existingStreak userId n (achievements s) = [] \<and>
             n \<in> set (STREAK_MILESTONES env)
          then [streakAchievement env userId n (ctx_habitId ctx)] else [])"

definition expectedCompletion :: "env \<Rightarrow> uid \<Rightarrow> hid \<Rightarrow> store \<Rightarrow> achievement list" where
  "expectedCompletion env userId habitId s =
     (if totalCompletionsOf userId habitId (checkins s) \<in> {10, 25, 50, 100, 250, 500} \<and>
         existingCompletion userId (totalCompletionsOf userId habitId (checkins s)) habitId
           (achievements s) = []
      then [completionAchievement env userId (totalCompletionsOf userId habitId (checkins s)) habitId]
      else [])"

text \<open>The number of streak achievements of a user for one streak value.\<close>

definition streakUnlocks :: "uid \<Rightarrow> int \<Rightarrow> store \<Rightarrow> nat" where
  "streakUnlocks userId n s = length (existingStreak userId n (achievements s))"

text \<open>How often \<open>sendNotification\<close> has run: each run starts by reading the user.\<close>

definition alertsRequested :: "store \<Rightarrow> nat" where
  "alertsRequested s = length (filter (\<lambda>e. e = Db FcmUserGet) (trace s))"

text \<open>The calls of \<open>sendStreakEndAlert\<close> made so far, with their arguments.\<close>

definition isAlertCall :: "event \<Rightarrow> bool" where
  "isAlertCall e = (case e of StreakEndAlertCall u n p \<Rightarrow> True | _ \<Rightarrow> False)"

definition alertCalls :: "store \<Rightarrow> event list" where
  "alertCalls s = filter isAlertCall (trace s)"

text \<open>Two stores hold the same documents and the same pushed messages.\<close>

definition sameData :: "store \<Rightarrow> store \<Rightarrow> bool" where
  "sameData s s' =
     (users s' = users s \<and> habits s' = habits s \<and> checkins s' = checkins s \<and>
      achievements s' = achievements s \<and> notifications s' = notifications s \<and>
      pushes s' = pushes s)"

text \<open>
  The life of an error in the trace. An error is in flight from the event \<open>Thrown\<close> until
  a handler that swallows it has logged it. While it is in flight nothing happens but
  logging: the line of \<open>addXP\<close>, which logs the error and throws it again, leaves it in
  flight; the line of a handler that swallows it (\<open>handleLevelUp\<close>, \<open>checkAchievements\<close>,
  the \<open>try\<close> block of the route) ends the flight. Nothing is logged while no error is in
  flight. \<open>errorFlow p t\<close> runs over the events \<open>t\<close>, starting with or without an error in
  flight, and tells whether an error is in flight at the end; it is \<open>None\<close> when the
  events break these rules. Between two stores the events \<open>settle\<close> when they start and
  end with no error in flight, and they \<open>raise\<close> when they end with an error in flight.
\<close>

definition swallowing :: "string \<Rightarrow> bool" where
  "swallowing l = (l = ''Error handling level up:'' \<or> l = ''Error checking achievements:'' \<or>
                   l = ''Achievement error (non-fatal):'')"

fun errorFlow :: "bool \<Rightarrow> event list \<Rightarrow> bool option" where
  "errorFlow p [] = Some p"
| "errorFlow p (Thrown e # t) = (if p then None else errorFlow True t)"
| "errorFlow p (Console l # t) =
     (if \<not> p then None
      else if l = ''Error adding XP:'' then errorFlow True t
      else if swallowing l then errorFlow False t
      else None)"
| "errorFlow p (Db c # t) = (if p then None else errorFlow False t)"
| "errorFlow p (UpdateStreakCall h u d # t) = (if p then None else errorFlow False t)"
| "errorFlow p (StreakEndAlertCall u n k # t) = (if p then None else errorFlow False t)"

definition settles :: "store \<Rightarrow> store \<Rightarrow> bool" where
  "settles s s' = (\<exists>t. trace s' = trace s @ t \<and> errorFlow False t = Some False)"

definition raises :: "store \<Rightarrow> store \<Rightarrow> bool" where
  "raises s s' = (\<exists>t. trace s' = trace s @ t \<and> errorFlow False t = Some True)"

definition flows :: "store \<Rightarrow> (error + 'a) \<times> store \<Rightarrow> bool" where
  "flows s r = (case r of (Inl e, s') \<Rightarrow> raises s s' | (Inr x, s') \<Rightarrow> settles s s')"

text \<open>The completed dates and the streak of a habit as the handlers read them
  (\<open>habit.completedDates || []\<close>, \<open>habit.streak || 0\<close>).\<close>

definition datesOf :: "habit \<Rightarrow> day list" where
  "datesOf h = (case completedDates h of None \<Rightarrow> [] | Some ds \<Rightarrow> ds)"



text \<open>What the awards of a check-in leave in place: the check-ins, the existence of the
  user, and the trace so far.\<close>

definition keeps :: "uid \<Rightarrow> store \<Rightarrow> store \<Rightarrow> bool" where
  "keeps userId s s' =
     (checkins s' = checkins s \<and> (users s userId \<noteq> None \<longrightarrow> users s' userId \<noteq> None) \<and>
      (\<exists>t. trace s' = trace s @ t))"

text \<open>The assumption on \<open>updateStreak\<close>, whose source is not at hand: it leaves the same
  things in place.\<close>

definition streakServiceKeeps :: "env \<Rightarrow> bool" where
  "streakServiceKeeps env =
     (\<forall>habitId userId d s. keeps userId s (snd (updateStreak env habitId userId d s)))"

text \<open>The day of a request: the date of the body, or the day of the clock.\<close>

definition dateOf :: "env \<Rightarrow> checkInRequest \<Rightarrow> day" where
  "dateOf env req = (case rq_date req of None \<Rightarrow> today env | Some d \<Rightarrow> d)"

section \<open>Example data\<close>

text \<open>An environment in which no call is rejected, with the thresholds 0, 100 and 250, and
  stores to run the handlers on.\<close>

definition exampleEnv :: env where
  "exampleEnv =
     \<lparr>LEVEL_XP_REQUIREMENTS = [0, 100, 250], STREAK_MILESTONES = [7, 30, 50, 100],
      XP_VALUES = \<lparr>LEVEL_UP = 50, STREAK_7 = 50, STREAK_30 = 100, STREAK_100 = 500\<rparr>,
      updateStreak = (\<lambda>h u d s. (Inr \<lparr>currentStreak = Some 1, updated = True\<rparr>, s)),
      isDateValidForHabit = (\<lambda>h d. True), now = 1000, today = 20, yesterday = 19,
      db_fails = (\<lambda>c s. False)\<rparr>"

definition exampleUser :: user where
  "exampleUser = \<lparr>xp = Some 95, level = Some 1, fcmToken = Some ''token'',
                   lastActivity = None, updatedAt = None\<rparr>"

definition emptyStore :: store where
  "emptyStore = \<lparr>users = Map.empty, habits = Map.empty, checkins = [], achievements = [],
                  notifications = [], pushes = [], trace = []\<rparr>"

definition exampleStore :: store where
  "exampleStore = emptyStore\<lparr>users := [''u1'' \<mapsto> exampleUser]\<rparr>"

definition leveledStore :: store where
  "leveledStore =
     emptyStore\<lparr>users := [''u1'' \<mapsto> exampleUser\<lparr>xp := Some 105, level := Some 2\<rparr>]\<rparr>"

text \<open>A table whose first threshold is above 0, and a user at level 3 without points.\<close>

definition sparseEnv :: env where
  "sparseEnv = exampleEnv\<lparr>LEVEL_XP_REQUIREMENTS := [10, 100]\<rparr>"

definition veteranStore :: store where
  "veteranStore =
     emptyStore\<lparr>users := [''u1'' \<mapsto> exampleUser\<lparr>xp := Some 0, level := Some 3\<rparr>]\<rparr>"

definition exampleContext :: achievementContext where
  "exampleContext = \<lparr>ctx_type = ''check_in'', ctx_habitId = ''h1'', ctx_streak = Some 7\<rparr>"

definition exampleCheckin :: checkin where
  "exampleCheckin =
     \<lparr>c_habitId = ''h1'', c_userId = ''u1'', c_date = 1, completed = True,
      completionPercentage = 100, c_notes = None, photoUrl = None, mood = None,
      c_createdAt = 1\<rparr>"

definition fiftyStore :: store where
  "fiftyStore = exampleStore\<lparr>checkins := replicate 50 exampleCheckin\<rparr>"

definition exampleHabit :: habit where
  "exampleHabit =
     \<lparr>h_userId = ''u1'', name = ''Read'',
      h_frequency = \<lparr>ftype = ''daily'', days = None, dates = None\<rparr>,
      status = ''active'', archived = False, paused = False, streak = Some 0,
      longestStreak = 0, totalCompletions = 0, completedDates = Some [],
      h_updatedAt = 1, lastCheckIn = None\<rparr>"

definition habitStore :: "habit \<Rightarrow> store" where
  "habitStore h = exampleStore\<lparr>habits := [''h1'' \<mapsto> h]\<rparr>"




definition doneHabit :: habit where
  "doneHabit = exampleHabit\<lparr>streak := Some 1, completedDates := Some [20]\<rparr>"

definition exampleRequest :: checkInRequest where
  "exampleRequest =
     \<lparr>rq_uid = ''u1'', rq_habitId = ''h1'', rq_date = None, rq_completed = JUndefined,
      rq_completionPercentage = None, rq_notes = None, rq_photoUrl = None, rq_mood = None\<rparr>"

text \<open>An environment in which the notification of a level-up and the query for the
  completed check-ins are rejected, and one in which \<open>updateStreak\<close> throws.\<close>

definition failingEnv :: env where
  "failingEnv =
     exampleEnv\<lparr>db_fails := (\<lambda>c s. c = LevelNotificationAdd \<or> c = CompletionCheckinQuery)\<rparr>"

definition rejectingEnv :: env where
  "rejectingEnv = exampleEnv\<lparr>updateStreak := (\<lambda>h u d s. (Inl StreakError, s))\<rparr>"

definition declinedRequest :: checkInRequest where
  "declinedRequest = exampleRequest\<lparr>rq_completed := JBool False\<rparr>"

definition confirmedRequest :: checkInRequest where
  "confirmedRequest = exampleRequest\<lparr>rq_completed := JBool True\<rparr>"

section \<open>Experience points and levels: properties\<close>

lemma levelLoop_greatest:
  "\<exists>i<n. reqs ! i \<le> x \<Longrightarrow>
   \<exists>i<n. reqs ! i \<le> x \<and> (\<forall>j<n. reqs ! j \<le> x \<longrightarrow> j \<le> i) \<and> levelLoop reqs x n cur = int i + 1"
proof (induction n)
  case 0
  then show ?case by simp
next
  case (Suc n)
  show ?case
  proof (cases "reqs ! n \<le> x")
    case True
    then show ?thesis by (intro exI[of _ n]) auto
  next
    case False
    with Suc.prems have "\<exists>i<n. reqs ! i \<le> x" by (metis less_Suc_eq)
    from Suc.IH[OF this] obtain i where i: "i < n" "reqs ! i \<le> x" "\<forall>j<n. reqs ! j \<le> x \<longrightarrow> j \<le> i"
      "levelLoop reqs x n cur = int i + 1" by blast
    show ?thesis
      apply (intro exI[of _ i])
      using i False by (auto simp: less_Suc_eq)
  qed
qed

lemma levelLoop_default:
  "\<not> (\<exists>i<n. reqs ! i \<le> x) \<Longrightarrow> levelLoop reqs x n cur = cur"
  by (induction n) (auto simp: less_Suc_eq)

lemma addXP_get_fails:
  "db_fails env XpUserGet s \<Longrightarrow>
   addXP env userId amount s =
     (Inl (DbError XpUserGet),
      console ''Error adding XP:'' (thrown (DbError XpUserGet) (called XpUserGet s)))"
  by (simp add: Let_def)

lemma addXP_no_user:
  "\<not> db_fails env XpUserGet s \<Longrightarrow> users s userId = None \<Longrightarrow>
   addXP env userId amount s =
     (Inl UserNotFound, console ''Error adding XP:'' (thrown UserNotFound (called XpUserGet s)))"
  by (simp add: Let_def called_def)

lemma addXP_update_fails:
  "\<not> db_fails env XpUserGet s \<Longrightarrow> users s userId = Some u \<Longrightarrow>
   db_fails env XpUserUpdate (called XpUserGet s) \<Longrightarrow>
   addXP env userId amount s = (Inl (DbError XpUserUpdate),
      console ''Error adding XP:''
        (thrown (DbError XpUserUpdate) (called XpUserUpdate (called XpUserGet s))))"
  by (simp add: Let_def called_def)

lemma addXP_ok:
  "\<not> db_fails env XpUserGet s \<Longrightarrow> users s userId = Some u \<Longrightarrow>
   \<not> db_fails env XpUserUpdate (called XpUserGet s) \<Longrightarrow>
   addXP env userId amount s =
     (Inr \<lparr>r_xp = currentXP u + amount, r_level = the (level (userAfterXP env u amount)),
           levelUp = (currentLevel u < the (level (userAfterXP env u amount)))\<rparr>,
      if currentLevel u < the (level (userAfterXP env u amount))
      then handleLevelUp env userId (the (level (userAfterXP env u amount)))
             ((called XpUserUpdate (called XpUserGet s))\<lparr>users := (users s)(userId \<mapsto> userAfterXP env u amount)\<rparr>)
      else (called XpUserUpdate (called XpUserGet s))\<lparr>users := (users s)(userId \<mapsto> userAfterXP env u amount)\<rparr>)"
  by (simp add: Let_def called_def userAfterXP_def)

declare addXP.simps [simp del] handleLevelUp.simps [simp del]

lemma called_fields [simp]:
  "users (called c s) = users s" "habits (called c s) = habits s"
  "checkins (called c s) = checkins s" "achievements (called c s) = achievements s"
  "notifications (called c s) = notifications s" "pushes (called c s) = pushes s"
  "trace (called c s) = trace s @ [Db c]"
  by (simp_all add: called_def)

lemma thrown_fields [simp]:
  "users (thrown e s) = users s" "habits (thrown e s) = habits s"
  "checkins (thrown e s) = checkins s" "achievements (thrown e s) = achievements s"
  "notifications (thrown e s) = notifications s" "pushes (thrown e s) = pushes s"
  "trace (thrown e s) = trace s @ [Thrown e]"
  by (simp_all add: thrown_def)

lemma invoked_fields [simp]:
  "users (invoked e s) = users s" "habits (invoked e s) = habits s"
  "checkins (invoked e s) = checkins s" "achievements (invoked e s) = achievements s"
  "notifications (invoked e s) = notifications s" "pushes (invoked e s) = pushes s"
  "trace (invoked e s) = trace s @ [e]"
  by (simp_all add: invoked_def)

lemma console_fields [simp]:
  "users (console l s) = users s" "habits (console l s) = habits s"
  "checkins (console l s) = checkins s" "achievements (console l s) = achievements s"
  "notifications (console l s) = notifications s" "pushes (console l s) = pushes s"
  "trace (console l s) = trace s @ [Console l]"
  by (simp_all add: console_def)

lemma levelsLeft_after_levelUp:
  assumes "users s userId = Some u" and "currentLevel u < the (level (userAfterXP env u amount))"
    and "users s' = (users s)(userId \<mapsto> userAfterXP env u amount)"
  shows "levelsLeft env userId s' < levelsLeft env userId s"
  using assms levelLoop_range[of "LEVEL_XP_REQUIREMENTS env" "currentXP u + amount"
      "length (LEVEL_XP_REQUIREMENTS env)" "currentLevel u"]
  by (auto simp: levelsLeft_def currentLevel_def userAfterXP_def)

text \<open>A relation between stores that every step of addXP and handleLevelUp respects holds
  between the store before and the store after.\<close>

lemma addXP_rel:
  fixes R :: "store \<Rightarrow> store \<Rightarrow> bool" and A :: "int \<Rightarrow> bool"
  assumes refl: "\<And>s. R s s"
    and trans: "\<And>a b c. R a b \<Longrightarrow> R b c \<Longrightarrow> R a c"
    and call: "\<And>s c. R s (called c s)"
    and con: "\<And>s l. R s (console l s)"
    and fail: "\<And>s e l. R s (console l (thrown e s))"
    and us: "\<And>s u x. A x \<Longrightarrow> users s userId = Some u \<Longrightarrow>
               R s (s\<lparr>users := (users s)(userId \<mapsto> userAfterXP env u x)\<rparr>)"
    and ach: "\<And>s l. R s (s\<lparr>achievements := achievements s @ [levelAchievement env userId l]\<rparr>)"
    and nt: "\<And>s l. R s (s\<lparr>notifications := notifications s @ [levelNotification env userId l]\<rparr>)"
    and bonus: "A (LEVEL_UP (XP_VALUES env))"
  shows "A amount \<Longrightarrow> R s (snd (addXP env userId amount s))"
proof (induction "levelsLeft env userId s" arbitrary: s amount rule: less_induct)
  case less
  show ?case
  proof (cases "db_fails env XpUserGet s")
    case True
    then show ?thesis
      by (simp add: addXP_get_fails) (blast intro: trans call fail)
  next
    case get: False
    show ?thesis
    proof (cases "users s userId")
      case None
      with get show ?thesis
        by (simp add: addXP_no_user) (blast intro: trans call fail)
    next
      case (Some u)
      show ?thesis
      proof (cases "db_fails env XpUserUpdate (called XpUserGet s)")
        case True
        with get Some show ?thesis
          by (simp add: addXP_update_fails) (blast intro: trans call fail)
      next
        case upd: False
        let ?c = "called XpUserUpdate (called XpUserGet s)"
        let ?s3 = "?c\<lparr>users := (users s)(userId \<mapsto> userAfterXP env u amount)\<rparr>"
        let ?L = "the (level (userAfterXP env u amount))"
        have "users ?c userId = Some u" using Some by simp
        from us[OF less.prems this] have "R ?c ?s3" by simp
        then have s3: "R s ?s3" by (blast intro: trans call)
        show ?thesis
        proof (cases "currentLevel u < ?L")
          case False
          with get Some upd s3 show ?thesis by (simp add: addXP_ok)
        next
          case True
          let ?s1 = "called LevelAchievementAdd ?s3"
          let ?s4 = "?s1\<lparr>achievements := achievements ?s1 @ [levelAchievement env userId ?L]\<rparr>"
          let ?s5 = "called LevelNotificationAdd ?s4"
          let ?s6 = "?s5\<lparr>notifications := notifications ?s5 @ [levelNotification env userId ?L]\<rparr>"
          let ?l = "''Error handling level up:''"
          have f1: "R ?s3 (console ?l (thrown (DbError LevelAchievementAdd) ?s1))"
            by (blast intro: trans call fail)
          have r4: "R ?s3 ?s4" using trans[OF call ach] .
          have r5: "R ?s3 ?s5" using trans[OF r4 call] .
          have f2: "R ?s3 (console ?l (thrown (DbError LevelNotificationAdd) ?s5))"
            using trans[OF r5 fail] .
          have r6: "R ?s3 ?s6" using trans[OF r5 nt] .
          have "levelsLeft env userId ?s6 < levelsLeft env userId s"
            by (rule levelsLeft_after_levelUp[OF Some True]) simp
          then have "R ?s6 (snd (addXP env userId (LEVEL_UP (XP_VALUES env)) ?s6))"
            using less.hyps bonus by blast
          with r6 have f3: "R ?s3 (snd (addXP env userId (LEVEL_UP (XP_VALUES env)) ?s6))"
            by (blast intro: trans)
          then have f4: "R ?s3 (console ?l (snd (addXP env userId (LEVEL_UP (XP_VALUES env)) ?s6)))"
            by (blast intro: trans con)
          have "R ?s3 (handleLevelUp env userId ?L ?s3)"
            using f1 f2 f3 f4
            by (auto simp: handleLevelUp.simps Let_def split: prod.splits sum.splits)
          with s3 have "R s (handleLevelUp env userId ?L ?s3)" by (blast intro: trans)
          with get Some upd True show ?thesis by (simp add: addXP_ok)
        qed
      qed
    qed
  qed
qed

text \<open>
  C4 as stated fails in its default: when the sum reaches no threshold the level is not
  1 but the current level of the user. With the thresholds 10 and 100, a user at level 3
  without points who is given 5 points is returned level 3; with the thresholds 0, 100,
  250, a user with 105 points at level 2 who is given -200 points is returned level 2.
\<close>

theorem addXP_default_level_counterexample:
  "LEVEL_XP_REQUIREMENTS sparseEnv = [10, 100] \<and>
   xp (the (users veteranStore ''u1'')) = Some 0 \<and>
   level (the (users veteranStore ''u1'')) = Some 3 \<and>
   fst (addXP sparseEnv ''u1'' 5 veteranStore) =
     Inr \<lparr>r_xp = 5, r_level = 3, levelUp = False\<rparr> \<and>
   level (the (users (snd (addXP sparseEnv ''u1'' 5 veteranStore)) ''u1'')) = Some 3 \<and>
   fst (addXP exampleEnv ''u1'' (- 200) leveledStore) =
     Inr \<lparr>r_xp = - 95, r_level = 2, levelUp = False\<rparr>"
  by (simp add: addXP.simps Let_def sparseEnv_def exampleEnv_def veteranStore_def
      leveledStore_def emptyStore_def exampleUser_def currentXP_def currentLevel_def called_def)

text \<open>
  C4, amended. For a user whose document can be read and written, \<open>addXP\<close> returns the
  sum of the current experience points and the amount, the level \<open>i + 1\<close> for the
  greatest index \<open>i\<close> of the table whose threshold the sum reaches, and \<open>levelUp\<close> exactly
  when that level is above the current one. When the sum reaches no threshold the level
  stays the current level, which is 1 for a user without a level. With the thresholds 0,
  100, 250, 95 points and level 1, adding 10 returns 105 points, level 2 and a level-up.
\<close>

theorem addXP_returns_table_level:
  assumes "\<not> db_fails env XpUserGet s" and "users s userId = Some u"
    and "\<not> db_fails env XpUserUpdate (called XpUserGet s)"
  shows "(\<exists>L. fst (addXP env userId amount s) =
            Inr \<lparr>r_xp = currentXP u + amount, r_level = L, levelUp = (currentLevel u < L)\<rparr>
       \<and> ((\<exists>i<length (LEVEL_XP_REQUIREMENTS env).
              LEVEL_XP_REQUIREMENTS env ! i \<le> currentXP u + amount) \<longrightarrow>
            (\<exists>i<length (LEVEL_XP_REQUIREMENTS env).
              LEVEL_XP_REQUIREMENTS env ! i \<le> currentXP u + amount \<and>
              (\<forall>j<length (LEVEL_XP_REQUIREMENTS env).
                 LEVEL_XP_REQUIREMENTS env ! j \<le> currentXP u + amount \<longrightarrow> j \<le> i) \<and>
              L = int i + 1))
       \<and> (\<not> (\<exists>i<length (LEVEL_XP_REQUIREMENTS env).
              LEVEL_XP_REQUIREMENTS env ! i \<le> currentXP u + amount) \<longrightarrow> L = currentLevel u))
     \<and> (level u = None \<longrightarrow> currentLevel u = 1)
     \<and> (LEVEL_XP_REQUIREMENTS env = [0, 100, 250] \<and> xp u = Some 95 \<and> level u = Some 1 \<and>
          amount = 10 \<longrightarrow>
          fst (addXP env userId amount s) = Inr \<lparr>r_xp = 105, r_level = 2, levelUp = True\<rparr>)"
proof -
  let ?reqs = "LEVEL_XP_REQUIREMENTS env"
  let ?L = "levelLoop ?reqs (currentXP u + amount) (length ?reqs) (currentLevel u)"
  have ret: "fst (addXP env userId amount s) =
      Inr \<lparr>r_xp = currentXP u + amount, r_level = ?L, levelUp = (currentLevel u < ?L)\<rparr>"
    using assms by (simp add: addXP_ok userAfterXP_def)
  have found: "(\<exists>i<length ?reqs. ?reqs ! i \<le> currentXP u + amount) \<longrightarrow>
      (\<exists>i<length ?reqs. ?reqs ! i \<le> currentXP u + amount \<and>
         (\<forall>j<length ?reqs. ?reqs ! j \<le> currentXP u + amount \<longrightarrow> j \<le> i) \<and> ?L = int i + 1)"
    using levelLoop_greatest[of "length ?reqs" ?reqs "currentXP u + amount" "currentLevel u"]
    by blast
  have dflt: "\<not> (\<exists>i<length ?reqs. ?reqs ! i \<le> currentXP u + amount) \<longrightarrow> ?L = currentLevel u"
    using levelLoop_default[of "length ?reqs" ?reqs "currentXP u + amount" "currentLevel u"]
    by blast
  have one: "level u = None \<longrightarrow> currentLevel u = 1"
    by (simp add: currentLevel_def)
  have scen: "?reqs = [0, 100, 250] \<and> xp u = Some 95 \<and> level u = Some 1 \<and> amount = 10 \<longrightarrow>
      fst (addXP env userId amount s) = Inr \<lparr>r_xp = 105, r_level = 2, levelUp = True\<rparr>"
  proof (intro impI, elim conjE)
    assume h: "?reqs = [0, 100, 250]" "xp u = Some 95" "level u = Some 1" "amount = 10"
    have "levelLoop [0, 100, 250] 105 (Suc (Suc (Suc 0))) 1 = 2" by simp
    with ret h show "fst (addXP env userId amount s) =
        Inr \<lparr>r_xp = 105, r_level = 2, levelUp = True\<rparr>"
      by (simp add: currentXP_def currentLevel_def)
  qed
  from ret found dflt have "\<exists>L. fst (addXP env userId amount s) =
            Inr \<lparr>r_xp = currentXP u + amount, r_level = L, levelUp = (currentLevel u < L)\<rparr>
       \<and> ((\<exists>i<length ?reqs. ?reqs ! i \<le> currentXP u + amount) \<longrightarrow>
            (\<exists>i<length ?reqs. ?reqs ! i \<le> currentXP u + amount \<and>
              (\<forall>j<length ?reqs. ?reqs ! j \<le> currentXP u + amount \<longrightarrow> j \<le> i) \<and>
              L = int i + 1))
       \<and> (\<not> (\<exists>i<length ?reqs. ?reqs ! i \<le> currentXP u + amount) \<longrightarrow> L = currentLevel u)"
    by (intro exI[of _ ?L] conjI)
  with one scen show ?thesis by (intro conjI)
qed

theorem addXP_returns_table_level_witness:
  "\<not> db_fails exampleEnv XpUserGet exampleStore \<and> users exampleStore ''u1'' = Some exampleUser \<and>
   \<not> db_fails exampleEnv XpUserUpdate (called XpUserGet exampleStore) \<and>
   fst (addXP exampleEnv ''u1'' 10 exampleStore) = Inr \<lparr>r_xp = 105, r_level = 2, levelUp = True\<rparr>"
proof -
  have a: "\<not> db_fails exampleEnv XpUserGet exampleStore" by (simp add: exampleEnv_def)
  have b: "users exampleStore ''u1'' = Some exampleUser" by (simp add: exampleStore_def)
  have c: "\<not> db_fails exampleEnv XpUserUpdate (called XpUserGet exampleStore)"
    by (simp add: exampleEnv_def)
  from addXP_returns_table_level[OF a b c, of 10]
  have "fst (addXP exampleEnv ''u1'' 10 exampleStore) =
          Inr \<lparr>r_xp = 105, r_level = 2, levelUp = True\<rparr>"
    by (simp add: exampleEnv_def exampleUser_def)
  with a b c show ?thesis by simp
qed

lemma addXP_handleLevelUp_total: "All addXP_handleLevelUp_dom"
  apply (relation "measure (\<lambda>x. case x of
     Inl (env, userId, amount, s) \<Rightarrow> 2 * levelsLeft env userId s + 1
   | Inr (env, userId, newLevel, s) \<Rightarrow> 2 * levelsLeft env userId s + 2)")
    apply simp
  subgoal for env userId amount s x x2 xa xb xc xd
    using levelUp_decreases[where s=s and userId=userId and u=x2
        and reqs="LEVEL_XP_REQUIREMENTS env" and x=xa and env=env and s'=xc
        and a="Some xa" and b="Some (now env)"]
    by (simp add: called_def)
  subgoal
    by (simp add: called_def levelsLeft_def)
  done

lemma levelUps_called [simp]:
  "levelUps (called c s) = (if c = LevelAchievementAdd then Suc (levelUps s) else levelUps s)"
  by (simp add: levelUps_def)

lemma levelUps_console [simp]: "levelUps (console l s) = levelUps s"
  by (simp add: levelUps_def)

lemma levelUps_thrown [simp]: "levelUps (thrown e s) = levelUps s"
  by (simp add: levelUps_def)

lemma levelUps_update [simp]:
  "levelUps (s\<lparr>users := a\<rparr>) = levelUps s"
  "levelUps (s\<lparr>achievements := b\<rparr>) = levelUps s"
  "levelUps (s\<lparr>notifications := c\<rparr>) = levelUps s"
  by (simp_all add: levelUps_def)

lemma addXP_levelUps:
  "levelUps (snd (addXP env userId amount s)) \<le> levelUps s + levelsLeft env userId s"
proof (induction "levelsLeft env userId s" arbitrary: s amount rule: less_induct)
  case less
  show ?case
  proof (cases "db_fails env XpUserGet s")
    case True
    then show ?thesis by (simp add: addXP_get_fails)
  next
    case get: False
    show ?thesis
    proof (cases "users s userId")
      case None
      with get show ?thesis by (simp add: addXP_no_user)
    next
      case (Some u)
      show ?thesis
      proof (cases "db_fails env XpUserUpdate (called XpUserGet s)")
        case True
        with get Some show ?thesis by (simp add: addXP_update_fails)
      next
        case upd: False
        let ?s3 = "(called XpUserUpdate (called XpUserGet s))\<lparr>users := (users s)(userId \<mapsto> userAfterXP env u amount)\<rparr>"
        let ?L = "the (level (userAfterXP env u amount))"
        show ?thesis
        proof (cases "currentLevel u < ?L")
          case False
          with get Some upd show ?thesis by (simp add: addXP_ok)
        next
          case True
          let ?s1 = "called LevelAchievementAdd ?s3"
          let ?s4 = "?s1\<lparr>achievements := achievements ?s1 @ [levelAchievement env userId ?L]\<rparr>"
          let ?s5 = "called LevelNotificationAdd ?s4"
          let ?s6 = "?s5\<lparr>notifications := notifications ?s5 @ [levelNotification env userId ?L]\<rparr>"
          have lt: "levelsLeft env userId ?s6 < levelsLeft env userId s"
            by (rule levelsLeft_after_levelUp[OF Some True]) simp
          from less.hyps[OF lt, of "LEVEL_UP (XP_VALUES env)"]
          have "levelUps (snd (addXP env userId (LEVEL_UP (XP_VALUES env)) ?s6))
                  \<le> Suc (levelUps s) + levelsLeft env userId ?s6"
            by simp
          with lt have "levelUps (snd (addXP env userId (LEVEL_UP (XP_VALUES env)) ?s6))
                  \<le> levelUps s + levelsLeft env userId s" by linarith
          moreover have "0 < levelsLeft env userId s" using lt by linarith
          ultimately have "levelUps (handleLevelUp env userId ?L ?s3) \<le> levelUps s + levelsLeft env userId s"
            by (auto simp: handleLevelUp.simps Let_def split: prod.splits sum.splits)
          with get Some upd True show ?thesis by (simp add: addXP_ok)
        qed
      qed
    qed
  qed
qed


lemma handleLevelUp_levelUps:
  "levelUps (handleLevelUp env userId newLevel s) \<le> Suc (levelUps s + levelsLeft env userId s)"
proof -
  let ?s1 = "called LevelAchievementAdd s"
  let ?s4 = "?s1\<lparr>achievements := achievements ?s1 @ [levelAchievement env userId newLevel]\<rparr>"
  let ?s5 = "called LevelNotificationAdd ?s4"
  let ?s6 = "?s5\<lparr>notifications := notifications ?s5 @ [levelNotification env userId newLevel]\<rparr>"
  have "levelsLeft env userId ?s6 = levelsLeft env userId s" by (simp add: levelsLeft_def)
  with addXP_levelUps[of env userId "LEVEL_UP (XP_VALUES env)" ?s6]
  have "levelUps (snd (addXP env userId (LEVEL_UP (XP_VALUES env)) ?s6))
          \<le> Suc (levelUps s + levelsLeft env userId s)" by simp
  then show ?thesis
    by (auto simp: handleLevelUp.simps Let_def split: prod.splits sum.splits)
qed

text \<open>
  C9. The recursion between \<open>addXP\<close> and \<open>handleLevelUp\<close> terminates for every
  environment, user, amount and store: both calls are in the domain of the recursion.
  One call of \<open>addXP\<close> runs \<open>handleLevelUp\<close> at most as often as the table has levels
  above the current level of the user, and one call of \<open>handleLevelUp\<close> leads to at most
  that many further runs.
\<close>

theorem levelUp_recursion_terminates:
  "addXP_handleLevelUp_dom (Inl (env, userId, amount, s)) \<and>
   addXP_handleLevelUp_dom (Inr (env, userId, newLevel, s)) \<and>
   levelUps (snd (addXP env userId amount s)) \<le> levelUps s + levelsLeft env userId s \<and>
   levelUps (handleLevelUp env userId newLevel s) \<le> levelUps s + 1 + levelsLeft env userId s"
  using addXP_handleLevelUp_total addXP_levelUps[of env userId amount s]
    handleLevelUp_levelUps[of env userId newLevel s]
  by simp

lemma userGrew_refl: "userGrew env userId s s"
  by (simp add: userGrew_def)

lemma userGrew_trans:
  assumes ab: "userGrew env userId a b" and bc: "userGrew env userId b c"
  shows "userGrew env userId a c"
  unfolding userGrew_def
proof (intro allI impI)
  fix u assume "users a userId = Some u"
  with ab obtain v where v: "users b userId = Some v" "currentXP u \<le> currentXP v"
    "levelConsistent env u \<longrightarrow> levelConsistent env v \<and> currentLevel u \<le> currentLevel v"
    unfolding userGrew_def by blast
  from bc v(1) obtain w where w: "users c userId = Some w" "currentXP v \<le> currentXP w"
    "levelConsistent env v \<longrightarrow> levelConsistent env w \<and> currentLevel v \<le> currentLevel w"
    unfolding userGrew_def by blast
  from v w have "currentXP u \<le> currentXP w" by linarith
  moreover from v w have "levelConsistent env u \<longrightarrow>
      levelConsistent env w \<and> currentLevel u \<le> currentLevel w" by auto
  ultimately show "\<exists>u'. users c userId = Some u' \<and> currentXP u \<le> currentXP u' \<and>
      (levelConsistent env u \<longrightarrow> levelConsistent env u' \<and> currentLevel u \<le> currentLevel u')"
    using w(1) by blast
qed

lemma userAfterXP_grows:
  assumes "0 \<le> x"
  shows "currentXP u \<le> currentXP (userAfterXP env u x) \<and>
         (levelConsistent env u \<longrightarrow>
            levelConsistent env (userAfterXP env u x) \<and>
            currentLevel u \<le> currentLevel (userAfterXP env u x))"
proof -
  let ?reqs = "LEVEL_XP_REQUIREMENTS env"
  let ?L = "levelLoop ?reqs (currentXP u + x) (length ?reqs) (currentLevel u)"
  have xp: "currentXP (userAfterXP env u x) = currentXP u + x"
    by (simp add: userAfterXP_def currentXP_def)
  have lv: "currentLevel (userAfterXP env u x) = (if ?L = 0 then 1 else ?L)"
    by (simp add: userAfterXP_def currentLevel_def)
  have "levelConsistent env (userAfterXP env u x) \<and> currentLevel u \<le> currentLevel (userAfterXP env u x)"
    if "levelConsistent env u"
  proof -
    from that obtain i where i: "i < length ?reqs" "?reqs ! i \<le> currentXP u" "currentLevel u \<le> int i + 1"
      unfolding levelConsistent_def by blast
    from i(2) assms have ix: "?reqs ! i \<le> currentXP u + x" by linarith
    with i(1) have "\<exists>i<length ?reqs. ?reqs ! i \<le> currentXP u + x" by blast
    from levelLoop_greatest[OF this, of "currentLevel u"]
    obtain j where j: "j < length ?reqs" "?reqs ! j \<le> currentXP u + x"
      "\<forall>k<length ?reqs. ?reqs ! k \<le> currentXP u + x \<longrightarrow> k \<le> j" "?L = int j + 1" by blast
    from i(1) ix j(3) have "i \<le> j" by blast
    with i(3) j(4) have le: "currentLevel u \<le> ?L" and pos: "?L \<noteq> 0" by linarith+
    have "levelConsistent env (userAfterXP env u x)"
      unfolding levelConsistent_def xp lv using j(1,2,4) pos by auto
    with le pos show ?thesis by (simp add: lv)
  qed
  with xp assms show ?thesis by simp
qed

lemma addXP_userGrew:
  assumes "0 \<le> amount" and "0 \<le> LEVEL_UP (XP_VALUES env)"
  shows "userGrew env userId s (snd (addXP env userId amount s))"
proof (rule addXP_rel[where R="userGrew env userId" and A="\<lambda>x. 0 \<le> x"])
  show "userGrew env userId s s" for s by (rule userGrew_refl)
  show "userGrew env userId a c" if "userGrew env userId a b" "userGrew env userId b c" for a b c
    using that by (rule userGrew_trans)
  show "userGrew env userId s (called c s)" for s c by (simp add: userGrew_def)
  show "userGrew env userId s (console l s)" for s l by (simp add: userGrew_def)
  show "userGrew env userId s (console l (thrown e s))" for s e l by (simp add: userGrew_def)
  show "userGrew env userId s (s\<lparr>users := (users s)(userId \<mapsto> userAfterXP env u x)\<rparr>)"
    if "0 \<le> x" "users s userId = Some u" for s u x
    using that userAfterXP_grows[of x u env] by (simp add: userGrew_def)
  show "userGrew env userId s (s\<lparr>achievements := achievements s @ [levelAchievement env userId l]\<rparr>)" for s l
    by (simp add: userGrew_def)
  show "userGrew env userId s (s\<lparr>notifications := notifications s @ [levelNotification env userId l]\<rparr>)" for s l
    by (simp add: userGrew_def)
  show "0 \<le> LEVEL_UP (XP_VALUES env)" by fact
  show "0 \<le> amount" by fact
qed

lemma addXPs_userGrew:
  assumes "\<forall>a\<in>set amounts. 0 \<le> a" and "0 \<le> LEVEL_UP (XP_VALUES env)"
  shows "userGrew env userId s (addXPs env userId amounts s)"
  using assms(1)
proof (induction amounts arbitrary: s)
  case Nil
  then show ?case by (simp add: userGrew_def)
next
  case (Cons a as)
  then have 1: "userGrew env userId s (snd (addXP env userId a s))"
    using addXP_userGrew assms(2) by simp
  from Cons have 2: "userGrew env userId (snd (addXP env userId a s)) (addXPs env userId as (snd (addXP env userId a s)))"
    by simp
  from userGrew_trans[OF 1 2] show ?case by simp
qed

text \<open>
  C7 as stated fails: \<open>addXP\<close> neither rejects nor clamps a negative amount. For a user
  with 105 points and level 2 and the thresholds 0, 100, 250, \<open>addXP\<close> with the amount
  -10 succeeds and leaves the user with 95 points and level 1.
\<close>

theorem addXP_negative_amount_counterexample:
  "fst (addXP exampleEnv ''u1'' (- 10) leveledStore) =
     Inr \<lparr>r_xp = 95, r_level = 1, levelUp = False\<rparr> \<and>
   currentXP (the (users (snd (addXP exampleEnv ''u1'' (- 10) leveledStore)) ''u1''))
     < currentXP (the (users leveledStore ''u1'')) \<and>
   currentLevel (the (users (snd (addXP exampleEnv ''u1'' (- 10) leveledStore)) ''u1''))
     < currentLevel (the (users leveledStore ''u1''))"
  by (simp add: addXP.simps Let_def exampleEnv_def leveledStore_def emptyStore_def
      exampleUser_def currentXP_def currentLevel_def called_def)

text \<open>
  C7, amended. \<open>addXP\<close> adds the amount as it is given. Across every sequence of
  \<open>addXP\<close> calls with non-negative amounts, with a non-negative level-up bonus, the
  experience points of the user do not decrease, and the level does not decrease when
  the stored level was consistent with the table; the user document stays in place.
\<close>

theorem addXP_sequence_monotone:
  assumes "\<forall>a\<in>set amounts. 0 \<le> a" and "0 \<le> LEVEL_UP (XP_VALUES env)"
    and "users s userId = Some u"
  shows "\<exists>u'. users (addXPs env userId amounts s) userId = Some u' \<and>
           currentXP u \<le> currentXP u' \<and>
           (levelConsistent env u \<longrightarrow> levelConsistent env u' \<and> currentLevel u \<le> currentLevel u')"
  using addXPs_userGrew[OF assms(1,2), of userId s] assms(3) unfolding userGrew_def by blast

theorem addXP_sequence_monotone_witness:
  "(0::int) \<le> 10 \<and> (0::int) \<le> 200 \<and> 0 \<le> LEVEL_UP (XP_VALUES exampleEnv) \<and>
   users exampleStore ''u1'' = Some exampleUser \<and>
   users (addXPs exampleEnv ''u1'' [10, 200] exampleStore) ''u1'' =
     Some (exampleUser\<lparr>xp := Some 405, level := Some 3, updatedAt := Some 1000\<rparr>) \<and>
   (\<exists>u'. users (addXPs exampleEnv ''u1'' [10, 200] exampleStore) ''u1'' = Some u' \<and>
      currentXP exampleUser \<le> currentXP u' \<and> currentLevel exampleUser \<le> currentLevel u')"
proof -
  have a: "\<forall>a\<in>set [10, 200]. (0::int) \<le> a" by simp
  have b: "0 \<le> LEVEL_UP (XP_VALUES exampleEnv)" by (simp add: exampleEnv_def)
  have c: "users exampleStore ''u1'' = Some exampleUser" by (simp add: exampleStore_def)
  have d: "levelConsistent exampleEnv exampleUser"
    unfolding levelConsistent_def
    by (intro exI[of _ 0]) (simp add: exampleEnv_def exampleUser_def currentXP_def currentLevel_def)
  have e: "users (addXPs exampleEnv ''u1'' [10, 200] exampleStore) ''u1'' =
      Some (exampleUser\<lparr>xp := Some 405, level := Some 3, updatedAt := Some 1000\<rparr>)"
    by (simp add: addXP.simps handleLevelUp.simps Let_def exampleEnv_def exampleStore_def
        emptyStore_def exampleUser_def currentXP_def currentLevel_def called_def numeral_3_eq_3)
  from addXP_sequence_monotone[OF a b c] d
  have "\<exists>u'. users (addXPs exampleEnv ''u1'' [10, 200] exampleStore) ''u1'' = Some u' \<and>
      currentXP exampleUser \<le> currentXP u' \<and> currentLevel exampleUser \<le> currentLevel u'"
    by blast
  with b c e show ?thesis by simp
qed

section \<open>Achievements: properties\<close>

lemma xpFrame_refl: "xpFrame userId s s"
  by (simp add: xpFrame_def)

lemma xpFrame_trans:
  assumes "xpFrame userId a b" and "xpFrame userId b c"
  shows "xpFrame userId a c"
proof -
  from assms(1) obtain e1 where e1: "achievements b = achievements a @ e1" "\<forall>x\<in>set e1. a_type x = ''level''"
    unfolding xpFrame_def by blast
  from assms(2) obtain e2 where e2: "achievements c = achievements b @ e2" "\<forall>x\<in>set e2. a_type x = ''level''"
    unfolding xpFrame_def by blast
  have "achievements c = achievements a @ (e1 @ e2) \<and> (\<forall>x\<in>set (e1 @ e2). a_type x = ''level'')"
    using e1 e2 by auto
  then have "\<exists>extra. achievements c = achievements a @ extra \<and> (\<forall>x\<in>set extra. a_type x = ''level'')"
    by blast
  with assms show ?thesis unfolding xpFrame_def by simp
qed

lemma levelAchievement_type [simp]: "a_type (levelAchievement env userId l) = ''level''"
  by (simp add: levelAchievement_def createAchievementData_def)

lemma addXP_xpFrame: "xpFrame userId s (snd (addXP env userId amount s))"
proof (rule addXP_rel[where R="xpFrame userId" and A="\<lambda>x. True"])
  show "xpFrame userId s s" for s by (rule xpFrame_refl)
  show "xpFrame userId a c" if "xpFrame userId a b" "xpFrame userId b c" for a b c
    using that by (rule xpFrame_trans)
qed (simp_all add: xpFrame_def)

lemma saveAchievements_frame:
  "checkins (snd (saveAchievements env userId as s)) = checkins s \<and>
   (users s userId \<noteq> None \<longrightarrow> users (snd (saveAchievements env userId as s)) userId \<noteq> None) \<and>
   (\<exists>extra. achievements (snd (saveAchievements env userId as s)) = achievements s @ extra \<and>
      length (filter P extra) \<le> length (filter P as) + length (filter (\<lambda>a. P a \<and> a_type a = ''level'') extra))"
proof (induction as arbitrary: s)
  case Nil
  then show ?case by simp
next
  case (Cons a as)
  let ?s1 = "called AchievementAdd s"
  let ?s2 = "?s1\<lparr>achievements := achievements ?s1 @ [a]\<rparr>"
  let ?s3 = "called AchievementNotificationAdd ?s2"
  let ?s4 = "?s3\<lparr>notifications := notifications ?s3 @
                [createNotificationData (now env) userId ''achievement'' (title a) (description a)
                   (Some \<lparr>achievementId = Some (length (achievements ?s1)), d_level = None\<rparr>)]\<rparr>"
  let ?r = "addXP env userId (xpReward a) ?s4"
  show ?case
  proof (cases "db_fails env AchievementAdd s")
    case True
    then show ?thesis by (simp add: Let_def)
  next
    case f1: False
    show ?thesis
    proof (cases "db_fails env AchievementNotificationAdd ?s2")
      case True
      with f1 show ?thesis by (simp add: Let_def)
    next
      case f2: False
      from addXP_xpFrame[of userId ?s4 env "xpReward a"]
      obtain e1 where fr: "checkins (snd ?r) = checkins s"
        "users s userId \<noteq> None \<longrightarrow> users (snd ?r) userId \<noteq> None"
        "achievements (snd ?r) = (achievements s @ [a]) @ e1" "\<forall>x\<in>set e1. a_type x = ''level''"
        unfolding xpFrame_def by auto
      have e1P: "length (filter P e1) = length (filter (\<lambda>a. P a \<and> a_type a = ''level'') e1)"
        using fr(4) by (intro arg_cong[where f=length] filter_cong) auto
      show ?thesis
      proof (cases "fst ?r")
        case (Inl e)
        then have "saveAchievements env userId (a # as) s = (Inl e, snd ?r)"
          using f1 f2 by (cases ?r) (simp add: Let_def)
        with fr e1P show ?thesis by auto
      next
        case (Inr x)
        then have eq: "saveAchievements env userId (a # as) s = saveAchievements env userId as (snd ?r)"
          using f1 f2 by (cases ?r) (simp add: Let_def)
        from Cons.IH[of "snd ?r"] obtain e2 where
          ih: "checkins (snd (saveAchievements env userId as (snd ?r))) = checkins (snd ?r)"
            "users (snd ?r) userId \<noteq> None \<longrightarrow> users (snd (saveAchievements env userId as (snd ?r))) userId \<noteq> None"
            "achievements (snd (saveAchievements env userId as (snd ?r))) = achievements (snd ?r) @ e2"
            "length (filter P e2) \<le> length (filter P as) + length (filter (\<lambda>a. P a \<and> a_type a = ''level'') e2)"
          by blast
        let ?f = "snd (saveAchievements env userId as (snd ?r))"
        have A: "achievements ?f = achievements s @ ([a] @ e1 @ e2)"
          using ih(3) fr(3) by simp
        have B: "length (filter P ([a] @ e1 @ e2)) \<le> length (filter P (a # as)) +
            length (filter (\<lambda>a. P a \<and> a_type a = ''level'') ([a] @ e1 @ e2))"
          using ih(4) e1P by auto
        have C: "checkins ?f = checkins s" using ih(1) fr(1) by simp
        have D: "users s userId \<noteq> None \<longrightarrow> users ?f userId \<noteq> None" using ih(2) fr(2) by blast
        from A B have "\<exists>extra. achievements ?f = achievements s @ extra \<and>
            length (filter P extra) \<le> length (filter P (a # as)) +
              length (filter (\<lambda>a. P a \<and> a_type a = ''level'') extra)"
          by (intro exI[of _ "[a] @ e1 @ e2"] conjI)
        with C D show ?thesis unfolding eq by (intro conjI)
      qed
    qed
  qed
qed

lemma checkStreakAchievements_ok:
  assumes "noFaults env"
  shows "checkStreakAchievements env userId n habitId s =
     (Inr (if existingStreak userId n (achievements s) = [] \<and> n \<in> set (STREAK_MILESTONES env)
           then [streakAchievement env userId n habitId] else []),
      called StreakAchievementQuery s)"
  using assms by (simp add: checkStreakAchievements_def noFaults_def Let_def)

lemma completionLoop_ok:
  assumes "noFaults env"
  shows "fst (completionLoop env userId habitId cnt ms acc s) =
           Inr (acc @ map (\<lambda>m. completionAchievement env userId m habitId)
                  (filter (\<lambda>m. cnt = m \<and> existingCompletion userId m habitId (achievements s) = []) ms)) \<and>
         achievements (snd (completionLoop env userId habitId cnt ms acc s)) = achievements s \<and>
         checkins (snd (completionLoop env userId habitId cnt ms acc s)) = checkins s \<and>
         users (snd (completionLoop env userId habitId cnt ms acc s)) = users s"
  using assms
  by (induction ms arbitrary: acc s) (auto simp: noFaults_def Let_def)

lemma checkCompletionAchievements_ok:
  assumes "noFaults env"
  shows "fst (checkCompletionAchievements env userId habitId s) = Inr (expectedCompletion env userId habitId s) \<and>
         achievements (snd (checkCompletionAchievements env userId habitId s)) = achievements s \<and>
         checkins (snd (checkCompletionAchievements env userId habitId s)) = checkins s \<and>
         users (snd (checkCompletionAchievements env userId habitId s)) = users s"
proof -
  have nf: "\<not> db_fails env CompletionCheckinQuery s" using assms by (simp add: noFaults_def)
  let ?s1 = "called CompletionCheckinQuery s"
  let ?cnt = "totalCompletionsOf userId habitId (checkins s)"
  have eq: "checkCompletionAchievements env userId habitId s =
      completionLoop env userId habitId ?cnt milestones [] ?s1"
    using nf by (simp add: checkCompletionAchievements_def Let_def)
  have "map (\<lambda>m. completionAchievement env userId m habitId)
          (filter (\<lambda>m. ?cnt = m \<and> existingCompletion userId m habitId (achievements s) = []) milestones)
        = expectedCompletion env userId habitId s"
    by (auto simp: expectedCompletion_def milestones_def)
  with completionLoop_ok[OF assms, of userId habitId ?cnt milestones "[]" ?s1]
  show ?thesis unfolding eq by simp
qed

lemma saveAchievements_grows:
  "\<exists>extra. achievements (snd (saveAchievements env userId as s)) = achievements s @ extra"
  using saveAchievements_frame[of env userId as s "\<lambda>a. True"] by blast

lemma saveAchievements_head:
  assumes "noFaults env"
  shows "\<exists>extra. achievements (snd (saveAchievements env userId (a # as) s)) = achievements s @ a # extra"
proof -
  let ?s1 = "called AchievementAdd s"
  let ?s2 = "?s1\<lparr>achievements := achievements ?s1 @ [a]\<rparr>"
  let ?s3 = "called AchievementNotificationAdd ?s2"
  let ?s4 = "?s3\<lparr>notifications := notifications ?s3 @
                [createNotificationData (now env) userId ''achievement'' (title a) (description a)
                   (Some \<lparr>achievementId = Some (length (achievements ?s1)), d_level = None\<rparr>)]\<rparr>"
  let ?r = "addXP env userId (xpReward a) ?s4"
  have f: "\<not> db_fails env AchievementAdd s" "\<not> db_fails env AchievementNotificationAdd ?s2"
    using assms by (simp_all add: noFaults_def)
  from addXP_xpFrame[of userId ?s4 env "xpReward a"]
  obtain e1 where e1: "achievements (snd ?r) = achievements s @ a # e1"
    unfolding xpFrame_def by auto
  show ?thesis
  proof (cases "fst ?r")
    case (Inl e)
    then have "saveAchievements env userId (a # as) s = (Inl e, snd ?r)"
      using f by (cases ?r) (simp add: Let_def)
    with e1 show ?thesis by simp
  next
    case (Inr x)
    then have eq: "saveAchievements env userId (a # as) s = saveAchievements env userId as (snd ?r)"
      using f by (cases ?r) (simp add: Let_def)
    from saveAchievements_grows[of env userId as "snd ?r"] obtain e2 where
      "achievements (snd (saveAchievements env userId as (snd ?r))) = achievements (snd ?r) @ e2"
      by blast
    with e1 have "achievements (snd (saveAchievements env userId as (snd ?r))) = achievements s @ a # (e1 @ e2)"
      by simp
    then show ?thesis unfolding eq by blast
  qed
qed

lemma addXP_succeeds:
  assumes "noFaults env" and "users s userId \<noteq> None"
  shows "\<exists>r. fst (addXP env userId amount s) = Inr r"
proof -
  from assms(2) obtain u where u: "users s userId = Some u" by blast
  have "\<not> db_fails env XpUserGet s" "\<not> db_fails env XpUserUpdate (called XpUserGet s)"
    using assms(1) by (simp_all add: noFaults_def)
  from addXP_ok[OF this(1) u this(2)] show ?thesis by simp
qed

lemma saveAchievements_all:
  assumes "noFaults env" and "users s userId \<noteq> None"
  shows "fst (saveAchievements env userId as s) = Inr () \<and>
         set as \<subseteq> set (achievements (snd (saveAchievements env userId as s)))"
  using assms(2)
proof (induction as arbitrary: s)
  case Nil
  then show ?case by simp
next
  case (Cons a as)
  let ?s1 = "called AchievementAdd s"
  let ?s2 = "?s1\<lparr>achievements := achievements ?s1 @ [a]\<rparr>"
  let ?s3 = "called AchievementNotificationAdd ?s2"
  let ?s4 = "?s3\<lparr>notifications := notifications ?s3 @
                [createNotificationData (now env) userId ''achievement'' (title a) (description a)
                   (Some \<lparr>achievementId = Some (length (achievements ?s1)), d_level = None\<rparr>)]\<rparr>"
  let ?r = "addXP env userId (xpReward a) ?s4"
  have f: "\<not> db_fails env AchievementAdd s" "\<not> db_fails env AchievementNotificationAdd ?s2"
    using assms(1) by (simp_all add: noFaults_def)
  have u4: "users ?s4 userId \<noteq> None" using Cons.prems by simp
  from addXP_succeeds[OF assms(1) u4] obtain x where x: "fst ?r = Inr x" by blast
  then have eq: "saveAchievements env userId (a # as) s = saveAchievements env userId as (snd ?r)"
    using f by (cases ?r) (simp add: Let_def)
  from addXP_xpFrame[of userId ?s4 env "xpReward a"] u4
  have u5: "users (snd ?r) userId \<noteq> None" unfolding xpFrame_def by blast
  from saveAchievements_head[OF assms(1), of userId a as s]
  have "a \<in> set (achievements (snd (saveAchievements env userId (a # as) s)))" by auto
  with Cons.IH[OF u5] show ?case unfolding eq by simp
qed

lemma checkAchievements_ok:
  assumes "noFaults env"
  shows "\<exists>s0. achievements s0 = achievements s \<and> checkins s0 = checkins s \<and> users s0 = users s \<and>
     checkAchievements env userId ctx s =
       (case saveAchievements env userId
               (expectedStreak env userId ctx s @
                (if ctx_type ctx = ''check_in''
                 then expectedCompletion env userId (ctx_habitId ctx) s else [])) s0 of
          (Inl e, s3) \<Rightarrow> ([], console ''Error checking achievements:'' s3)
        | (Inr u, s3) \<Rightarrow> (expectedStreak env userId ctx s @
                (if ctx_type ctx = ''check_in''
                 then expectedCompletion env userId (ctx_habitId ctx) s else []), s3))"
proof -
  define SL where "SL = expectedStreak env userId ctx s"
  define CL where "CL = (if ctx_type ctx = ''check_in''
                 then expectedCompletion env userId (ctx_habitId ctx) s else [])"
  define st where "st = (if ctx_type ctx = ''check_in'' \<and> ctx_streak ctx \<noteq> None \<and> ctx_streak ctx \<noteq> Some 0
            then checkStreakAchievements env userId (the (ctx_streak ctx)) (ctx_habitId ctx) s
            else (Inr [], s))"
  have s1: "fst st = Inr SL" "achievements (snd st) = achievements s"
      "checkins (snd st) = checkins s" "users (snd st) = users s"
    unfolding st_def SL_def
    by (auto simp: checkStreakAchievements_ok[OF assms] expectedStreak_def split: option.splits)
  then obtain s1' where st: "st = (Inr SL, s1')" and s1': "achievements s1' = achievements s"
      "checkins s1' = checkins s" "users s1' = users s"
    by (cases st) auto
  define co where "co = (if ctx_type ctx = ''check_in''
                 then checkCompletionAchievements env userId (ctx_habitId ctx) s1'
                 else (Inr [], s1'))"
  have ec: "expectedCompletion env userId h s1' = expectedCompletion env userId h s" for h
    using s1' by (simp add: expectedCompletion_def)
  have s2: "fst co = Inr CL"
      "achievements (snd co) = achievements s" "checkins (snd co) = checkins s"
      "users (snd co) = users s"
    unfolding co_def CL_def
    using checkCompletionAchievements_ok[OF assms, of userId "ctx_habitId ctx" s1'] s1' ec
    by simp_all
  then obtain s2' where co: "co = (Inr CL, s2')" and s2': "achievements s2' = achievements s"
      "checkins s2' = checkins s" "users s2' = users s"
    by (cases co) auto
  have "checkAchievements env userId ctx s =
       (case saveAchievements env userId (SL @ CL) s2' of
          (Inl e, s3) \<Rightarrow> ([], console ''Error checking achievements:'' s3)
        | (Inr u, s3) \<Rightarrow> (SL @ CL, s3))"
    unfolding checkAchievements_def
    by (simp only: st[unfolded st_def] co[unfolded co_def] prod.case sum.case)
  with s2' show ?thesis unfolding SL_def CL_def by blast
qed

lemma streakAchievement_fields [simp]:
  "a_userId (streakAchievement env userId n habitId) = userId"
  "a_type (streakAchievement env userId n habitId) = ''streak''"
  "metaStreak (streakAchievement env userId n habitId) = Some n"
  by (simp_all add: streakAchievement_def createAchievementData_def metaStreak_def)

lemma completionAchievement_fields [simp]:
  "a_userId (completionAchievement env userId m habitId) = userId"
  "a_type (completionAchievement env userId m habitId) = ''completion''"
  "metaCompletions (completionAchievement env userId m habitId) = Some m"
  "metaHabitId (completionAchievement env userId m habitId) = Some habitId"
  by (simp_all add: completionAchievement_def createAchievementData_def metaCompletions_def
      metaHabitId_def)

lemma existingStreak_expected:
  "existingStreak userId n (expectedStreak env userId ctx s @
      (if ctx_type ctx = ''check_in'' then expectedCompletion env userId h s else [])) =
   (if ctx_streak ctx = Some n then expectedStreak env userId ctx s else [])"
  by (auto simp: existingStreak_def expectedStreak_def expectedCompletion_def split: option.splits)

lemma checkAchievements_run:
  assumes "noFaults env"
  shows "\<exists>extra. achievements (snd (checkAchievements env userId ctx s)) = achievements s @ extra \<and>
           length (existingStreak userId n extra) \<le>
             length (if ctx_streak ctx = Some n then expectedStreak env userId ctx s else []) \<and>
           (set (expectedStreak env userId ctx s) \<subseteq> set (achievements s @ extra))"
proof -
  define L where "L = expectedStreak env userId ctx s @
      (if ctx_type ctx = ''check_in'' then expectedCompletion env userId (ctx_habitId ctx) s else [])"
  from checkAchievements_ok[OF assms, of s userId ctx] obtain s0 where
    s0: "achievements s0 = achievements s" and
    eq: "checkAchievements env userId ctx s =
       (case saveAchievements env userId L s0 of
          (Inl e, s3) \<Rightarrow> ([], console ''Error checking achievements:'' s3)
        | (Inr u, s3) \<Rightarrow> (L, s3))"
    unfolding L_def by blast
  have ach: "achievements (snd (checkAchievements env userId ctx s)) =
      achievements (snd (saveAchievements env userId L s0))"
    unfolding eq by (cases "saveAchievements env userId L s0") (simp split: sum.splits)
  let ?P = "\<lambda>a. a_userId a = userId \<and> a_type a = ''streak'' \<and> metaStreak a = Some n"
  from saveAchievements_frame[of env userId L s0 ?P] obtain extra where
    ex: "achievements (snd (saveAchievements env userId L s0)) = achievements s0 @ extra"
      "length (filter ?P extra) \<le> length (filter ?P L) +
         length (filter (\<lambda>a. ?P a \<and> a_type a = ''level'') extra)"
    by blast
  have "filter (\<lambda>a. ?P a \<and> a_type a = ''level'') extra = []"
    by (auto simp: filter_empty_conv)
  with ex(2) have le: "length (existingStreak userId n extra) \<le> length (existingStreak userId n L)"
    by (simp add: existingStreak_def)
  have hd: "set (expectedStreak env userId ctx s) \<subseteq> set (achievements s @ extra)"
  proof (cases "expectedStreak env userId ctx s")
    case Nil
    then show ?thesis by simp
  next
    case (Cons a as)
    then obtain rest where "L = a # rest" and "as = []"
      unfolding L_def by (auto simp: expectedStreak_def split: option.splits if_splits)
    with saveAchievements_head[OF assms, of userId a rest s0] ex(1) Cons
    show ?thesis by auto
  qed
  from le have "length (existingStreak userId n extra) \<le>
             length (if ctx_streak ctx = Some n then expectedStreak env userId ctx s else [])"
    unfolding L_def existingStreak_expected .
  with ach ex(1) s0 hd show ?thesis by auto
qed

lemma expectedStreak_after_run:
  assumes "noFaults env"
  shows "expectedStreak env userId ctx (snd (checkAchievements env userId ctx s)) = []"
proof (rule ccontr)
  let ?s1 = "snd (checkAchievements env userId ctx s)"
  assume ne: "expectedStreak env userId ctx ?s1 \<noteq> []"
  then obtain k where k: "ctx_streak ctx = Some k" "ctx_type ctx = ''check_in''" "k \<noteq> 0"
    "existingStreak userId k (achievements ?s1) = []" "k \<in> set (STREAK_MILESTONES env)"
    by (auto simp: expectedStreak_def split: option.splits if_splits)
  from checkAchievements_run[OF assms, of userId ctx s k] obtain e1 where
    e1: "achievements ?s1 = achievements s @ e1"
      "set (expectedStreak env userId ctx s) \<subseteq> set (achievements s @ e1)"
    by blast
  from k(4) e1(1) have "existingStreak userId k (achievements s) = []"
    by (simp add: existingStreak_def)
  with k have "expectedStreak env userId ctx s = [streakAchievement env userId k (ctx_habitId ctx)]"
    by (simp add: expectedStreak_def)
  with e1 have "streakAchievement env userId k (ctx_habitId ctx) \<in> set (achievements ?s1)"
    by simp
  then have "streakAchievement env userId k (ctx_habitId ctx) \<in> set (existingStreak userId k (achievements ?s1))"
    by (simp add: existingStreak_def)
  with k(4) show False by simp
qed

text \<open>
  C5. When no call is rejected, one run of the achievement check creates at most one
  streak achievement of the user with a given value of \<open>metadata.streak\<close>, and a second
  run with the same user and context creates none. A first run for a milestone that the
  user has not unlocked does create it.
\<close>

theorem streak_unlock_idempotent:
  assumes "noFaults env"
  shows "streakUnlocks userId n (snd (checkAchievements env userId ctx s))
           \<le> streakUnlocks userId n s + 1 \<and>
         streakUnlocks userId n
           (snd (checkAchievements env userId ctx (snd (checkAchievements env userId ctx s))))
           = streakUnlocks userId n (snd (checkAchievements env userId ctx s)) \<and>
         (ctx_type ctx = ''check_in'' \<and> ctx_streak ctx = Some n \<and> n \<noteq> 0 \<and>
          n \<in> set (STREAK_MILESTONES env) \<and> streakUnlocks userId n s = 0 \<longrightarrow>
          streakUnlocks userId n (snd (checkAchievements env userId ctx s)) = 1)"
proof -
  let ?s1 = "snd (checkAchievements env userId ctx s)"
  let ?s2 = "snd (checkAchievements env userId ctx ?s1)"
  from checkAchievements_run[OF assms, of userId ctx s n] obtain e1 where
    e1: "achievements ?s1 = achievements s @ e1"
      "length (existingStreak userId n e1) \<le>
         length (if ctx_streak ctx = Some n then expectedStreak env userId ctx s else [])"
      "set (expectedStreak env userId ctx s) \<subseteq> set (achievements s @ e1)"
    by blast
  from checkAchievements_run[OF assms, of userId ctx ?s1 n] obtain e2 where
    e2: "achievements ?s2 = achievements ?s1 @ e2"
      "length (existingStreak userId n e2) \<le>
         length (if ctx_streak ctx = Some n then expectedStreak env userId ctx ?s1 else [])"
    by blast
  have len1: "length (expectedStreak env userId ctx s) \<le> 1"
    by (simp add: expectedStreak_def split: option.splits)
  have c1: "streakUnlocks userId n ?s1 = streakUnlocks userId n s + length (existingStreak userId n e1)"
    using e1(1) by (simp add: streakUnlocks_def existingStreak_def)
  have c2: "streakUnlocks userId n ?s2 = streakUnlocks userId n ?s1 + length (existingStreak userId n e2)"
    using e2(1) by (simp add: streakUnlocks_def existingStreak_def)
  have first: "streakUnlocks userId n ?s1 \<le> streakUnlocks userId n s + 1"
    using c1 e1(2) len1 by (simp split: if_splits)
  have none: "expectedStreak env userId ctx ?s1 = []"
    by (rule expectedStreak_after_run[OF assms])
  from e2(2) none have "length (existingStreak userId n e2) = 0"
    by (simp split: if_splits)
  with c2 have second: "streakUnlocks userId n ?s2 = streakUnlocks userId n ?s1"
    by simp
  have fresh: "streakUnlocks userId n ?s1 = 1"
    if h: "ctx_type ctx = ''check_in''" "ctx_streak ctx = Some n" "n \<noteq> 0"
      "n \<in> set (STREAK_MILESTONES env)" "streakUnlocks userId n s = 0"
  proof -
    from h have "expectedStreak env userId ctx s = [streakAchievement env userId n (ctx_habitId ctx)]"
      by (simp add: expectedStreak_def streakUnlocks_def)
    with e1(3) e1(1) have "streakAchievement env userId n (ctx_habitId ctx) \<in> set (achievements ?s1)"
      by simp
    then have "streakAchievement env userId n (ctx_habitId ctx) \<in> set (existingStreak userId n (achievements ?s1))"
      by (simp add: existingStreak_def)
    then have "0 < streakUnlocks userId n ?s1"
      unfolding streakUnlocks_def by (cases "existingStreak userId n (achievements ?s1)") auto
    with first h(5) show ?thesis by simp
  qed
  from first second fresh show ?thesis by blast
qed

lemma noFaults_exampleEnv: "noFaults exampleEnv"
  by (simp add: noFaults_def exampleEnv_def)

theorem streak_unlock_idempotent_witness:
  "noFaults exampleEnv \<and> streakUnlocks ''u1'' 7 exampleStore = 0 \<and>
   streakUnlocks ''u1'' 7 (snd (checkAchievements exampleEnv ''u1'' exampleContext exampleStore)) = 1 \<and>
   streakUnlocks ''u1'' 7 (snd (checkAchievements exampleEnv ''u1'' exampleContext
       (snd (checkAchievements exampleEnv ''u1'' exampleContext exampleStore)))) = 1"
proof -
  have a: "noFaults exampleEnv" by (simp add: noFaults_def exampleEnv_def)
  have b: "streakUnlocks ''u1'' 7 exampleStore = 0"
    by (simp add: streakUnlocks_def existingStreak_def exampleStore_def emptyStore_def)
  have c: "ctx_type exampleContext = ''check_in'' \<and> ctx_streak exampleContext = Some 7 \<and>
      (7::int) \<noteq> 0 \<and> 7 \<in> set (STREAK_MILESTONES exampleEnv)"
    by (simp add: exampleContext_def exampleEnv_def)
  from streak_unlock_idempotent[OF a, of "''u1''" 7 exampleContext exampleStore] b c
  show ?thesis using a by simp
qed

lemma checkAchievements_run_user:
  assumes "noFaults env" and "users s userId \<noteq> None"
  shows "fst (checkAchievements env userId ctx s) =
           expectedStreak env userId ctx s @
           (if ctx_type ctx = ''check_in'' then expectedCompletion env userId (ctx_habitId ctx) s else []) \<and>
         set (fst (checkAchievements env userId ctx s))
           \<subseteq> set (achievements (snd (checkAchievements env userId ctx s))) \<and>
         checkins (snd (checkAchievements env userId ctx s)) = checkins s \<and>
         users (snd (checkAchievements env userId ctx s)) userId \<noteq> None \<and>
         (\<exists>extra. achievements (snd (checkAchievements env userId ctx s)) = achievements s @ extra)"
proof -
  define L where "L = expectedStreak env userId ctx s @
      (if ctx_type ctx = ''check_in'' then expectedCompletion env userId (ctx_habitId ctx) s else [])"
  from checkAchievements_ok[OF assms(1), of s userId ctx] obtain s0 where
    s0: "achievements s0 = achievements s" "checkins s0 = checkins s" "users s0 = users s" and
    eq: "checkAchievements env userId ctx s =
       (case saveAchievements env userId L s0 of
          (Inl e, s3) \<Rightarrow> ([], console ''Error checking achievements:'' s3)
        | (Inr u, s3) \<Rightarrow> (L, s3))"
    unfolding L_def by blast
  have u0: "users s0 userId \<noteq> None" using s0 assms(2) by simp
  from saveAchievements_all[OF assms(1) u0, of L]
  have ok: "fst (saveAchievements env userId L s0) = Inr ()"
    "set L \<subseteq> set (achievements (snd (saveAchievements env userId L s0)))" by blast+
  then have eq2: "checkAchievements env userId ctx s = (L, snd (saveAchievements env userId L s0))"
    unfolding eq by (cases "saveAchievements env userId L s0") simp
  from saveAchievements_frame[of env userId L s0 "\<lambda>a. True"] s0 u0
  have "checkins (snd (saveAchievements env userId L s0)) = checkins s"
    "users (snd (saveAchievements env userId L s0)) userId \<noteq> None"
    "\<exists>extra. achievements (snd (saveAchievements env userId L s0)) = achievements s @ extra"
    by auto
  with ok(2) show ?thesis unfolding eq2 L_def[symmetric] by simp
qed

lemma expectedCompletion_after_run:
  assumes "noFaults env" and "users s userId \<noteq> None" and "ctx_type ctx = ''check_in''"
  shows "expectedCompletion env userId (ctx_habitId ctx) (snd (checkAchievements env userId ctx s)) = []"
proof (rule ccontr)
  let ?s1 = "snd (checkAchievements env userId ctx s)"
  let ?h = "ctx_habitId ctx"
  let ?cnt = "totalCompletionsOf userId ?h (checkins s)"
  assume ne: "expectedCompletion env userId ?h ?s1 \<noteq> []"
  from checkAchievements_run_user[OF assms(1,2), of ctx] assms(3) obtain extra where
    r: "fst (checkAchievements env userId ctx s) =
          expectedStreak env userId ctx s @ expectedCompletion env userId ?h s"
       "set (fst (checkAchievements env userId ctx s)) \<subseteq> set (achievements ?s1)"
       "checkins ?s1 = checkins s" "achievements ?s1 = achievements s @ extra"
    by auto
  from ne r(3) have c: "?cnt \<in> {10, 25, 50, 100, 250, 500}"
    "existingCompletion userId ?cnt ?h (achievements ?s1) = []"
    by (auto simp: expectedCompletion_def split: if_splits)
  from c(2) r(4) have "existingCompletion userId ?cnt ?h (achievements s) = []"
    by (simp add: existingCompletion_def)
  with c(1) have "expectedCompletion env userId ?h s = [completionAchievement env userId ?cnt ?h]"
    by (simp add: expectedCompletion_def)
  with r(1,2) have "completionAchievement env userId ?cnt ?h \<in> set (achievements ?s1)"
    by simp
  then have "completionAchievement env userId ?cnt ?h \<in> set (existingCompletion userId ?cnt ?h (achievements ?s1))"
    by (simp add: existingCompletion_def)
  with c(2) show False by simp
qed

text \<open>
  C6. When no call is rejected, \<open>checkCompletionAchievements\<close> returns a completion
  achievement, carrying the count and the habit in its metadata, exactly when the number
  of completed check-ins of the user for the habit is one of 10, 25, 50, 100, 250, 500
  and no completion achievement with this count and habit exists; otherwise it returns
  none. After one run of the achievement check for an existing user, a repeated check at
  the same count returns no new achievements.
\<close>

theorem completion_unlock_exact:
  assumes "noFaults env"
  shows "fst (checkCompletionAchievements env userId habitId s) =
           Inr (if totalCompletionsOf userId habitId (checkins s) \<in> {10, 25, 50, 100, 250, 500} \<and>
                   existingCompletion userId (totalCompletionsOf userId habitId (checkins s)) habitId
                     (achievements s) = []
                then [completionAchievement env userId
                        (totalCompletionsOf userId habitId (checkins s)) habitId]
                else []) \<and>
         a_type (completionAchievement env userId m habitId) = ''completion'' \<and>
         metaCompletions (completionAchievement env userId m habitId) = Some m \<and>
         metaHabitId (completionAchievement env userId m habitId) = Some habitId \<and>
         (users s userId \<noteq> None \<and> ctx_type ctx = ''check_in'' \<longrightarrow>
            fst (checkCompletionAchievements env userId (ctx_habitId ctx)
                   (snd (checkAchievements env userId ctx s))) = Inr [] \<and>
            fst (checkAchievements env userId ctx (snd (checkAchievements env userId ctx s))) = [])"
proof -
  have first: "fst (checkCompletionAchievements env userId habitId s) =
           Inr (if totalCompletionsOf userId habitId (checkins s) \<in> {10, 25, 50, 100, 250, 500} \<and>
                   existingCompletion userId (totalCompletionsOf userId habitId (checkins s)) habitId
                     (achievements s) = []
                then [completionAchievement env userId
                        (totalCompletionsOf userId habitId (checkins s)) habitId]
                else [])"
    using checkCompletionAchievements_ok[OF assms, of userId habitId s]
    unfolding expectedCompletion_def by blast
  have again: "fst (checkCompletionAchievements env userId (ctx_habitId ctx)
                   (snd (checkAchievements env userId ctx s))) = Inr [] \<and>
            fst (checkAchievements env userId ctx (snd (checkAchievements env userId ctx s))) = []"
    if h: "users s userId \<noteq> None" "ctx_type ctx = ''check_in''"
  proof -
    let ?s1 = "snd (checkAchievements env userId ctx s)"
    have c0: "expectedCompletion env userId (ctx_habitId ctx) ?s1 = []"
      by (rule expectedCompletion_after_run[OF assms h])
    have s0: "expectedStreak env userId ctx ?s1 = []"
      by (rule expectedStreak_after_run[OF assms])
    from checkAchievements_run_user[OF assms h(1), of ctx]
    have u1: "users ?s1 userId \<noteq> None" by blast
    from checkAchievements_run_user[OF assms u1, of ctx] c0 s0
    have "fst (checkAchievements env userId ctx ?s1) = []" by simp
    moreover from checkCompletionAchievements_ok[OF assms, of userId "ctx_habitId ctx" ?s1] c0
    have "fst (checkCompletionAchievements env userId (ctx_habitId ctx) ?s1) = Inr []" by simp
    ultimately show ?thesis by blast
  qed
  from first again show ?thesis by simp
qed

theorem completion_unlock_exact_witness:
  "noFaults exampleEnv \<and> users fiftyStore ''u1'' \<noteq> None \<and>
   ctx_type exampleContext = ''check_in'' \<and>
   totalCompletionsOf ''u1'' ''h1'' (checkins fiftyStore) = 50 \<and>
   fst (checkCompletionAchievements exampleEnv ''u1'' ''h1'' fiftyStore) =
     Inr [completionAchievement exampleEnv ''u1'' 50 ''h1''] \<and>
   metaCompletions (completionAchievement exampleEnv ''u1'' 50 ''h1'') = Some 50 \<and>
   fst (checkAchievements exampleEnv ''u1'' exampleContext
          (snd (checkAchievements exampleEnv ''u1'' exampleContext fiftyStore))) = []"
proof -
  have a: "noFaults exampleEnv" by (rule noFaults_exampleEnv)
  have b: "users fiftyStore ''u1'' \<noteq> None"
    by (simp add: fiftyStore_def exampleStore_def)
  have c: "ctx_type exampleContext = ''check_in''" by (simp add: exampleContext_def)
  have d: "totalCompletionsOf ''u1'' ''h1'' (checkins fiftyStore) = 50"
    by (simp add: totalCompletionsOf_def fiftyStore_def exampleCheckin_def)
  have e: "existingCompletion ''u1'' 50 ''h1'' (achievements fiftyStore) = []"
    by (simp add: existingCompletion_def fiftyStore_def exampleStore_def emptyStore_def)
  from completion_unlock_exact[OF a, of "''u1''" "''h1''" fiftyStore 50 exampleContext] b c d e
  show ?thesis using a by simp
qed

section \<open>Check in to a habit: properties\<close>

lemma alertsRequested_simps [simp]:
  "alertsRequested (called c s) = (if c = FcmUserGet then Suc (alertsRequested s) else alertsRequested s)"
  "alertsRequested (console l s) = alertsRequested s"
  "alertsRequested (thrown e s) = alertsRequested s"
  "alertsRequested (s\<lparr>users := a\<rparr>) = alertsRequested s"
  "alertsRequested (s\<lparr>habits := b\<rparr>) = alertsRequested s"
  "alertsRequested (s\<lparr>pushes := c'\<rparr>) = alertsRequested s"
  "alertsRequested (invoked (StreakEndAlertCall u n p) s) = alertsRequested s"
  by (simp_all add: alertsRequested_def called_def console_def thrown_def invoked_def)

lemma alertCalls_simps [simp]:
  "alertCalls (called c s) = alertCalls s"
  "alertCalls (console l s) = alertCalls s"
  "alertCalls (thrown e s) = alertCalls s"
  "alertCalls (s\<lparr>users := a\<rparr>) = alertCalls s"
  "alertCalls (s\<lparr>habits := b\<rparr>) = alertCalls s"
  "alertCalls (s\<lparr>pushes := c'\<rparr>) = alertCalls s"
  "alertCalls (invoked (StreakEndAlertCall u n p) s) =
     alertCalls s @ [StreakEndAlertCall u n p]"
  by (simp_all add: alertCalls_def isAlertCall_def called_def console_def thrown_def
      invoked_def)



lemma sendStreakEndAlert_no_push:
  assumes "users s userId = None"
  shows "pushes (snd (sendStreakEndAlert env userId nm prev s)) = pushes s"
  using assms
  by (simp add: sendStreakEndAlert_def sendNotification_def Let_def)





text \<open>
  C2. The handler writes \<open>completedDates\<close>, \<open>streak\<close>, \<open>updatedAt\<close> and \<open>lastCheckIn\<close> in
  one update and leaves \<open>longestStreak\<close> as it was: after the first check-in to a new habit
  the streak is 1 and \<open>longestStreak\<close> is still 0.
\<close>

theorem checkIn_leaves_longestStreak:
  "habits (snd (checkIn exampleEnv ''u1'' ''h1'' (habitStore exampleHabit))) ''h1'' =
     Some (exampleHabit\<lparr>completedDates := Some [20], streak := Some 1, h_updatedAt := 1000,
                         lastCheckIn := Some 1000\<rparr>) \<and>
   longestStreak (the (habits (snd (checkIn exampleEnv ''u1'' ''h1'' (habitStore exampleHabit))) ''h1'')) = 0 \<and>
   streak (the (habits (snd (checkIn exampleEnv ''u1'' ''h1'' (habitStore exampleHabit))) ''h1'')) = Some 1"
  by (simp add: checkIn_def Let_def exampleEnv_def habitStore_def exampleHabit_def
      exampleStore_def emptyStore_def exampleUser_def called_def console_def)

section \<open>Create a check-in: properties\<close>

lemma keeps_refl [simp]: "keeps userId s s"
  by (simp add: keeps_def)

lemma keeps_trans:
  assumes "keeps userId a b" and "keeps userId b c"
  shows "keeps userId a c"
proof -
  from assms obtain t1 t2 where "trace b = trace a @ t1" "trace c = trace b @ t2"
    unfolding keeps_def by blast
  then have "trace c = trace a @ (t1 @ t2)" by simp
  then have "\<exists>t. trace c = trace a @ t" by blast
  with assms show ?thesis unfolding keeps_def by simp
qed

lemma keeps_called [simp]: "keeps userId s (called c s)"
  by (simp add: keeps_def)

lemma keeps_console [simp]: "keeps userId s (console l s)"
  by (simp add: keeps_def)

lemma keeps_thrown [simp]: "keeps userId s (thrown e s)"
  by (simp add: keeps_def)

lemma keeps_thrown_called [simp]: "keeps userId s (thrown e (called c s))"
  by (simp add: keeps_def)

lemma addXP_keeps: "keeps userId s (snd (addXP env userId amount s))"
proof (rule addXP_rel[where R="keeps userId" and A="\<lambda>x. True"])
  show "keeps userId a c" if "keeps userId a b" "keeps userId b c" for a b c
    using that by (rule keeps_trans)
qed (simp_all add: keeps_def)

lemma saveAchievements_keeps: "keeps userId s (snd (saveAchievements env userId as s))"
proof (induction as arbitrary: s)
  case Nil
  then show ?case by simp
next
  case (Cons a as)
  let ?s1 = "called AchievementAdd s"
  let ?s2 = "?s1\<lparr>achievements := achievements ?s1 @ [a]\<rparr>"
  let ?s3 = "called AchievementNotificationAdd ?s2"
  let ?s4 = "?s3\<lparr>notifications := notifications ?s3 @
                [createNotificationData (now env) userId ''achievement'' (title a) (description a)
                   (Some \<lparr>achievementId = Some (length (achievements ?s1)), d_level = None\<rparr>)]\<rparr>"
  let ?r = "addXP env userId (xpReward a) ?s4"
  have k1: "keeps userId s (thrown (DbError AchievementAdd) ?s1)" by simp
  have k3: "keeps userId s (thrown (DbError AchievementNotificationAdd) ?s3)"
    by (simp add: keeps_def)
  have k4: "keeps userId s ?s4" by (simp add: keeps_def)
  have k5: "keeps userId s (snd ?r)" using keeps_trans[OF k4 addXP_keeps] .
  have k6: "keeps userId s (snd (saveAchievements env userId as (snd ?r)))"
    using keeps_trans[OF k5 Cons.IH] .
  show ?case
    using k1 k3 k5 k6 by (cases ?r) (auto simp: Let_def split: sum.splits)
qed

lemma completionLoop_keeps: "keeps userId s (snd (completionLoop env userId habitId cnt ms acc s))"
proof (induction ms arbitrary: acc s)
  case Nil
  then show ?case by simp
next
  case (Cons m ms)
  have "keeps userId s (snd (completionLoop env userId habitId cnt ms acc' (called CompletionAchievementQuery s)))" for acc'
    using keeps_trans[OF keeps_called Cons.IH] .
  with Cons.IH show ?case by (auto simp: Let_def)
qed

lemma checkAchievements_keeps: "keeps userId s (snd (checkAchievements env userId ctx s))"
proof -
  define st where "st = (if ctx_type ctx = ''check_in'' \<and> ctx_streak ctx \<noteq> None \<and> ctx_streak ctx \<noteq> Some 0
            then checkStreakAchievements env userId (the (ctx_streak ctx)) (ctx_habitId ctx) s
            else (Inr [], s))"
  obtain x1 s1 where st: "st = (x1, s1)" by (cases st)
  have "keeps userId s (snd st)"
    unfolding st_def by (simp add: checkStreakAchievements_def Let_def)
  with st have k1: "keeps userId s s1" by simp
  show ?thesis
  proof (cases x1)
    case (Inl e)
    have "checkAchievements env userId ctx s = ([], console ''Error checking achievements:'' s1)"
      unfolding checkAchievements_def
      by (simp only: st[unfolded st_def Inl] prod.case sum.case)
    with keeps_trans[OF k1 keeps_console] show ?thesis by simp
  next
    case (Inr SL)
    define co where "co = (if ctx_type ctx = ''check_in''
                 then checkCompletionAchievements env userId (ctx_habitId ctx) s1
                 else (Inr [], s1))"
    obtain x2 s2 where co: "co = (x2, s2)" by (cases co)
    have "keeps userId s1 (snd co)"
      unfolding co_def
      using keeps_trans[OF keeps_called completionLoop_keeps]
      by (simp add: checkCompletionAchievements_def Let_def)
    with co k1 have k2: "keeps userId s s2" using keeps_trans by simp
    show ?thesis
    proof (cases x2)
      case (Inl e)
      have "checkAchievements env userId ctx s = ([], console ''Error checking achievements:'' s2)"
        unfolding checkAchievements_def
        by (simp only: st[unfolded st_def Inr] co[unfolded co_def Inl] prod.case sum.case)
      with keeps_trans[OF k2 keeps_console] show ?thesis by simp
    next
      case CL: (Inr CL)
      obtain x3 s3 where sa: "saveAchievements env userId (SL @ CL) s2 = (x3, s3)"
        by (cases "saveAchievements env userId (SL @ CL) s2")
      from saveAchievements_keeps[of userId s2 env "SL @ CL"] sa k2
      have k3: "keeps userId s s3" using keeps_trans by simp
      have "snd (checkAchievements env userId ctx s) = s3 \<or>
            snd (checkAchievements env userId ctx s) = console ''Error checking achievements:'' s3"
        unfolding checkAchievements_def
        by (cases x3) (simp_all only: st[unfolded st_def Inr] co[unfolded co_def CL] sa prod.case sum.case snd_conv simp_thms)
      with k3 keeps_trans[OF k3 keeps_console] show ?thesis by auto
    qed
  qed
qed

lemma awardCheckIn_keeps: "keeps userId s (awardCheckIn env userId habitId r s)"
proof (cases "addXP env userId 10 s")
  case (Pair x s1)
  from addXP_keeps[of userId s env 10] Pair have k1: "keeps userId s s1" by simp
  show ?thesis
  proof (cases x)
    case (Inl e)
    with Pair keeps_trans[OF k1 keeps_console] show ?thesis by (simp add: awardCheckIn_def)
  next
    case (Inr y)
    with Pair keeps_trans[OF k1 checkAchievements_keeps] show ?thesis
      by (simp add: awardCheckIn_def)
  qed
qed

lemma addXP_trace_head:
  "\<exists>t. trace (snd (addXP env userId amount s)) = trace s @ Db XpUserGet # t"
proof (cases "db_fails env XpUserGet s")
  case True
  then show ?thesis by (simp add: addXP_get_fails)
next
  case get: False
  show ?thesis
  proof (cases "users s userId")
    case None
    with get show ?thesis by (simp add: addXP_no_user)
  next
    case (Some u)
    show ?thesis
    proof (cases "db_fails env XpUserUpdate (called XpUserGet s)")
      case True
      with get Some show ?thesis by (simp add: addXP_update_fails)
    next
      case upd: False
      let ?s3 = "(called XpUserUpdate (called XpUserGet s))\<lparr>users := (users s)(userId \<mapsto> userAfterXP env u amount)\<rparr>"
      let ?L = "the (level (userAfterXP env u amount))"
      have base: "trace ?s3 = trace s @ Db XpUserGet # [Db XpUserUpdate]" by simp
      show ?thesis
      proof (cases "currentLevel u < ?L")
        case False
        with get Some upd base show ?thesis by (simp add: addXP_ok)
      next
        case True
        have "\<exists>t. trace (handleLevelUp env userId ?L ?s3) = trace ?s3 @ t"
        proof -
          let ?s1 = "called LevelAchievementAdd ?s3"
          let ?s4 = "?s1\<lparr>achievements := achievements ?s1 @ [levelAchievement env userId ?L]\<rparr>"
          let ?s5 = "called LevelNotificationAdd ?s4"
          let ?s6 = "?s5\<lparr>notifications := notifications ?s5 @ [levelNotification env userId ?L]\<rparr>"
          have "keeps userId ?s3 ?s6" by (simp add: keeps_def)
          from keeps_trans[OF this addXP_keeps]
          have k: "keeps userId ?s3 (snd (addXP env userId (LEVEL_UP (XP_VALUES env)) ?s6))" .
          from k keeps_trans[OF k keeps_console]
          have "keeps userId ?s3 (handleLevelUp env userId ?L ?s3)"
            by (auto simp: handleLevelUp.simps Let_def keeps_def split: prod.splits sum.splits)
          then show ?thesis by (simp add: keeps_def)
        qed
        then obtain t where "trace (handleLevelUp env userId ?L ?s3) = trace s @ Db XpUserGet # ([Db XpUserUpdate] @ t)"
          using base by auto
        with get Some upd True show ?thesis by (simp add: addXP_ok)
      qed
    qed
  qed
qed

lemma createCheckIn_steps:
  assumes valid: "\<not> db_fails env CheckinHabitGet s" "habits s (rq_habitId req) = Some habit"
      "h_userId habit = rq_uid req" "status habit = ''active''"
      "isDateValidForHabit env habit (dateOf env req)"
      "\<not> (dateOf env req \<in> set (datesOf habit) \<and> truthy (rq_completed req))"
    and add: "\<not> db_fails env CheckinAdd (called CheckinHabitGet s)"
  shows "\<exists>rec s3 out s5.
     checkins s3 = checkins s @ [rec] \<and> users s3 = users s \<and> habits s3 = habits s \<and>
     achievements s3 = achievements s \<and> notifications s3 = notifications s \<and>
     pushes s3 = pushes s \<and>
     trace s3 = trace s @ [Db CheckinHabitGet, Db CheckinAdd] \<and>
     c_habitId rec = rq_habitId req \<and> c_userId rec = rq_uid req \<and> c_date rec = dateOf env req \<and>
     completed rec = notFalse (rq_completed req) \<and>
     (if notFalse (rq_completed req)
      then (case updateStreak env (rq_habitId req) (rq_uid req) (dateOf env req)
                  (s3\<lparr>trace := trace s3 @
                       [UpdateStreakCall (rq_habitId req) (rq_uid req) (dateOf env req)]\<rparr>) of
              (Inl e, s4) \<Rightarrow> out = Inl e \<and> s5 = s4
            | (Inr r, s4) \<Rightarrow> out = Inr (Some r) \<and>
                 s5 = awardCheckIn env (rq_uid req) (rq_habitId req) r s4)
      else out = Inr None \<and> s5 = s3) \<and>
     createCheckIn env req s =
       (case out of
          Inl e \<Rightarrow> (Rejected 500 ''Failed to create check-in'',
                    console ''Create check-in error:'' s5)
        | Inr sr \<Rightarrow>
            if db_fails env CheckinUserUpdate s5 \<or> users s5 (rq_uid req) = None
            then (Rejected 500 ''Failed to create check-in'',
                  console ''Create check-in error:''
                    (thrown (DbError CheckinUserUpdate) (called CheckinUserUpdate s5)))
            else (CheckInCreated (length (checkins s)) rec
                    (case sr of Some r \<Rightarrow> r
                     | None \<Rightarrow> \<lparr>currentStreak = streak habit, updated = False\<rparr>),
                  (called CheckinUserUpdate s5)\<lparr>users := (users s5)(rq_uid req \<mapsto>
                      (the (users s5 (rq_uid req)))\<lparr>lastActivity := Some (now env)\<rparr>)\<rparr>))"
proof -
  define d where "d = dateOf env req"
  define rec where "rec = createCheckInData env (rq_habitId req) (rq_uid req)
                      \<lparr>cd_date = Some d,
                       cd_completed = JBool (notFalse (rq_completed req)),
                       cd_completionPercentage =
                         (if rq_completionPercentage req = None \<or>
                             rq_completionPercentage req = Some 0
                          then Some (if notFalse (rq_completed req) then 100 else 0)
                          else rq_completionPercentage req),
                       cd_notes = rq_notes req, cd_photoUrl = rq_photoUrl req,
                       cd_mood = rq_mood req\<rparr>"
  define s3 where "s3 = (called CheckinAdd (called CheckinHabitGet s))\<lparr>checkins := checkins s @ [rec]\<rparr>"
  define res where "res = (if notFalse (rq_completed req)
                               then (case updateStreak env (rq_habitId req) (rq_uid req) d
                                            (s3\<lparr>trace := trace s3 @
                                               [UpdateStreakCall (rq_habitId req) (rq_uid req) d]\<rparr>) of
                                       (Inl e, s4) \<Rightarrow> (Inl e, s4)
                                     | (Inr r, s4) \<Rightarrow>
                                         (Inr (Some r),
                                          awardCheckIn env (rq_uid req) (rq_habitId req) r s4))
                               else (Inr None, s3))"
  have v6: "\<not> ((case completedDates habit of None \<Rightarrow> False | Some ds \<Rightarrow> d \<in> set ds) \<and> truthy (rq_completed req))"
    using valid(6) by (auto simp: datesOf_def d_def split: option.splits)
  have main: "createCheckIn env req s =
       (case res of
          (Inl e, s5) \<Rightarrow> (Rejected 500 ''Failed to create check-in'',
                    console ''Create check-in error:'' s5)
        | (Inr sr, s5) \<Rightarrow>
            if db_fails env CheckinUserUpdate s5 \<or> users s5 (rq_uid req) = None
            then (Rejected 500 ''Failed to create check-in'',
                  console ''Create check-in error:''
                    (thrown (DbError CheckinUserUpdate) (called CheckinUserUpdate s5)))
            else (CheckInCreated (length (checkins s)) rec
                    (case sr of Some r \<Rightarrow> r
                     | None \<Rightarrow> \<lparr>currentStreak = streak habit, updated = False\<rparr>),
                  (called CheckinUserUpdate s5)\<lparr>users := (users s5)(rq_uid req \<mapsto>
                      (the (users s5 (rq_uid req)))\<lparr>lastActivity := Some (now env)\<rparr>)\<rparr>))"
    using valid(1-5) v6 add
    unfolding createCheckIn_def res_def s3_def rec_def d_def dateOf_def[symmetric]
    by (simp add: Let_def split: prod.splits sum.splits)
  have recf: "c_habitId rec = rq_habitId req" "c_userId rec = rq_uid req" "c_date rec = d"
      "completed rec = notFalse (rq_completed req)"
    by (simp_all add: rec_def createCheckInData_def notFalse_def)
  have s3f: "checkins s3 = checkins s @ [rec]" "users s3 = users s" "habits s3 = habits s"
     "achievements s3 = achievements s" "notifications s3 = notifications s" "pushes s3 = pushes s"
     "trace s3 = trace s @ [Db CheckinHabitGet, Db CheckinAdd]"
    by (simp_all add: s3_def)
  obtain out s5 where res: "res = (out, s5)" by (cases res)
  have link: "(if notFalse (rq_completed req)
      then (case updateStreak env (rq_habitId req) (rq_uid req) d
                  (s3\<lparr>trace := trace s3 @
                       [UpdateStreakCall (rq_habitId req) (rq_uid req) d]\<rparr>) of
              (Inl e, s4) \<Rightarrow> out = Inl e \<and> s5 = s4
            | (Inr r, s4) \<Rightarrow> out = Inr (Some r) \<and>
                 s5 = awardCheckIn env (rq_uid req) (rq_habitId req) r s4)
      else out = Inr None \<and> s5 = s3)"
    using res unfolding res_def by (auto split: prod.splits sum.splits)
  have fin: "createCheckIn env req s =
       (case out of
          Inl e \<Rightarrow> (Rejected 500 ''Failed to create check-in'',
                    console ''Create check-in error:'' s5)
        | Inr sr \<Rightarrow>
            if db_fails env CheckinUserUpdate s5 \<or> users s5 (rq_uid req) = None
            then (Rejected 500 ''Failed to create check-in'',
                  console ''Create check-in error:''
                    (thrown (DbError CheckinUserUpdate) (called CheckinUserUpdate s5)))
            else (CheckInCreated (length (checkins s)) rec
                    (case sr of Some r \<Rightarrow> r
                     | None \<Rightarrow> \<lparr>currentStreak = streak habit, updated = False\<rparr>),
                  (called CheckinUserUpdate s5)\<lparr>users := (users s5)(rq_uid req \<mapsto>
                      (the (users s5 (rq_uid req)))\<lparr>lastActivity := Some (now env)\<rparr>)\<rparr>))"
    unfolding main res by (simp split: sum.splits)
  from s3f recf link fin show ?thesis unfolding d_def by blast
qed

text \<open>Every error thrown while the experience points are awarded and the achievements
  are checked is logged and swallowed.\<close>

lemma errorFlow_append:
  "errorFlow p (t1 @ t2) = (case errorFlow p t1 of None \<Rightarrow> None | Some q \<Rightarrow> errorFlow q t2)"
proof (induction t1 arbitrary: p)
  case Nil
  then show ?case by simp
next
  case (Cons e t1)
  then show ?case by (cases e) simp_all
qed

lemma settles_refl [simp]: "settles s s"
  by (simp add: settles_def)

lemma settles_trans: "settles a b \<Longrightarrow> settles b c \<Longrightarrow> settles a c"
  unfolding settles_def
proof -
  assume "\<exists>t. trace b = trace a @ t \<and> errorFlow False t = Some False"
    and "\<exists>t. trace c = trace b @ t \<and> errorFlow False t = Some False"
  then obtain t1 t2 where 1: "trace b = trace a @ t1" "errorFlow False t1 = Some False"
    and 2: "trace c = trace b @ t2" "errorFlow False t2 = Some False" by blast
  have "trace c = trace a @ (t1 @ t2)" using 1 2 by simp
  moreover have "errorFlow False (t1 @ t2) = Some False" using 1 2 by (simp add: errorFlow_append)
  ultimately show "\<exists>t. trace c = trace a @ t \<and> errorFlow False t = Some False" by blast
qed

lemma settles_raises: "settles a b \<Longrightarrow> raises b c \<Longrightarrow> raises a c"
  unfolding settles_def raises_def
proof -
  assume "\<exists>t. trace b = trace a @ t \<and> errorFlow False t = Some False"
    and "\<exists>t. trace c = trace b @ t \<and> errorFlow False t = Some True"
  then obtain t1 t2 where 1: "trace b = trace a @ t1" "errorFlow False t1 = Some False"
    and 2: "trace c = trace b @ t2" "errorFlow False t2 = Some True" by blast
  have "trace c = trace a @ (t1 @ t2)" using 1 2 by simp
  moreover have "errorFlow False (t1 @ t2) = Some True" using 1 2 by (simp add: errorFlow_append)
  ultimately show "\<exists>t. trace c = trace a @ t \<and> errorFlow False t = Some True" by blast
qed

lemma settles_called [simp]: "settles s (called c s)"
  by (simp add: settles_def)

lemma raises_thrown [simp]: "raises s (thrown e s)"
  by (simp add: raises_def)

lemma raises_rethrown: "raises s s' \<Longrightarrow> raises s (console ''Error adding XP:'' s')"
  unfolding raises_def
proof -
  assume "\<exists>t. trace s' = trace s @ t \<and> errorFlow False t = Some True"
  then obtain t where t: "trace s' = trace s @ t" "errorFlow False t = Some True" by blast
  have "trace (console ''Error adding XP:'' s') = trace s @ (t @ [Console ''Error adding XP:''])"
    using t by simp
  moreover have "errorFlow False (t @ [Console ''Error adding XP:'']) = Some True"
    using t by (simp add: errorFlow_append)
  ultimately show "\<exists>t. trace (console ''Error adding XP:'' s') = trace s @ t \<and>
      errorFlow False t = Some True" by blast
qed

lemma raises_swallowed: "raises s s' \<Longrightarrow> swallowing l \<Longrightarrow> settles s (console l s')"
  unfolding raises_def settles_def
proof -
  assume "\<exists>t. trace s' = trace s @ t \<and> errorFlow False t = Some True" and sw: "swallowing l"
  then obtain t where t: "trace s' = trace s @ t" "errorFlow False t = Some True" by blast
  have "trace (console l s') = trace s @ (t @ [Console l])"
    using t by simp
  moreover have "errorFlow False (t @ [Console l]) = Some False"
    using t sw by (auto simp: errorFlow_append swallowing_def)
  ultimately show "\<exists>t. trace (console l s') = trace s @ t \<and> errorFlow False t = Some False"
    by blast
qed

lemma settles_same_trace: "trace s' = trace s \<Longrightarrow> settles s s'"
  by (simp add: settles_def)

lemma swallowing_lines [simp]:
  "swallowing ''Error handling level up:''" "swallowing ''Error checking achievements:''"
  "swallowing ''Achievement error (non-fatal):''"
  by (simp_all add: swallowing_def)

lemma flows_simps [simp]:
  "flows s (Inl e, s') = raises s s'" "flows s (Inr x, s') = settles s s'"
  by (simp_all add: flows_def)

lemma settles_flows: "settles a b \<Longrightarrow> flows b r \<Longrightarrow> flows a r"
  by (cases r; cases "fst r") (auto intro: settles_trans settles_raises)

text \<open>addXP either returns, with every error of its level-ups swallowed, or throws, with
  the error logged and in flight.\<close>

lemma addXP_flows: "flows s (addXP env userId amount s)"
proof (induction "levelsLeft env userId s" arbitrary: s amount rule: less_induct)
  case less
  have thr: "raises s (console ''Error adding XP:'' (thrown e (called c s)))" for e c
    by (rule raises_rethrown[OF settles_raises[OF settles_called raises_thrown]])
  show ?case
  proof (cases "db_fails env XpUserGet s")
    case True
    then show ?thesis by (simp add: addXP_get_fails thr)
  next
    case get: False
    show ?thesis
    proof (cases "users s userId")
      case None
      with get show ?thesis by (simp add: addXP_no_user thr)
    next
      case (Some u)
      show ?thesis
      proof (cases "db_fails env XpUserUpdate (called XpUserGet s)")
        case True
        have "raises s (console ''Error adding XP:''
                 (thrown (DbError XpUserUpdate) (called XpUserUpdate (called XpUserGet s))))"
          by (rule raises_rethrown[OF settles_raises[OF settles_trans[OF settles_called settles_called] raises_thrown]])
        with True get Some show ?thesis by (simp add: addXP_update_fails)
      next
        case upd: False
        let ?c = "called XpUserUpdate (called XpUserGet s)"
        let ?s3 = "?c\<lparr>users := (users s)(userId \<mapsto> userAfterXP env u amount)\<rparr>"
        let ?L = "the (level (userAfterXP env u amount))"
        have s3: "settles s ?s3" by (simp add: settles_def)
        show ?thesis
        proof (cases "currentLevel u < ?L")
          case False
          with get Some upd s3 show ?thesis by (simp add: addXP_ok)
        next
          case True
          let ?s1 = "called LevelAchievementAdd ?s3"
          let ?s4 = "?s1\<lparr>achievements := achievements ?s1 @ [levelAchievement env userId ?L]\<rparr>"
          let ?s5 = "called LevelNotificationAdd ?s4"
          let ?s6 = "?s5\<lparr>notifications := notifications ?s5 @ [levelNotification env userId ?L]\<rparr>"
          let ?l = "''Error handling level up:''"
          have f1: "settles ?s3 (console ?l (thrown (DbError LevelAchievementAdd) ?s1))"
            by (rule raises_swallowed[OF settles_raises[OF settles_called raises_thrown]]) simp
          have r5: "settles ?s3 ?s5" by (simp add: settles_def)
          have f2: "settles ?s3 (console ?l (thrown (DbError LevelNotificationAdd) ?s5))"
            by (rule raises_swallowed[OF settles_raises[OF r5 raises_thrown]]) simp
          have r6: "settles ?s3 ?s6" by (simp add: settles_def)
          have "levelsLeft env userId ?s6 < levelsLeft env userId s"
            by (rule levelsLeft_after_levelUp[OF Some True]) simp
          then have "flows ?s6 (addXP env userId (LEVEL_UP (XP_VALUES env)) ?s6)"
            using less.hyps by blast
          from settles_flows[OF r6 this]
          have f3: "flows ?s3 (addXP env userId (LEVEL_UP (XP_VALUES env)) ?s6)" .
          have "settles ?s3 (handleLevelUp env userId ?L ?s3)"
          proof (cases "addXP env userId (LEVEL_UP (XP_VALUES env)) ?s6")
            case (Pair x s')
            show ?thesis
            proof (cases x)
              case (Inl e)
              with Pair f3 have "raises ?s3 s'" by simp
              from raises_swallowed[OF this, of ?l] have "settles ?s3 (console ?l s')" by simp
              with Pair Inl f1 f2 show ?thesis
                by (simp add: handleLevelUp.simps Let_def)
            next
              case (Inr y)
              with Pair f3 have "settles ?s3 s'" by simp
              with Pair Inr f1 f2 show ?thesis
                by (simp add: handleLevelUp.simps Let_def)
            qed
          qed
          with s3 have "settles s (handleLevelUp env userId ?L ?s3)" by (blast intro: settles_trans)
          with get Some upd True show ?thesis by (simp add: addXP_ok)
        qed
      qed
    qed
  qed
qed

lemma checkStreakAchievements_flows: "flows s (checkStreakAchievements env userId n habitId s)"
  using settles_raises[OF settles_called raises_thrown]
  by (simp add: checkStreakAchievements_def Let_def)

lemma completionLoop_flows: "flows s (completionLoop env userId habitId cnt ms acc s)"
proof (induction ms arbitrary: acc s)
  case Nil
  then show ?case by simp
next
  case (Cons m ms)
  have a: "flows s (completionLoop env userId habitId cnt ms acc' (called CompletionAchievementQuery s))" for acc'
    using settles_flows[OF settles_called Cons.IH] .
  have b: "raises s (thrown (DbError CompletionAchievementQuery) (called CompletionAchievementQuery s))"
    using settles_raises[OF settles_called raises_thrown] .
  from a b Cons.IH show ?case by (auto simp: Let_def)
qed

lemma checkCompletionAchievements_flows: "flows s (checkCompletionAchievements env userId habitId s)"
  using settles_raises[OF settles_called raises_thrown]
    settles_flows[OF settles_called completionLoop_flows]
  by (simp add: checkCompletionAchievements_def Let_def)

lemma saveAchievements_flows: "flows s (saveAchievements env userId as s)"
proof (induction as arbitrary: s)
  case Nil
  then show ?case by simp
next
  case (Cons a as)
  let ?s1 = "called AchievementAdd s"
  let ?s2 = "?s1\<lparr>achievements := achievements ?s1 @ [a]\<rparr>"
  let ?s3 = "called AchievementNotificationAdd ?s2"
  let ?s4 = "?s3\<lparr>notifications := notifications ?s3 @
                [createNotificationData (now env) userId ''achievement'' (title a) (description a)
                   (Some \<lparr>achievementId = Some (length (achievements ?s1)), d_level = None\<rparr>)]\<rparr>"
  let ?r = "addXP env userId (xpReward a) ?s4"
  have k1: "raises s (thrown (DbError AchievementAdd) ?s1)"
    using settles_raises[OF settles_called raises_thrown] .
  have s3: "settles s ?s3" by (simp add: settles_def)
  have k3: "raises s (thrown (DbError AchievementNotificationAdd) ?s3)"
    using settles_raises[OF s3 raises_thrown] .
  have s4: "settles s ?s4" by (simp add: settles_def)
  have k5: "flows s ?r" using settles_flows[OF s4 addXP_flows] .
  show ?case
  proof (cases ?r)
    case (Pair x s5)
    show ?thesis
    proof (cases x)
      case (Inl e)
      with Pair k1 k3 k5 show ?thesis by (simp add: Let_def)
    next
      case (Inr y)
      with Pair k5 have "settles s s5" by simp
      from settles_flows[OF this Cons.IH]
      have "flows s (saveAchievements env userId as s5)" .
      with Pair Inr k1 k3 show ?thesis by (simp add: Let_def)
    qed
  qed
qed

lemma checkAchievements_settles: "settles s (snd (checkAchievements env userId ctx s))"
proof -
  let ?l = "''Error checking achievements:''"
  define st where "st = (if ctx_type ctx = ''check_in'' \<and> ctx_streak ctx \<noteq> None \<and> ctx_streak ctx \<noteq> Some 0
            then checkStreakAchievements env userId (the (ctx_streak ctx)) (ctx_habitId ctx) s
            else (Inr [], s))"
  obtain x1 s1 where st: "st = (x1, s1)" by (cases st)
  have "flows s st"
    unfolding st_def by (simp add: checkStreakAchievements_flows)
  with st have k1: "flows s (x1, s1)" by simp
  show ?thesis
  proof (cases x1)
    case (Inl e)
    have "checkAchievements env userId ctx s = ([], console ?l s1)"
      unfolding checkAchievements_def
      by (simp only: st[unfolded st_def Inl] prod.case sum.case)
    moreover from k1 Inl have "raises s s1" by simp
    ultimately show ?thesis using raises_swallowed[of s s1 ?l] by simp
  next
    case (Inr SL)
    with k1 have k1': "settles s s1" by simp
    define co where "co = (if ctx_type ctx = ''check_in''
                 then checkCompletionAchievements env userId (ctx_habitId ctx) s1
                 else (Inr [], s1))"
    obtain x2 s2 where co: "co = (x2, s2)" by (cases co)
    have "flows s1 co"
      unfolding co_def by (simp add: checkCompletionAchievements_flows)
    from settles_flows[OF k1' this] co have k2: "flows s (x2, s2)" by simp
    show ?thesis
    proof (cases x2)
      case (Inl e)
      have "checkAchievements env userId ctx s = ([], console ?l s2)"
        unfolding checkAchievements_def
        by (simp only: st[unfolded st_def Inr] co[unfolded co_def Inl] prod.case sum.case)
      moreover from k2 Inl have "raises s s2" by simp
      ultimately show ?thesis using raises_swallowed[of s s2 ?l] by simp
    next
      case inr2: (Inr CL)
      with k2 have k2': "settles s s2" by simp
      obtain x3 s3 where sv: "saveAchievements env userId (SL @ CL) s2 = (x3, s3)"
        by (cases "saveAchievements env userId (SL @ CL) s2")
      from settles_flows[OF k2' saveAchievements_flows[of s2 env userId "SL @ CL"]] sv
      have k3: "flows s (x3, s3)" by simp
      show ?thesis
      proof (cases x3)
        case (Inl e)
        have "checkAchievements env userId ctx s = ([], console ?l s3)"
          unfolding checkAchievements_def
          by (simp only: st[unfolded st_def Inr] co[unfolded co_def inr2] sv[unfolded Inl]
              prod.case sum.case)
        moreover from k3 Inl have "raises s s3" by simp
        ultimately show ?thesis using raises_swallowed[of s s3 ?l] by simp
      next
        case inr3: (Inr u)
        have "checkAchievements env userId ctx s = (SL @ CL, s3)"
          unfolding checkAchievements_def
          by (simp only: st[unfolded st_def Inr] co[unfolded co_def inr2] sv[unfolded inr3]
              prod.case sum.case)
        moreover from k3 inr3 have "settles s s3" by simp
        ultimately show ?thesis by simp
      qed
    qed
  qed
qed

lemma awardCheckIn_settles: "settles s (awardCheckIn env userId habitId r s)"
proof (cases "addXP env userId 10 s")
  case (Pair x s1)
  from addXP_flows[of s env userId 10] Pair have k1: "flows s (x, s1)" by simp
  show ?thesis
  proof (cases x)
    case (Inl e)
    with k1 have "raises s s1" by simp
    from raises_swallowed[OF this, of "''Achievement error (non-fatal):''"] Pair Inl
    show ?thesis by (simp add: awardCheckIn_def)
  next
    case (Inr y)
    with k1 have "settles s s1" by simp
    from settles_trans[OF this checkAchievements_settles] Pair Inr show ?thesis
      by (simp add: awardCheckIn_def)
  qed
qed

lemma streakServiceKeeps_exampleEnv: "streakServiceKeeps exampleEnv"
  by (simp add: streakServiceKeeps_def exampleEnv_def)

lemma streakServiceKeeps_failingEnv: "streakServiceKeeps failingEnv"
  by (simp add: streakServiceKeeps_def failingEnv_def exampleEnv_def)

text \<open>
  C8. Take a request that passes the checks of the handler, whose check-in record is
  stored, whose user has a document, for which \<open>updateStreak\<close> returns and the final
  update of the user is not rejected. Whatever calls fail while the experience points
  are awarded and the achievements are checked, the handler answers with the created
  check-in, and the record is in the store. The record is stored by the second call of
  the request; the side effects start from the store that \<open>updateStreak\<close> returns, after
  that call, and the trace of the request ends with their events and the final update
  of the user. Among the events of the side effects every error thrown is logged by a
  handler that swallows it, before anything else happens: by \<open>handleLevelUp\<close>, by
  \<open>checkAchievements\<close>, or by the \<open>try\<close> block of the route; no error is in flight when
  they end. A request that declares the day not completed runs no side effect.
\<close>

theorem side_effect_failures_swallowed:
  assumes valid: "\<not> db_fails env CheckinHabitGet s" "habits s (rq_habitId req) = Some habit"
      "h_userId habit = rq_uid req" "status habit = ''active''"
      "isDateValidForHabit env habit (dateOf env req)"
      "\<not> (dateOf env req \<in> set (datesOf habit) \<and> truthy (rq_completed req))"
    and add: "\<not> db_fails env CheckinAdd (called CheckinHabitGet s)"
    and svc: "streakServiceKeeps env"
    and ret: "\<forall>s'. \<exists>r. fst (updateStreak env (rq_habitId req) (rq_uid req) (dateOf env req) s') = Inr r"
    and user: "users s (rq_uid req) \<noteq> None"
    and fin: "\<forall>s'. \<not> db_fails env CheckinUserUpdate s'"
  shows "\<exists>rec r.
            fst (createCheckIn env req s) = CheckInCreated (length (checkins s)) rec r \<and>
            checkins (snd (createCheckIn env req s)) = checkins s @ [rec] \<and>
            c_habitId rec = rq_habitId req \<and> c_userId rec = rq_uid req \<and>
            c_date rec = dateOf env req \<and> completed rec = notFalse (rq_completed req) \<and>
            (\<exists>t. trace (snd (createCheckIn env req s)) =
                    trace s @ [Db CheckinHabitGet, Db CheckinAdd] @ t) \<and>
            (if notFalse (rq_completed req)
             then \<exists>s3 s4.
                    checkins s3 = checkins s @ [rec] \<and>
                    trace s3 = trace s @ [Db CheckinHabitGet, Db CheckinAdd] \<and>
                    updateStreak env (rq_habitId req) (rq_uid req) (dateOf env req)
                      (s3\<lparr>trace := trace s3 @
                           [UpdateStreakCall (rq_habitId req) (rq_uid req) (dateOf env req)]\<rparr>)
                      = (Inr r, s4) \<and>
                    settles s4 (awardCheckIn env (rq_uid req) (rq_habitId req) r s4) \<and>
                    trace (snd (createCheckIn env req s)) =
                      trace (awardCheckIn env (rq_uid req) (rq_habitId req) r s4) @
                      [Db CheckinUserUpdate]
             else trace (snd (createCheckIn env req s)) =
                    trace s @ [Db CheckinHabitGet, Db CheckinAdd, Db CheckinUserUpdate])"
proof -
  let ?uid = "rq_uid req" and ?hid = "rq_habitId req" and ?d = "dateOf env req"
  from createCheckIn_steps[OF valid add] obtain rec s3 out s5 where
    st: "checkins s3 = checkins s @ [rec]" "users s3 = users s"
      "trace s3 = trace s @ [Db CheckinHabitGet, Db CheckinAdd]"
      "c_habitId rec = ?hid" "c_userId rec = ?uid" "c_date rec = ?d"
      "completed rec = notFalse (rq_completed req)" and
    link: "if notFalse (rq_completed req)
      then (case updateStreak env ?hid ?uid ?d
                  (s3\<lparr>trace := trace s3 @ [UpdateStreakCall ?hid ?uid ?d]\<rparr>) of
              (Inl e, s4) \<Rightarrow> out = Inl e \<and> s5 = s4
            | (Inr r, s4) \<Rightarrow> out = Inr (Some r) \<and> s5 = awardCheckIn env ?uid ?hid r s4)
      else out = Inr None \<and> s5 = s3" and
    res: "createCheckIn env req s =
       (case out of
          Inl e \<Rightarrow> (Rejected 500 ''Failed to create check-in'',
                    console ''Create check-in error:'' s5)
        | Inr sr \<Rightarrow>
            if db_fails env CheckinUserUpdate s5 \<or> users s5 ?uid = None
            then (Rejected 500 ''Failed to create check-in'',
                  console ''Create check-in error:''
                    (thrown (DbError CheckinUserUpdate) (called CheckinUserUpdate s5)))
            else (CheckInCreated (length (checkins s)) rec
                    (case sr of Some r \<Rightarrow> r
                     | None \<Rightarrow> \<lparr>currentStreak = streak habit, updated = False\<rparr>),
                  (called CheckinUserUpdate s5)\<lparr>users := (users s5)(?uid \<mapsto>
                      (the (users s5 ?uid))\<lparr>lastActivity := Some (now env)\<rparr>)\<rparr>))"
    by blast
  let ?s3' = "s3\<lparr>trace := trace s3 @ [UpdateStreakCall ?hid ?uid ?d]\<rparr>"
  have k3: "keeps ?uid s3 ?s3'" by (simp add: keeps_def)
  define sr where "sr = (if notFalse (rq_completed req)
      then Some (projr (fst (updateStreak env ?hid ?uid ?d ?s3'))) else None)"
  have out: "out = Inr sr"
  proof (cases "notFalse (rq_completed req)")
    case False
    with link show ?thesis by (simp add: sr_def)
  next
    case True
    from ret obtain r where "fst (updateStreak env ?hid ?uid ?d ?s3') = Inr r" by blast
    with link True show ?thesis
      by (cases "updateStreak env ?hid ?uid ?d ?s3'") (auto simp: sr_def)
  qed
  have side: "if notFalse (rq_completed req)
      then \<exists>r s4. sr = Some r \<and> updateStreak env ?hid ?uid ?d ?s3' = (Inr r, s4) \<and>
             s5 = awardCheckIn env ?uid ?hid r s4 \<and> keeps ?uid s3 s4
      else sr = None \<and> s5 = s3"
  proof (cases "notFalse (rq_completed req)")
    case False
    with link show ?thesis by (simp add: sr_def)
  next
    case True
    obtain x s4 where u: "updateStreak env ?hid ?uid ?d ?s3' = (x, s4)"
      by (cases "updateStreak env ?hid ?uid ?d ?s3'")
    from ret obtain r where "fst (updateStreak env ?hid ?uid ?d ?s3') = Inr r" by blast
    with u have x: "x = Inr r" by simp
    from svc have "keeps ?uid ?s3' (snd (updateStreak env ?hid ?uid ?d ?s3'))"
      unfolding streakServiceKeeps_def by blast
    with u k3 have k4: "keeps ?uid s3 s4" using keeps_trans by simp
    from link True u x have "s5 = awardCheckIn env ?uid ?hid r s4" by simp
    with True u x k4 show ?thesis by (simp add: sr_def)
  qed
  have k5: "keeps ?uid s3 s5"
  proof (cases "notFalse (rq_completed req)")
    case False
    with side show ?thesis by simp
  next
    case True
    with side obtain r s4 where "s5 = awardCheckIn env ?uid ?hid r s4" "keeps ?uid s3 s4"
      by auto
    then show ?thesis using keeps_trans[OF _ awardCheckIn_keeps] by blast
  qed
  from k5 st(2) user have u5: "users s5 ?uid \<noteq> None" by (simp add: keeps_def)
  from k5 obtain t where t: "trace s5 = trace s3 @ t" and c5: "checkins s5 = checkins s3"
    by (auto simp: keeps_def)
  from fin have nf: "\<not> db_fails env CheckinUserUpdate s5" by blast
  define r where "r = (case sr of Some r \<Rightarrow> r
                     | None \<Rightarrow> \<lparr>currentStreak = streak habit, updated = False\<rparr>)"
  have eq: "createCheckIn env req s =
      (CheckInCreated (length (checkins s)) rec r,
                  (called CheckinUserUpdate s5)\<lparr>users := (users s5)(?uid \<mapsto>
                      (the (users s5 ?uid))\<lparr>lastActivity := Some (now env)\<rparr>)\<rparr>)"
    unfolding res out r_def using u5 nf by simp
  have tr5: "trace (snd (createCheckIn env req s)) = trace s5 @ [Db CheckinUserUpdate]"
    unfolding eq by simp
  have tr: "trace (snd (createCheckIn env req s)) =
      trace s @ [Db CheckinHabitGet, Db CheckinAdd] @ (t @ [Db CheckinUserUpdate])"
    unfolding eq using t st(3) by simp
  have ch: "checkins (snd (createCheckIn env req s)) = checkins s @ [rec]"
    unfolding eq using c5 st(1) by simp
  have last: "if notFalse (rq_completed req)
             then \<exists>s3 s4.
                    checkins s3 = checkins s @ [rec] \<and>
                    trace s3 = trace s @ [Db CheckinHabitGet, Db CheckinAdd] \<and>
                    updateStreak env ?hid ?uid ?d
                      (s3\<lparr>trace := trace s3 @ [UpdateStreakCall ?hid ?uid ?d]\<rparr>) = (Inr r, s4) \<and>
                    settles s4 (awardCheckIn env ?uid ?hid r s4) \<and>
                    trace (snd (createCheckIn env req s)) =
                      trace (awardCheckIn env ?uid ?hid r s4) @ [Db CheckinUserUpdate]
             else trace (snd (createCheckIn env req s)) =
                    trace s @ [Db CheckinHabitGet, Db CheckinAdd, Db CheckinUserUpdate]"
  proof (cases "notFalse (rq_completed req)")
    case False
    with side have "s5 = s3" by simp
    with False tr5 st(3) show ?thesis by simp
  next
    case True
    with side obtain r' s4 where s: "sr = Some r'" "updateStreak env ?hid ?uid ?d ?s3' = (Inr r', s4)"
      "s5 = awardCheckIn env ?uid ?hid r' s4" by auto
    from s(1) have rr: "r = r'" by (simp add: r_def)
    have "checkins s3 = checkins s @ [rec] \<and>
          trace s3 = trace s @ [Db CheckinHabitGet, Db CheckinAdd] \<and>
          updateStreak env ?hid ?uid ?d ?s3' = (Inr r, s4) \<and>
          settles s4 (awardCheckIn env ?uid ?hid r s4) \<and>
          trace (snd (createCheckIn env req s)) =
            trace (awardCheckIn env ?uid ?hid r s4) @ [Db CheckinUserUpdate]"
      using st(1,3) s(2,3) rr tr5 awardCheckIn_settles by simp
    then have "\<exists>s3 s4.
                    checkins s3 = checkins s @ [rec] \<and>
                    trace s3 = trace s @ [Db CheckinHabitGet, Db CheckinAdd] \<and>
                    updateStreak env ?hid ?uid ?d
                      (s3\<lparr>trace := trace s3 @ [UpdateStreakCall ?hid ?uid ?d]\<rparr>) = (Inr r, s4) \<and>
                    settles s4 (awardCheckIn env ?uid ?hid r s4) \<and>
                    trace (snd (createCheckIn env req s)) =
                      trace (awardCheckIn env ?uid ?hid r s4) @ [Db CheckinUserUpdate]"
      by (intro exI[of _ s3] exI[of _ s4])
    with True show ?thesis by simp
  qed
  have ex: "\<exists>t. trace (snd (createCheckIn env req s)) =
                    trace s @ [Db CheckinHabitGet, Db CheckinAdd] @ t"
    using tr by blast
  have f: "fst (createCheckIn env req s) = CheckInCreated (length (checkins s)) rec r"
    unfolding eq by simp
  from f ch st(4-7) ex last show ?thesis
    by (intro exI[of _ rec] exI[of _ r] conjI)
qed

theorem side_effect_failures_swallowed_witness:
  "\<not> db_fails failingEnv CheckinHabitGet (habitStore exampleHabit) \<and>
   habits (habitStore exampleHabit) ''h1'' = Some exampleHabit \<and>
   streakServiceKeeps failingEnv \<and> users (habitStore exampleHabit) ''u1'' \<noteq> None \<and>
   notFalse (rq_completed exampleRequest) \<and>
   (\<exists>rec r.
      fst (createCheckIn failingEnv exampleRequest (habitStore exampleHabit)) = CheckInCreated 0 rec r \<and>
      checkins (snd (createCheckIn failingEnv exampleRequest (habitStore exampleHabit))) = [rec]) \<and>
   trace (snd (createCheckIn failingEnv exampleRequest (habitStore exampleHabit))) =
     [Db CheckinHabitGet, Db CheckinAdd, UpdateStreakCall ''h1'' ''u1'' 20,
      Db XpUserGet, Db XpUserUpdate, Db LevelAchievementAdd, Db LevelNotificationAdd,
      Thrown (DbError LevelNotificationAdd), Console ''Error handling level up:'',
      Db StreakAchievementQuery, Db CompletionCheckinQuery,
      Thrown (DbError CompletionCheckinQuery), Console ''Error checking achievements:'',
      Db CheckinUserUpdate] \<and>
   errorFlow False
     [Db XpUserGet, Db XpUserUpdate, Db LevelAchievementAdd, Db LevelNotificationAdd,
      Thrown (DbError LevelNotificationAdd), Console ''Error handling level up:'',
      Db StreakAchievementQuery, Db CompletionCheckinQuery,
      Thrown (DbError CompletionCheckinQuery), Console ''Error checking achievements:'']
     = Some False"
proof -
  let ?s = "habitStore exampleHabit"
  have v: "\<not> db_fails failingEnv CheckinHabitGet ?s" "habits ?s (rq_habitId exampleRequest) = Some exampleHabit"
    "h_userId exampleHabit = rq_uid exampleRequest" "status exampleHabit = ''active''"
    "isDateValidForHabit failingEnv exampleHabit (dateOf failingEnv exampleRequest)"
    "\<not> (dateOf failingEnv exampleRequest \<in> set (datesOf exampleHabit) \<and> truthy (rq_completed exampleRequest))"
    "\<not> db_fails failingEnv CheckinAdd (called CheckinHabitGet ?s)"
    by (simp_all add: failingEnv_def exampleEnv_def habitStore_def exampleRequest_def exampleHabit_def
        datesOf_def)
  have r: "\<forall>s'. \<exists>r. fst (updateStreak failingEnv (rq_habitId exampleRequest) (rq_uid exampleRequest)
      (dateOf failingEnv exampleRequest) s') = Inr r"
    by (simp add: failingEnv_def exampleEnv_def)
  have u: "users ?s (rq_uid exampleRequest) \<noteq> None"
    by (simp add: habitStore_def exampleStore_def exampleRequest_def)
  have f: "\<forall>s'. \<not> db_fails failingEnv CheckinUserUpdate s'"
    by (simp add: failingEnv_def)
  have c: "checkins ?s = []" "trace ?s = []"
    by (simp_all add: habitStore_def exampleStore_def emptyStore_def)
  have nf: "notFalse (rq_completed exampleRequest)"
    by (simp add: exampleRequest_def notFalse_def)
  have run: "trace (snd (createCheckIn failingEnv exampleRequest ?s)) =
     [Db CheckinHabitGet, Db CheckinAdd, UpdateStreakCall ''h1'' ''u1'' 20,
      Db XpUserGet, Db XpUserUpdate, Db LevelAchievementAdd, Db LevelNotificationAdd,
      Thrown (DbError LevelNotificationAdd), Console ''Error handling level up:'',
      Db StreakAchievementQuery, Db CompletionCheckinQuery,
      Thrown (DbError CompletionCheckinQuery), Console ''Error checking achievements:'',
      Db CheckinUserUpdate]"
    by (simp add: createCheckIn_def awardCheckIn_def addXP.simps handleLevelUp.simps
        checkAchievements_def checkStreakAchievements_def checkCompletionAchievements_def
        existingStreak_def Let_def failingEnv_def exampleEnv_def
        habitStore_def exampleStore_def emptyStore_def exampleRequest_def exampleHabit_def
        exampleUser_def notFalse_def currentXP_def currentLevel_def called_def console_def
        thrown_def)
  have fl: "errorFlow False
     [Db XpUserGet, Db XpUserUpdate, Db LevelAchievementAdd, Db LevelNotificationAdd,
      Thrown (DbError LevelNotificationAdd), Console ''Error handling level up:'',
      Db StreakAchievementQuery, Db CompletionCheckinQuery,
      Thrown (DbError CompletionCheckinQuery), Console ''Error checking achievements:'']
     = Some False"
    by (simp add: swallowing_def)
  from side_effect_failures_swallowed[OF v streakServiceKeeps_failingEnv r u f] c
  have "\<exists>rec r.
      fst (createCheckIn failingEnv exampleRequest ?s) = CheckInCreated 0 rec r \<and>
      checkins (snd (createCheckIn failingEnv exampleRequest ?s)) = [rec]"
    by auto
  with v(1) run fl nf streakServiceKeeps_failingEnv show ?thesis
    by (simp add: habitStore_def exampleStore_def failingEnv_def)
qed

text \<open>The experience points of a user do not decrease while the achievements are
  checked, when no reward is negative.\<close>

lemma userGrew_steps [simp]:
  "userGrew env userId s (called c s)" "userGrew env userId s (console l s)"
  "userGrew env userId s (thrown e s)"
  "userGrew env userId s (s\<lparr>achievements := a\<rparr>)"
  "userGrew env userId s (s\<lparr>notifications := n\<rparr>)"
  by (simp_all add: userGrew_def)

lemma handleLevelUp_userGrew:
  assumes "0 \<le> LEVEL_UP (XP_VALUES env)"
  shows "userGrew env userId s (handleLevelUp env userId l s)"
proof -
  let ?s1 = "called LevelAchievementAdd s"
  let ?s2 = "?s1\<lparr>achievements := achievements ?s1 @ [levelAchievement env userId l]\<rparr>"
  let ?s3 = "called LevelNotificationAdd ?s2"
  let ?s4 = "?s3\<lparr>notifications := notifications ?s3 @ [levelNotification env userId l]\<rparr>"
  let ?r = "addXP env userId (LEVEL_UP (XP_VALUES env)) ?s4"
  let ?c = "''Error handling level up:''"
  have g1: "userGrew env userId s (console ?c (thrown (DbError LevelAchievementAdd) ?s1))"
    by (simp add: userGrew_def)
  have g3: "userGrew env userId s (console ?c (thrown (DbError LevelNotificationAdd) ?s3))"
    by (simp add: userGrew_def)
  have g4: "userGrew env userId s ?s4" by (simp add: userGrew_def)
  have g5: "userGrew env userId s (snd ?r)"
    using userGrew_trans[OF g4 addXP_userGrew[OF assms assms]] .
  have g6: "userGrew env userId s (console ?c (snd ?r))"
    using userGrew_trans[OF g5 userGrew_steps(2)] .
  show ?thesis
    using g1 g3 g5 g6
    by (cases ?r; cases "fst ?r") (simp_all add: handleLevelUp.simps Let_def)
qed

lemma streakAchievement_reward:
  "rewardsNonNegative env \<Longrightarrow> 0 \<le> xpReward (streakAchievement env userId n habitId)"
  by (simp add: rewardsNonNegative_def streakAchievement_def createAchievementData_def)

lemma completionAchievement_reward:
  "0 \<le> xpReward (completionAchievement env userId m habitId)"
  by (simp add: completionAchievement_def createAchievementData_def)

lemma saveAchievements_userGrew:
  assumes "0 \<le> LEVEL_UP (XP_VALUES env)"
  shows "\<forall>a\<in>set as. 0 \<le> xpReward a \<Longrightarrow>
         userGrew env userId s (snd (saveAchievements env userId as s))"
proof (induction as arbitrary: s)
  case Nil
  then show ?case by (simp add: userGrew_refl)
next
  case (Cons a as)
  let ?s1 = "called AchievementAdd s"
  let ?s2 = "?s1\<lparr>achievements := achievements ?s1 @ [a]\<rparr>"
  let ?s3 = "called AchievementNotificationAdd ?s2"
  let ?s4 = "?s3\<lparr>notifications := notifications ?s3 @
                [createNotificationData (now env) userId ''achievement'' (title a) (description a)
                   (Some \<lparr>achievementId = Some (length (achievements ?s1)), d_level = None\<rparr>)]\<rparr>"
  let ?r = "addXP env userId (xpReward a) ?s4"
  from Cons.prems have a: "0 \<le> xpReward a" and as: "\<forall>a\<in>set as. 0 \<le> xpReward a" by simp_all
  have k1: "userGrew env userId s (thrown (DbError AchievementAdd) ?s1)"
    by (simp add: userGrew_def)
  have k3: "userGrew env userId s (thrown (DbError AchievementNotificationAdd) ?s3)"
    by (simp add: userGrew_def)
  have k4: "userGrew env userId s ?s4" by (simp add: userGrew_def)
  have k5: "userGrew env userId s (snd ?r)"
    using userGrew_trans[OF k4 addXP_userGrew[OF a assms]] .
  have k6: "userGrew env userId s (snd (saveAchievements env userId as (snd ?r)))"
    using userGrew_trans[OF k5 Cons.IH[OF as]] .
  show ?case
    using k1 k3 k5 k6 by (cases ?r) (auto simp: Let_def split: sum.splits)
qed

lemma checkStreakAchievements_grew:
  "userGrew env userId s (snd (checkStreakAchievements env userId n habitId s))"
  by (simp add: checkStreakAchievements_def Let_def userGrew_def)

lemma checkStreakAchievements_rewards:
  "rewardsNonNegative env \<Longrightarrow> fst (checkStreakAchievements env userId n habitId s) = Inr as \<Longrightarrow>
   \<forall>a\<in>set as. 0 \<le> xpReward a"
  using streakAchievement_reward[of env userId n habitId]
  by (auto simp: checkStreakAchievements_def Let_def split: if_splits)

lemma completionLoop_grew:
  "userGrew env userId s (snd (completionLoop env userId habitId cnt ms acc s))"
proof (induction ms arbitrary: acc s)
  case Nil
  then show ?case by (simp add: userGrew_refl)
next
  case (Cons m ms)
  have a: "userGrew env userId s (snd (completionLoop env userId habitId cnt ms acc'
              (called CompletionAchievementQuery s)))" for acc'
    using userGrew_trans[OF userGrew_steps(1) Cons.IH] .
  have b: "userGrew env userId s
      (thrown (DbError CompletionAchievementQuery) (called CompletionAchievementQuery s))"
    by (simp add: userGrew_def)
  from a b Cons.IH show ?case by (auto simp: Let_def)
qed

lemma completionLoop_rewards:
  "\<forall>a\<in>set acc. 0 \<le> xpReward a \<Longrightarrow>
   fst (completionLoop env userId habitId cnt ms acc s) = Inr as \<Longrightarrow>
   \<forall>a\<in>set as. 0 \<le> xpReward a"
proof (induction ms arbitrary: acc s)
  case Nil
  then show ?case by simp
next
  case (Cons m ms)
  have ext: "\<forall>a\<in>set (acc @ [completionAchievement env userId m habitId]). 0 \<le> xpReward a"
    using Cons.prems(1) completionAchievement_reward[of env userId m habitId] by auto
  show ?case
  proof (cases "cnt = m")
    case False
    with Cons.prems Cons.IH[of acc s] show ?thesis by simp
  next
    case True
    show ?thesis
    proof (cases "db_fails env CompletionAchievementQuery s")
      case f: True
      with True Cons.prems(2) show ?thesis by (simp add: Let_def)
    next
      case f: False
      show ?thesis
      proof (cases "existingCompletion userId m habitId (achievements s) = []")
        case e: True
        with True f Cons.prems(2)
        have "fst (completionLoop env userId habitId cnt ms
                 (acc @ [completionAchievement env userId m habitId])
                 (called CompletionAchievementQuery s)) = Inr as"
          by (simp add: Let_def)
        from Cons.IH[OF ext this] show ?thesis .
      next
        case e: False
        with True f Cons.prems(2)
        have "fst (completionLoop env userId habitId cnt ms acc
                 (called CompletionAchievementQuery s)) = Inr as"
          by (simp add: Let_def)
        from Cons.IH[OF Cons.prems(1) this] show ?thesis .
      qed
    qed
  qed
qed

lemma checkCompletionAchievements_grew:
  "userGrew env userId s (snd (checkCompletionAchievements env userId habitId s))"
  using userGrew_trans[OF userGrew_steps(1) completionLoop_grew]
  by (simp add: checkCompletionAchievements_def Let_def userGrew_def)

lemma checkCompletionAchievements_rewards:
  "fst (checkCompletionAchievements env userId habitId s) = Inr as \<Longrightarrow>
   \<forall>a\<in>set as. 0 \<le> xpReward a"
  using completionLoop_rewards[of "[]" env userId habitId _ milestones _ as]
  by (auto simp: checkCompletionAchievements_def Let_def split: if_splits)

lemma checkAchievements_userGrew:
  assumes rw: "rewardsNonNegative env"
  shows "userGrew env userId s (snd (checkAchievements env userId ctx s))"
proof -
  let ?l = "''Error checking achievements:''"
  from rw have lu: "0 \<le> LEVEL_UP (XP_VALUES env)" by (simp add: rewardsNonNegative_def)
  define st where "st = (if ctx_type ctx = ''check_in'' \<and> ctx_streak ctx \<noteq> None \<and> ctx_streak ctx \<noteq> Some 0
            then checkStreakAchievements env userId (the (ctx_streak ctx)) (ctx_habitId ctx) s
            else (Inr [], s))"
  obtain x1 s1 where st: "st = (x1, s1)" by (cases st)
  have "userGrew env userId s (snd st)"
    unfolding st_def by (simp add: checkStreakAchievements_grew userGrew_refl)
  with st have k1: "userGrew env userId s s1" by simp
  have r1: "\<forall>a\<in>set SL. 0 \<le> xpReward a" if "x1 = Inr SL" for SL
  proof -
    from st that have "fst st = Inr SL" by simp
    then show ?thesis
      unfolding st_def using checkStreakAchievements_rewards[OF rw]
      by (auto split: if_splits)
  qed
  show ?thesis
  proof (cases x1)
    case (Inl e)
    have "checkAchievements env userId ctx s = ([], console ?l s1)"
      unfolding checkAchievements_def
      by (simp only: st[unfolded st_def Inl] prod.case sum.case)
    with userGrew_trans[OF k1 userGrew_steps(2)] show ?thesis by simp
  next
    case (Inr SL)
    define co where "co = (if ctx_type ctx = ''check_in''
                 then checkCompletionAchievements env userId (ctx_habitId ctx) s1
                 else (Inr [], s1))"
    obtain x2 s2 where co: "co = (x2, s2)" by (cases co)
    have "userGrew env userId s1 (snd co)"
      unfolding co_def by (simp add: checkCompletionAchievements_grew userGrew_refl)
    with co have "userGrew env userId s1 s2" by simp
    from userGrew_trans[OF k1 this] have k2: "userGrew env userId s s2" .
    have r2: "\<forall>a\<in>set CL. 0 \<le> xpReward a" if "x2 = Inr CL" for CL
    proof -
      from co that have "fst co = Inr CL" by simp
      then show ?thesis
        unfolding co_def using checkCompletionAchievements_rewards
        by (auto split: if_splits)
    qed
    show ?thesis
    proof (cases x2)
      case (Inl e)
      have "checkAchievements env userId ctx s = ([], console ?l s2)"
        unfolding checkAchievements_def
        by (simp only: st[unfolded st_def Inr] co[unfolded co_def Inl] prod.case sum.case)
      with userGrew_trans[OF k2 userGrew_steps(2)] show ?thesis by simp
    next
      case inr2: (Inr CL)
      obtain x3 s3 where sv: "saveAchievements env userId (SL @ CL) s2 = (x3, s3)"
        by (cases "saveAchievements env userId (SL @ CL) s2")
      have "\<forall>a\<in>set (SL @ CL). 0 \<le> xpReward a"
        using r1[OF Inr] r2[OF inr2] by auto
      from saveAchievements_userGrew[OF lu this, of userId s2] sv
      have "userGrew env userId s2 s3" by simp
      from userGrew_trans[OF k2 this] have k3: "userGrew env userId s s3" .
      show ?thesis
      proof (cases x3)
        case (Inl e)
        have "checkAchievements env userId ctx s = ([], console ?l s3)"
          unfolding checkAchievements_def
          by (simp only: st[unfolded st_def Inr] co[unfolded co_def inr2] sv[unfolded Inl]
              prod.case sum.case)
        with userGrew_trans[OF k3 userGrew_steps(2)] show ?thesis by simp
      next
        case inr3: (Inr u)
        have "checkAchievements env userId ctx s = (SL @ CL, s3)"
          unfolding checkAchievements_def
          by (simp only: st[unfolded st_def Inr] co[unfolded co_def inr2] sv[unfolded inr3]
              prod.case sum.case)
        with k3 show ?thesis by simp
      qed
    qed
  qed
qed

text \<open>When the document of the user can be read and written, the award of a check-in
  leaves the user with at least 10 more experience points.\<close>

lemma awardCheckIn_awards:
  assumes get: "\<not> db_fails env XpUserGet s" and u: "users s userId = Some u"
    and upd: "\<not> db_fails env XpUserUpdate (called XpUserGet s)"
    and rw: "rewardsNonNegative env"
  shows "\<exists>u'. users (awardCheckIn env userId habitId r s) userId = Some u' \<and>
              currentXP u + 10 \<le> currentXP u'"
proof -
  from rw have lu: "0 \<le> LEVEL_UP (XP_VALUES env)" by (simp add: rewardsNonNegative_def)
  let ?s3 = "(called XpUserUpdate (called XpUserGet s))\<lparr>users := (users s)(userId \<mapsto> userAfterXP env u 10)\<rparr>"
  let ?L = "the (level (userAfterXP env u 10))"
  let ?ctx = "\<lparr>ctx_type = ''check_in'', ctx_habitId = habitId, ctx_streak = currentStreak r\<rparr>"
  define s1 where "s1 = (if currentLevel u < ?L then handleLevelUp env userId ?L ?s3 else ?s3)"
  have ok: "addXP env userId 10 s =
      (Inr \<lparr>r_xp = currentXP u + 10, r_level = ?L, levelUp = (currentLevel u < ?L)\<rparr>, s1)"
    unfolding s1_def using addXP_ok[OF get u upd, of 10] by simp
  have aw: "awardCheckIn env userId habitId r s = snd (checkAchievements env userId ?ctx s1)"
    by (simp add: awardCheckIn_def ok)
  have u3: "users ?s3 userId = Some (userAfterXP env u 10)" by simp
  have xp3: "currentXP (userAfterXP env u 10) = currentXP u + 10"
    by (simp add: userAfterXP_def currentXP_def)
  have "userGrew env userId ?s3 s1"
    unfolding s1_def using handleLevelUp_userGrew[OF lu, of userId ?s3 ?L]
    by (simp add: userGrew_refl)
  from userGrew_trans[OF this checkAchievements_userGrew[OF rw]]
  have "userGrew env userId ?s3 (snd (checkAchievements env userId ?ctx s1))" .
  with u3 obtain u' where "users (snd (checkAchievements env userId ?ctx s1)) userId = Some u'"
    "currentXP (userAfterXP env u 10) \<le> currentXP u'"
    unfolding userGrew_def by blast
  with xp3 aw show ?thesis by simp
qed

lemma rewardsNonNegative_exampleEnv: "rewardsNonNegative exampleEnv"
  by (simp add: rewardsNonNegative_def exampleEnv_def)

text \<open>
  C10 as stated fails when \<open>updateStreak\<close> throws: the record is stored, the handler
  answers with status 500, and \<open>addXP\<close> is not called.
\<close>

theorem duplicate_bypass_streak_error_counterexample:
  "rq_completed exampleRequest = JUndefined \<and>
   dateOf rejectingEnv exampleRequest \<in> set (datesOf doneHabit) \<and>
   fst (createCheckIn rejectingEnv exampleRequest (habitStore doneHabit)) =
     Rejected 500 ''Failed to create check-in'' \<and>
   length (checkins (snd (createCheckIn rejectingEnv exampleRequest (habitStore doneHabit)))) = 1 \<and>
   trace (snd (createCheckIn rejectingEnv exampleRequest (habitStore doneHabit))) =
     [Db CheckinHabitGet, Db CheckinAdd, UpdateStreakCall ''h1'' ''u1'' 20,
      Console ''Create check-in error:''] \<and>
   users (snd (createCheckIn rejectingEnv exampleRequest (habitStore doneHabit))) ''u1'' =
     Some exampleUser \<and>
   xp exampleUser = Some 95"
  by (simp add: createCheckIn_def Let_def rejectingEnv_def exampleEnv_def
        habitStore_def exampleStore_def emptyStore_def exampleRequest_def exampleHabit_def
        doneHabit_def exampleUser_def notFalse_def called_def console_def datesOf_def dateOf_def
        createCheckInData_def)

text \<open>
  C10, amended. Take a request without the \<open>completed\<close> field whose day is already among
  the completed dates of the habit, and that passes the other checks. The handler does
  not answer "Already checked in for this date": it stores a new check-in record for
  that day with \<open>completed = true\<close> and then calls \<open>updateStreak\<close> for that day. When
  \<open>updateStreak\<close> throws, the handler answers with status 500 and the record stays. When
  \<open>updateStreak\<close> returns, the next call is the first call of \<open>addXP\<close>; for a user whose
  document can be read and written \<open>addXP\<close> returns the points of the user plus 10, and,
  when no reward is negative, the user ends the request with at least 10 points more.
\<close>

theorem duplicate_bypass_when_completed_omitted:
  assumes valid: "\<not> db_fails env CheckinHabitGet s" "habits s (rq_habitId req) = Some habit"
      "h_userId habit = rq_uid req" "status habit = ''active''"
      "isDateValidForHabit env habit (dateOf env req)"
    and dup: "dateOf env req \<in> set (datesOf habit)"
    and omitted: "rq_completed req = JUndefined"
    and add: "\<not> db_fails env CheckinAdd (called CheckinHabitGet s)"
    and svc: "streakServiceKeeps env"
  shows "fst (createCheckIn env req s) \<noteq> Rejected 400 ''Already checked in for this date'' \<and>
         (\<exists>rec s3 out s4.
            checkins (snd (createCheckIn env req s)) = checkins s @ [rec] \<and>
            c_habitId rec = rq_habitId req \<and> c_userId rec = rq_uid req \<and>
            c_date rec = dateOf env req \<and> completed rec \<and>
            checkins s3 = checkins s @ [rec] \<and> users s3 = users s \<and>
            trace s3 = trace s @ [Db CheckinHabitGet, Db CheckinAdd] \<and>
            updateStreak env (rq_habitId req) (rq_uid req) (dateOf env req)
              (s3\<lparr>trace := trace s3 @
                   [UpdateStreakCall (rq_habitId req) (rq_uid req) (dateOf env req)]\<rparr>)
              = (out, s4) \<and>
            (\<exists>t. trace (snd (createCheckIn env req s)) =
                    trace s @ [Db CheckinHabitGet, Db CheckinAdd,
                               UpdateStreakCall (rq_habitId req) (rq_uid req) (dateOf env req)] @ t) \<and>
            (case out of
               Inl e \<Rightarrow>
                 createCheckIn env req s =
                   (Rejected 500 ''Failed to create check-in'',
                    console ''Create check-in error:'' s4)
             | Inr r \<Rightarrow>
                 (\<exists>tx. trace (snd (createCheckIn env req s)) = trace s4 @ Db XpUserGet # tx) \<and>
                 (\<forall>u. users s4 (rq_uid req) = Some u \<and> \<not> db_fails env XpUserGet s4 \<and>
                       \<not> db_fails env XpUserUpdate (called XpUserGet s4) \<longrightarrow>
                    (\<exists>x. fst (addXP env (rq_uid req) 10 s4) = Inr x \<and>
                          r_xp x = currentXP u + 10) \<and>
                    (rewardsNonNegative env \<longrightarrow>
                       (\<exists>u'. users (snd (createCheckIn env req s)) (rq_uid req) = Some u' \<and>
                             currentXP u + 10 \<le> currentXP u')))))"
proof -
  let ?uid = "rq_uid req" and ?hid = "rq_habitId req" and ?d = "dateOf env req"
  have v6: "\<not> (?d \<in> set (datesOf habit) \<and> truthy (rq_completed req))"
    using omitted by simp
  have nfl: "notFalse (rq_completed req)" using omitted by (simp add: notFalse_def)
  from createCheckIn_steps[OF valid v6 add] nfl obtain rec s3 out' s5 where
    st: "checkins s3 = checkins s @ [rec]" "users s3 = users s"
      "trace s3 = trace s @ [Db CheckinHabitGet, Db CheckinAdd]"
      "c_habitId rec = ?hid" "c_userId rec = ?uid" "c_date rec = ?d" "completed rec" and
    link: "case updateStreak env ?hid ?uid ?d
                  (s3\<lparr>trace := trace s3 @ [UpdateStreakCall ?hid ?uid ?d]\<rparr>) of
              (Inl e, s4) \<Rightarrow> out' = Inl e \<and> s5 = s4
            | (Inr r, s4) \<Rightarrow> out' = Inr (Some r) \<and> s5 = awardCheckIn env ?uid ?hid r s4" and
    res: "createCheckIn env req s =
       (case out' of
          Inl e \<Rightarrow> (Rejected 500 ''Failed to create check-in'',
                    console ''Create check-in error:'' s5)
        | Inr sr \<Rightarrow>
            if db_fails env CheckinUserUpdate s5 \<or> users s5 ?uid = None
            then (Rejected 500 ''Failed to create check-in'',
                  console ''Create check-in error:''
                    (thrown (DbError CheckinUserUpdate) (called CheckinUserUpdate s5)))
            else (CheckInCreated (length (checkins s)) rec
                    (case sr of Some r \<Rightarrow> r
                     | None \<Rightarrow> \<lparr>currentStreak = streak habit, updated = False\<rparr>),
                  (called CheckinUserUpdate s5)\<lparr>users := (users s5)(?uid \<mapsto>
                      (the (users s5 ?uid))\<lparr>lastActivity := Some (now env)\<rparr>)\<rparr>))"
    by auto
  let ?s3' = "s3\<lparr>trace := trace s3 @ [UpdateStreakCall ?hid ?uid ?d]\<rparr>"
  obtain x s4 where u: "updateStreak env ?hid ?uid ?d ?s3' = (x, s4)"
    by (cases "updateStreak env ?hid ?uid ?d ?s3'")
  from svc have "keeps ?uid ?s3' (snd (updateStreak env ?hid ?uid ?d ?s3'))"
    unfolding streakServiceKeeps_def by blast
  with u have k4: "keeps ?uid ?s3' s4" by simp
  then obtain t4 where t4: "trace s4 = trace ?s3' @ t4" and c4: "checkins s4 = checkins s3"
    by (auto simp: keeps_def)
  have last: "(\<exists>tf. trace (snd (createCheckIn env req s)) = trace s5 @ tf) \<and>
    checkins (snd (createCheckIn env req s)) = checkins s5 \<and>
    fst (createCheckIn env req s) \<noteq> Rejected 400 ''Already checked in for this date'' \<and>
    (\<forall>v. users s5 ?uid = Some v \<longrightarrow>
       (\<exists>u'. users (snd (createCheckIn env req s)) ?uid = Some u' \<and> currentXP u' = currentXP v))"
  proof (cases out')
    case (Inl e)
    then show ?thesis unfolding res by simp
  next
    case (Inr sr)
    show ?thesis
    proof (cases "db_fails env CheckinUserUpdate s5 \<or> users s5 ?uid = None")
      case True
      with Inr have "createCheckIn env req s = (Rejected 500 ''Failed to create check-in'',
                  console ''Create check-in error:''
                    (thrown (DbError CheckinUserUpdate) (called CheckinUserUpdate s5)))"
        unfolding res by simp
      then show ?thesis by simp
    next
      case False
      with Inr show ?thesis unfolding res by (auto simp: currentXP_def)
    qed
  qed
  then obtain tf where fin: "trace (snd (createCheckIn env req s)) = trace s5 @ tf"
    "checkins (snd (createCheckIn env req s)) = checkins s5"
    "fst (createCheckIn env req s) \<noteq> Rejected 400 ''Already checked in for this date''"
    "\<forall>v. users s5 ?uid = Some v \<longrightarrow>
       (\<exists>u'. users (snd (createCheckIn env req s)) ?uid = Some u' \<and> currentXP u' = currentXP v)"
    by blast
  have s5: "(\<exists>t5. trace s5 = trace s4 @ t5) \<and> checkins s5 = checkins s4"
  proof (cases x)
    case (Inl e)
    with link u show ?thesis by simp
  next
    case (Inr r)
    with link u have "s5 = awardCheckIn env ?uid ?hid r s4" by simp
    with awardCheckIn_keeps[of ?uid s4 env ?hid r] show ?thesis by (simp add: keeps_def)
  qed
  then obtain t5 where t5: "trace s5 = trace s4 @ t5" and c5: "checkins s5 = checkins s4"
    by blast
  have ch: "checkins (snd (createCheckIn env req s)) = checkins s @ [rec]"
    using fin(2) c5 c4 st(1) by simp
  have tr: "\<exists>t. trace (snd (createCheckIn env req s)) =
      trace s @ [Db CheckinHabitGet, Db CheckinAdd, UpdateStreakCall ?hid ?uid ?d] @ t"
    using fin(1) t5 t4 st(3) by simp
  have branch: "case x of
               Inl e \<Rightarrow>
                 createCheckIn env req s =
                   (Rejected 500 ''Failed to create check-in'',
                    console ''Create check-in error:'' s4)
             | Inr r \<Rightarrow>
                 (\<exists>tx. trace (snd (createCheckIn env req s)) = trace s4 @ Db XpUserGet # tx) \<and>
                 (\<forall>u. users s4 ?uid = Some u \<and> \<not> db_fails env XpUserGet s4 \<and>
                       \<not> db_fails env XpUserUpdate (called XpUserGet s4) \<longrightarrow>
                    (\<exists>x. fst (addXP env ?uid 10 s4) = Inr x \<and> r_xp x = currentXP u + 10) \<and>
                    (rewardsNonNegative env \<longrightarrow>
                       (\<exists>u'. users (snd (createCheckIn env req s)) ?uid = Some u' \<and>
                             currentXP u + 10 \<le> currentXP u')))"
  proof (cases x)
    case (Inl e)
    with link u have "out' = Inl e" "s5 = s4" by simp_all
    with Inl show ?thesis unfolding res by simp
  next
    case (Inr r)
    with link u have a5: "s5 = awardCheckIn env ?uid ?hid r s4" by simp
    obtain y s6 where a: "addXP env ?uid 10 s4 = (y, s6)" by (cases "addXP env ?uid 10 s4")
    from addXP_trace_head[of env ?uid 10 s4] a obtain ta where
      ta: "trace s6 = trace s4 @ Db XpUserGet # ta" by auto
    have "\<exists>tb. trace s5 = trace s6 @ tb"
    proof (cases y)
      case (Inl e)
      with a a5 show ?thesis by (simp add: awardCheckIn_def)
    next
      case yr: (Inr z)
      from checkAchievements_keeps[of ?uid s6 env]
      show ?thesis using a a5 yr by (simp add: awardCheckIn_def keeps_def)
    qed
    then obtain tb where "trace s5 = trace s4 @ Db XpUserGet # (ta @ tb)"
      using ta by auto
    with fin(1) have head: "\<exists>tx. trace (snd (createCheckIn env req s)) = trace s4 @ Db XpUserGet # tx"
      by simp
    have award: "(\<exists>x. fst (addXP env ?uid 10 s4) = Inr x \<and> r_xp x = currentXP v + 10) \<and>
                    (rewardsNonNegative env \<longrightarrow>
                       (\<exists>u'. users (snd (createCheckIn env req s)) ?uid = Some u' \<and>
                             currentXP v + 10 \<le> currentXP u'))"
      if v: "users s4 ?uid = Some v" "\<not> db_fails env XpUserGet s4"
         "\<not> db_fails env XpUserUpdate (called XpUserGet s4)" for v
    proof
      show "\<exists>x. fst (addXP env ?uid 10 s4) = Inr x \<and> r_xp x = currentXP v + 10"
        using addXP_ok[OF v(2) v(1) v(3), of 10] by simp
      show "rewardsNonNegative env \<longrightarrow>
                       (\<exists>u'. users (snd (createCheckIn env req s)) ?uid = Some u' \<and>
                             currentXP v + 10 \<le> currentXP u')"
      proof
        assume rw: "rewardsNonNegative env"
        from awardCheckIn_awards[OF v(2) v(1) v(3) rw, of ?hid r] a5
        obtain w where w: "users s5 ?uid = Some w" "currentXP v + 10 \<le> currentXP w" by auto
        from fin(4) w(1) obtain u' where "users (snd (createCheckIn env req s)) ?uid = Some u'"
          "currentXP u' = currentXP w" by blast
        with w(2) show "\<exists>u'. users (snd (createCheckIn env req s)) ?uid = Some u' \<and>
                             currentXP v + 10 \<le> currentXP u'" by auto
      qed
    qed
    from head award Inr show ?thesis by simp
  qed
  have "\<exists>rec s3 out s4.
            checkins (snd (createCheckIn env req s)) = checkins s @ [rec] \<and>
            c_habitId rec = ?hid \<and> c_userId rec = ?uid \<and>
            c_date rec = ?d \<and> completed rec \<and>
            checkins s3 = checkins s @ [rec] \<and> users s3 = users s \<and>
            trace s3 = trace s @ [Db CheckinHabitGet, Db CheckinAdd] \<and>
            updateStreak env ?hid ?uid ?d
              (s3\<lparr>trace := trace s3 @ [UpdateStreakCall ?hid ?uid ?d]\<rparr>) = (out, s4) \<and>
            (\<exists>t. trace (snd (createCheckIn env req s)) =
                    trace s @ [Db CheckinHabitGet, Db CheckinAdd,
                               UpdateStreakCall ?hid ?uid ?d] @ t) \<and>
            (case out of
               Inl e \<Rightarrow>
                 createCheckIn env req s =
                   (Rejected 500 ''Failed to create check-in'',
                    console ''Create check-in error:'' s4)
             | Inr r \<Rightarrow>
                 (\<exists>tx. trace (snd (createCheckIn env req s)) = trace s4 @ Db XpUserGet # tx) \<and>
                 (\<forall>u. users s4 ?uid = Some u \<and> \<not> db_fails env XpUserGet s4 \<and>
                       \<not> db_fails env XpUserUpdate (called XpUserGet s4) \<longrightarrow>
                    (\<exists>x. fst (addXP env ?uid 10 s4) = Inr x \<and> r_xp x = currentXP u + 10) \<and>
                    (rewardsNonNegative env \<longrightarrow>
                       (\<exists>u'. users (snd (createCheckIn env req s)) ?uid = Some u' \<and>
                             currentXP u + 10 \<le> currentXP u'))))"
    using ch st(4-7) st(1) st(2) st(3) u tr branch
    by (intro exI[of _ rec] exI[of _ s3] exI[of _ x] exI[of _ s4] conjI)
  with fin(3) show ?thesis by (intro conjI)
qed

theorem duplicate_bypass_when_completed_omitted_witness:
  "\<not> db_fails exampleEnv CheckinHabitGet (habitStore doneHabit) \<and>
   habits (habitStore doneHabit) ''h1'' = Some doneHabit \<and>
   dateOf exampleEnv exampleRequest = 20 \<and> datesOf doneHabit = [20] \<and>
   rq_completed exampleRequest = JUndefined \<and> streakServiceKeeps exampleEnv \<and>
   rewardsNonNegative exampleEnv \<and>
   currentXP (the (users (habitStore doneHabit) ''u1'')) = 95 \<and>
   fst (createCheckIn exampleEnv exampleRequest (habitStore doneHabit))
     \<noteq> Rejected 400 ''Already checked in for this date'' \<and>
   (\<exists>rec. checkins (snd (createCheckIn exampleEnv exampleRequest (habitStore doneHabit))) = [rec] \<and>
      c_date rec = 20 \<and> completed rec) \<and>
   (\<exists>tx. trace (snd (createCheckIn exampleEnv exampleRequest (habitStore doneHabit))) =
        [Db CheckinHabitGet, Db CheckinAdd, UpdateStreakCall ''h1'' ''u1'' 20, Db XpUserGet] @ tx) \<and>
   (\<exists>u'. users (snd (createCheckIn exampleEnv exampleRequest (habitStore doneHabit))) ''u1'' = Some u' \<and>
      105 \<le> currentXP u')"
proof -
  let ?s = "habitStore doneHabit"
  let ?f = "snd (createCheckIn exampleEnv exampleRequest ?s)"
  have v: "\<not> db_fails exampleEnv CheckinHabitGet ?s" "habits ?s (rq_habitId exampleRequest) = Some doneHabit"
    "h_userId doneHabit = rq_uid exampleRequest" "status doneHabit = ''active''"
    "isDateValidForHabit exampleEnv doneHabit (dateOf exampleEnv exampleRequest)"
    "dateOf exampleEnv exampleRequest \<in> set (datesOf doneHabit)"
    "rq_completed exampleRequest = JUndefined"
    "\<not> db_fails exampleEnv CheckinAdd (called CheckinHabitGet ?s)"
    by (simp_all add: exampleEnv_def habitStore_def exampleRequest_def exampleHabit_def doneHabit_def
        datesOf_def dateOf_def)
  have e: "dateOf exampleEnv exampleRequest = 20" "datesOf doneHabit = [20]"
    "rq_habitId exampleRequest = ''h1''" "rq_uid exampleRequest = ''u1''"
    by (simp_all add: exampleEnv_def exampleRequest_def exampleHabit_def doneHabit_def
        datesOf_def dateOf_def)
  have c: "checkins ?s = []" "trace ?s = []" "users ?s ''u1'' = Some exampleUser"
    "currentXP exampleUser = 95"
    by (simp_all add: habitStore_def exampleStore_def emptyStore_def exampleUser_def currentXP_def)
  have nf: "\<not> db_fails exampleEnv c' s'" for c' s' by (simp add: exampleEnv_def)
  from duplicate_bypass_when_completed_omitted[OF v streakServiceKeeps_exampleEnv]
  obtain rec s3 out s4 where
    a: "fst (createCheckIn exampleEnv exampleRequest ?s)
          \<noteq> Rejected 400 ''Already checked in for this date''"
      "checkins ?f = checkins ?s @ [rec]" "c_date rec = dateOf exampleEnv exampleRequest"
      "completed rec" and
    s3: "users s3 = users ?s" "trace s3 = trace ?s @ [Db CheckinHabitGet, Db CheckinAdd]" and
    us: "updateStreak exampleEnv (rq_habitId exampleRequest) (rq_uid exampleRequest)
           (dateOf exampleEnv exampleRequest)
           (s3\<lparr>trace := trace s3 @ [UpdateStreakCall (rq_habitId exampleRequest)
                  (rq_uid exampleRequest) (dateOf exampleEnv exampleRequest)]\<rparr>) = (out, s4)" and
    br: "case out of
               Inl e \<Rightarrow>
                 createCheckIn exampleEnv exampleRequest ?s =
                   (Rejected 500 ''Failed to create check-in'',
                    console ''Create check-in error:'' s4)
             | Inr r \<Rightarrow>
                 (\<exists>tx. trace ?f = trace s4 @ Db XpUserGet # tx) \<and>
                 (\<forall>u. users s4 (rq_uid exampleRequest) = Some u \<and> \<not> db_fails exampleEnv XpUserGet s4 \<and>
                       \<not> db_fails exampleEnv XpUserUpdate (called XpUserGet s4) \<longrightarrow>
                    (\<exists>x. fst (addXP exampleEnv (rq_uid exampleRequest) 10 s4) = Inr x \<and>
                          r_xp x = currentXP u + 10) \<and>
                    (rewardsNonNegative exampleEnv \<longrightarrow>
                       (\<exists>u'. users ?f (rq_uid exampleRequest) = Some u' \<and>
                             currentXP u + 10 \<le> currentXP u')))"
    by blast
  have upd: "updateStreak exampleEnv h' u' d' X = (Inr \<lparr>currentStreak = Some 1, updated = True\<rparr>, X)"
    for h' u' d' X by (simp add: exampleEnv_def)
  from us have o: "out = Inr \<lparr>currentStreak = Some 1, updated = True\<rparr>"
    and s4: "s4 = s3\<lparr>trace := trace s3 @ [UpdateStreakCall ''h1'' ''u1'' 20]\<rparr>"
    unfolding upd e by simp_all
  have u4: "users s4 ''u1'' = Some exampleUser" using s4 s3(1) c(3) by simp
  have t4: "trace s4 = [Db CheckinHabitGet, Db CheckinAdd, UpdateStreakCall ''h1'' ''u1'' 20]"
    using s4 s3(2) c(2) by simp
  from br have b1: "\<exists>tx. trace ?f = trace s4 @ Db XpUserGet # tx"
    and b2: "\<forall>u. users s4 (rq_uid exampleRequest) = Some u \<and> \<not> db_fails exampleEnv XpUserGet s4 \<and>
                       \<not> db_fails exampleEnv XpUserUpdate (called XpUserGet s4) \<longrightarrow>
                    (\<exists>x. fst (addXP exampleEnv (rq_uid exampleRequest) 10 s4) = Inr x \<and>
                          r_xp x = currentXP u + 10) \<and>
                    (rewardsNonNegative exampleEnv \<longrightarrow>
                       (\<exists>u'. users ?f (rq_uid exampleRequest) = Some u' \<and>
                             currentXP u + 10 \<le> currentXP u'))"
    unfolding o by simp_all
  from b1 t4 have tr: "\<exists>tx. trace ?f =
        [Db CheckinHabitGet, Db CheckinAdd, UpdateStreakCall ''h1'' ''u1'' 20, Db XpUserGet] @ tx"
    by simp
  from b2[rule_format, of exampleUser] u4 nf rewardsNonNegative_exampleEnv e(4) c(4)
  have xp: "\<exists>u'. users ?f ''u1'' = Some u' \<and> 105 \<le> currentXP u'" by simp
  from a c e have rc: "\<exists>rec. checkins ?f = [rec] \<and> c_date rec = 20 \<and> completed rec" by simp
  from v(1,2,7) e c streakServiceKeeps_exampleEnv rewardsNonNegative_exampleEnv a(1) rc tr xp
  show ?thesis by simp
qed

section \<open>Checking in twice on one day: properties\<close>

lemma checkIn_already:
  assumes "habits s habitId = Some habit" and "h_userId habit = userId"
    and "\<not> db_fails env HabitGet s" and "\<not> archived habit" and "\<not> paused habit"
    and "today env \<in> set (datesOf habit)"
  shows "fst (checkIn env userId habitId s) = Rejected 400 ''Already checked in today'' \<and>
         sameData s (snd (checkIn env userId habitId s))"
  using assms by (simp add: checkIn_def Let_def datesOf_def sameData_def)

lemma createCheckIn_already:
  assumes "habits s (rq_habitId req) = Some habit" and "h_userId habit = rq_uid req"
    and "\<not> db_fails env CheckinHabitGet s" and "status habit = ''active''"
    and "isDateValidForHabit env habit (dateOf env req)"
    and "dateOf env req \<in> set (datesOf habit)" and "truthy (rq_completed req)"
  shows "fst (createCheckIn env req s) = Rejected 400 ''Already checked in for this date'' \<and>
         sameData s (snd (createCheckIn env req s))"
  using assms
  by (auto simp: createCheckIn_def Let_def datesOf_def dateOf_def sameData_def split: option.splits)

lemma createCheckIn_declined:
  assumes valid: "habits s (rq_habitId req) = Some habit" "h_userId habit = rq_uid req"
      "\<not> db_fails env CheckinHabitGet s" "status habit = ''active''"
      "isDateValidForHabit env habit (dateOf env req)"
    and decl: "rq_completed req = JBool False"
    and add: "\<not> db_fails env CheckinAdd (called CheckinHabitGet s)"
    and fin: "\<forall>s'. \<not> db_fails env CheckinUserUpdate s'"
    and user: "users s (rq_uid req) = Some u"
  shows "\<exists>rec. fst (createCheckIn env req s) =
             CheckInCreated (length (checkins s)) rec
               \<lparr>currentStreak = streak habit, updated = False\<rparr> \<and>
           \<not> completed rec \<and> c_date rec = dateOf env req \<and>
           c_habitId rec = rq_habitId req \<and> c_userId rec = rq_uid req \<and>
           checkins (snd (createCheckIn env req s)) = checkins s @ [rec] \<and>
           habits (snd (createCheckIn env req s)) = habits s \<and>
           achievements (snd (createCheckIn env req s)) = achievements s \<and>
           notifications (snd (createCheckIn env req s)) = notifications s \<and>
           pushes (snd (createCheckIn env req s)) = pushes s \<and>
           users (snd (createCheckIn env req s)) =
             (users s)(rq_uid req \<mapsto> u\<lparr>lastActivity := Some (now env)\<rparr>)"
proof -
  have v6: "\<not> (dateOf env req \<in> set (datesOf habit) \<and> truthy (rq_completed req))"
    using decl by simp
  have nfl: "\<not> notFalse (rq_completed req)" using decl by (simp add: notFalse_def)
  from createCheckIn_steps[OF valid(3,1,2,4,5) v6 add] nfl obtain rec s3 where
    st: "checkins s3 = checkins s @ [rec]" "users s3 = users s" "habits s3 = habits s"
      "achievements s3 = achievements s" "notifications s3 = notifications s"
      "pushes s3 = pushes s"
      "c_habitId rec = rq_habitId req" "c_userId rec = rq_uid req" "c_date rec = dateOf env req"
      "\<not> completed rec" and
    res: "createCheckIn env req s =
            (if db_fails env CheckinUserUpdate s3 \<or> users s3 (rq_uid req) = None
            then (Rejected 500 ''Failed to create check-in'',
                  console ''Create check-in error:''
                    (thrown (DbError CheckinUserUpdate) (called CheckinUserUpdate s3)))
            else (CheckInCreated (length (checkins s)) rec
                    \<lparr>currentStreak = streak habit, updated = False\<rparr>,
                  (called CheckinUserUpdate s3)\<lparr>users := (users s3)(rq_uid req \<mapsto>
                      (the (users s3 (rq_uid req)))\<lparr>lastActivity := Some (now env)\<rparr>)\<rparr>))"
    by auto
  from fin have "\<not> db_fails env CheckinUserUpdate s3" by blast
  with res st(2) user have eq: "createCheckIn env req s =
      (CheckInCreated (length (checkins s)) rec \<lparr>currentStreak = streak habit, updated = False\<rparr>,
       (called CheckinUserUpdate s3)\<lparr>users := (users s)(rq_uid req \<mapsto>
                      u\<lparr>lastActivity := Some (now env)\<rparr>)\<rparr>)"
    by simp
  show ?thesis
    unfolding eq using st by (intro exI[of _ rec]) simp
qed

text \<open>
  C3 as stated fails on the handler that creates check-ins: a request with
  \<open>completed = false\<close> for a day that is already among the completed dates is accepted,
  a check-in record is stored and the last activity of the user is updated.
\<close>

theorem duplicate_checkIn_declined_counterexample:
  "dateOf exampleEnv declinedRequest \<in> set (datesOf doneHabit) \<and>
   fst (createCheckIn exampleEnv declinedRequest (habitStore doneHabit)) =
     CheckInCreated 0
       \<lparr>c_habitId = ''h1'', c_userId = ''u1'', c_date = 20, completed = False,
        completionPercentage = 0, c_notes = None, photoUrl = None, mood = None,
        c_createdAt = 1000\<rparr>
       \<lparr>currentStreak = Some 1, updated = False\<rparr> \<and>
   checkins (habitStore doneHabit) = [] \<and>
   length (checkins (snd (createCheckIn exampleEnv declinedRequest (habitStore doneHabit)))) = 1 \<and>
   lastActivity (the (users (habitStore doneHabit) ''u1'')) = None \<and>
   lastActivity (the (users (snd (createCheckIn exampleEnv declinedRequest (habitStore doneHabit)))
                        ''u1'')) = Some 1000"
  by (simp add: createCheckIn_def createCheckInData_def Let_def exampleEnv_def habitStore_def
      exampleStore_def emptyStore_def declinedRequest_def exampleRequest_def doneHabit_def
      exampleHabit_def exampleUser_def notFalse_def orNull_def dateOf_def datesOf_def
      called_def console_def)

text \<open>
  C3, amended. For a habit of the user and a day that is already among its completed
  dates: the handler that checks in to a habit answers "Already checked in today" and
  the handler that creates check-ins, for a request whose \<open>completed\<close> field is truthy,
  answers "Already checked in for this date"; in both cases no check-in record is
  created and the users, habits, achievements, notifications and pushed messages are
  unchanged. A request with \<open>completed = false\<close> is accepted: it stores a check-in record
  that is not completed and updates the last activity of the user, and changes no
  habit, achievement or notification.
\<close>

theorem duplicate_checkIn_rejected:
  assumes "habits s habitId = Some habit" and "h_userId habit = userId"
  shows "(\<not> db_fails env HabitGet s \<and> \<not> archived habit \<and> \<not> paused habit \<and>
          today env \<in> set (datesOf habit) \<longrightarrow>
            fst (checkIn env userId habitId s) = Rejected 400 ''Already checked in today'' \<and>
            sameData s (snd (checkIn env userId habitId s))) \<and>
         (rq_habitId req = habitId \<and> rq_uid req = userId \<and> \<not> db_fails env CheckinHabitGet s \<and>
          status habit = ''active'' \<and> isDateValidForHabit env habit (dateOf env req) \<and>
          dateOf env req \<in> set (datesOf habit) \<longrightarrow>
            (truthy (rq_completed req) \<longrightarrow>
               fst (createCheckIn env req s) = Rejected 400 ''Already checked in for this date'' \<and>
               sameData s (snd (createCheckIn env req s))) \<and>
            (rq_completed req = JBool False \<and>
             \<not> db_fails env CheckinAdd (called CheckinHabitGet s) \<and>
             (\<forall>s'. \<not> db_fails env CheckinUserUpdate s') \<and> users s userId \<noteq> None \<longrightarrow>
               (\<exists>rec. fst (createCheckIn env req s) =
                         CheckInCreated (length (checkins s)) rec
                           \<lparr>currentStreak = streak habit, updated = False\<rparr> \<and>
                      \<not> completed rec \<and> c_date rec = dateOf env req \<and>
                      checkins (snd (createCheckIn env req s)) = checkins s @ [rec] \<and>
                      habits (snd (createCheckIn env req s)) = habits s \<and>
                      achievements (snd (createCheckIn env req s)) = achievements s \<and>
                      notifications (snd (createCheckIn env req s)) = notifications s \<and>
                      pushes (snd (createCheckIn env req s)) = pushes s \<and>
                      users (snd (createCheckIn env req s)) =
                        (users s)(userId \<mapsto>
                           (the (users s userId))\<lparr>lastActivity := Some (now env)\<rparr>))))"
proof (intro conjI impI; (elim conjE)?)
  assume "\<not> db_fails env HabitGet s" "\<not> archived habit" "\<not> paused habit"
    "today env \<in> set (datesOf habit)"
  with checkIn_already[OF assms] show
    "fst (checkIn env userId habitId s) = Rejected 400 ''Already checked in today''"
    "sameData s (snd (checkIn env userId habitId s))" by blast+
next
  assume a: "rq_habitId req = habitId" "rq_uid req = userId" "\<not> db_fails env CheckinHabitGet s"
    "status habit = ''active''" "isDateValidForHabit env habit (dateOf env req)"
    "dateOf env req \<in> set (datesOf habit)" "truthy (rq_completed req)"
  from createCheckIn_already[of s req habit env] a assms show
    "fst (createCheckIn env req s) = Rejected 400 ''Already checked in for this date''"
    "sameData s (snd (createCheckIn env req s))" by simp_all
next
  assume a: "rq_habitId req = habitId" "rq_uid req = userId" "\<not> db_fails env CheckinHabitGet s"
    "status habit = ''active''" "isDateValidForHabit env habit (dateOf env req)"
    "rq_completed req = JBool False" "\<not> db_fails env CheckinAdd (called CheckinHabitGet s)"
    "\<forall>s'. \<not> db_fails env CheckinUserUpdate s'" "users s userId \<noteq> None"
  then obtain u where u: "users s (rq_uid req) = Some u" by auto
  from createCheckIn_declined[of s req habit env u] a assms u
  show "\<exists>rec. fst (createCheckIn env req s) =
                         CheckInCreated (length (checkins s)) rec
                           \<lparr>currentStreak = streak habit, updated = False\<rparr> \<and>
                      \<not> completed rec \<and> c_date rec = dateOf env req \<and>
                      checkins (snd (createCheckIn env req s)) = checkins s @ [rec] \<and>
                      habits (snd (createCheckIn env req s)) = habits s \<and>
                      achievements (snd (createCheckIn env req s)) = achievements s \<and>
                      notifications (snd (createCheckIn env req s)) = notifications s \<and>
                      pushes (snd (createCheckIn env req s)) = pushes s \<and>
                      users (snd (createCheckIn env req s)) =
                        (users s)(userId \<mapsto>
                           (the (users s userId))\<lparr>lastActivity := Some (now env)\<rparr>)"
    by auto
qed

theorem duplicate_checkIn_rejected_witness:
  "habits (habitStore doneHabit) ''h1'' = Some doneHabit \<and> h_userId doneHabit = ''u1'' \<and>
   today exampleEnv \<in> set (datesOf doneHabit) \<and>
   dateOf exampleEnv confirmedRequest \<in> set (datesOf doneHabit) \<and>
   truthy (rq_completed confirmedRequest) \<and>
   fst (checkIn exampleEnv ''u1'' ''h1'' (habitStore doneHabit)) =
     Rejected 400 ''Already checked in today'' \<and>
   sameData (habitStore doneHabit) (snd (checkIn exampleEnv ''u1'' ''h1'' (habitStore doneHabit))) \<and>
   fst (createCheckIn exampleEnv confirmedRequest (habitStore doneHabit)) =
     Rejected 400 ''Already checked in for this date'' \<and>
   sameData (habitStore doneHabit)
     (snd (createCheckIn exampleEnv confirmedRequest (habitStore doneHabit))) \<and>
   rq_completed declinedRequest = JBool False \<and>
   (\<exists>rec. checkins (snd (createCheckIn exampleEnv declinedRequest (habitStore doneHabit))) = [rec] \<and>
      \<not> completed rec) \<and>
   habits (snd (createCheckIn exampleEnv declinedRequest (habitStore doneHabit))) =
     habits (habitStore doneHabit)"
proof -
  let ?s = "habitStore doneHabit"
  have h: "habits ?s ''h1'' = Some doneHabit" "h_userId doneHabit = ''u1''"
    by (simp_all add: habitStore_def doneHabit_def exampleHabit_def)
  have a: "\<not> db_fails exampleEnv HabitGet ?s" "\<not> archived doneHabit" "\<not> paused doneHabit"
    "today exampleEnv \<in> set (datesOf doneHabit)" "status doneHabit = ''active''"
    "\<not> db_fails exampleEnv CheckinHabitGet ?s"
    "\<not> db_fails exampleEnv CheckinAdd (called CheckinHabitGet ?s)"
    "\<forall>s'. \<not> db_fails exampleEnv CheckinUserUpdate s'" "users ?s ''u1'' \<noteq> None"
    "checkins ?s = []"
    by (simp_all add: exampleEnv_def doneHabit_def exampleHabit_def datesOf_def habitStore_def
        exampleStore_def emptyStore_def)
  have c: "rq_habitId confirmedRequest = ''h1''" "rq_uid confirmedRequest = ''u1''"
    "isDateValidForHabit exampleEnv doneHabit (dateOf exampleEnv confirmedRequest)"
    "dateOf exampleEnv confirmedRequest \<in> set (datesOf doneHabit)"
    "truthy (rq_completed confirmedRequest)"
    by (simp_all add: confirmedRequest_def exampleRequest_def exampleEnv_def dateOf_def
        datesOf_def doneHabit_def exampleHabit_def)
  have d: "rq_habitId declinedRequest = ''h1''" "rq_uid declinedRequest = ''u1''"
    "isDateValidForHabit exampleEnv doneHabit (dateOf exampleEnv declinedRequest)"
    "dateOf exampleEnv declinedRequest \<in> set (datesOf doneHabit)"
    "rq_completed declinedRequest = JBool False"
    by (simp_all add: declinedRequest_def exampleRequest_def exampleEnv_def dateOf_def
        datesOf_def doneHabit_def exampleHabit_def)
  from duplicate_checkIn_rejected[OF h, of exampleEnv confirmedRequest] a c
  have 1: "fst (checkIn exampleEnv ''u1'' ''h1'' ?s) = Rejected 400 ''Already checked in today''"
    "sameData ?s (snd (checkIn exampleEnv ''u1'' ''h1'' ?s))"
    "fst (createCheckIn exampleEnv confirmedRequest ?s) =
       Rejected 400 ''Already checked in for this date''"
    "sameData ?s (snd (createCheckIn exampleEnv confirmedRequest ?s))"
    by simp_all
  from duplicate_checkIn_rejected[OF h, of exampleEnv declinedRequest] a d
  have 2: "(\<exists>rec. checkins (snd (createCheckIn exampleEnv declinedRequest ?s)) = [rec] \<and>
      \<not> completed rec)"
    "habits (snd (createCheckIn exampleEnv declinedRequest ?s)) = habits ?s"
    by auto
  from h a(4) c(4,5) d(5) 1 2 show ?thesis by simp
qed

end
